(* ===== verification/Gateway_Prelude.thy ===== *)
theory Gateway_Prelude
  imports Complex_Main "HOL-Library.Char_ord" "HOL-Library.List_Lexorder" "HOL-Library.Product_Lexorder"
begin

text \<open>
  The shared vocabulary of the development.

  \<^item> Go's scalar types: a \<open>time.Time\<close> is the number of nanoseconds since the zero time, so
    \<open>IsZero\<close> is being 0 and every clock reading is positive; a \<open>time.Duration\<close> is an integer.
  \<^item> The error values of \<open>internal/db/repository\<close> and \<open>internal/worker\<close>, with \<open>errors.Is\<close>.
    A \<open>fmt.Errorf\<close> that wraps one sentinel is that sentinel (only its text is dropped), unless the
    package declares the wrapper as a sentinel of its own.
  \<^item> A state-error monad for database code. A world holds the transactional tables, the
    identity sequence (which a rollback does not restore), a clock, and scripts for everything
    the code cannot control: how far the clock moves between two readings, which database
    statement fails and how, and whether a context check reports cancellation.
  \<^item> A weakest-precondition calculus for that monad and the SQL-style row updates.
\<close>

section \<open>Scalars, errors\<close>

type_synonym time = int
type_synonym duration = int

definition Second :: duration where
  "Second = 1000000000"

definition Minute :: duration where
  "Minute = 60 * Second"

datatype db_fault = SerializationFailure | DeadlockDetected | UniqueViolation | ForeignKeyViolation | CheckViolation
  | LockNotAvailable | OtherFault string

datatype error =
    ErrAlreadyExists | ErrNotFound | ErrInvalidInput | ErrConflict
  | ErrTaskLeaseLost | ErrTaskDataCorrupted | ErrTaskIdentityContended | ErrRepositoryContended
  | ErrConcurrentObjectCreate | ErrAlreadyCurrent | ErrPermanentDeleteStorageBusy | ErrReplicaTargetLowered
  | ErrContentCleanupInProgress | ErrContentCleanupNotReady | ErrNotEligible
  | ErrTaskEffectAlreadyAdmitted | ErrTaskOperationUnresolved
  | ErrUnknownType | ErrInputConflict | ErrRetryUnsupported | ErrInvalidResult
  | ErrRegistryFrozen | ErrEffectForbidden | ErrCodecPanic | ErrInvalidCanonical | ErrInvalidPolicy
  | ErrContext
  | ErrDb db_fault
  | ErrText string
  | ErrWrap error error

fun errors_is :: "error \<Rightarrow> error \<Rightarrow> bool" where
  "errors_is (ErrWrap a b) t = (ErrWrap a b = t \<or> errors_is a t \<or> errors_is b t)"
| "errors_is ErrPermanentDeleteStorageBusy t = (t = ErrPermanentDeleteStorageBusy \<or> t = ErrConflict)"
| "errors_is ErrReplicaTargetLowered t = (t = ErrReplicaTargetLowered \<or> t = ErrInvalidInput)"
| "errors_is e t = (e = t)"

text \<open>\<open>errors.AsType[*pgconn.PgError]\<close>: the first database error in the tree.\<close>

fun as_PgError :: "error \<Rightarrow> db_fault option" where
  "as_PgError (ErrDb f) = Some f"
| "as_PgError (ErrWrap a b) = (case as_PgError a of None \<Rightarrow> as_PgError b | Some f \<Rightarrow> Some f)"
| "as_PgError _ = None"

definition shouldRetryRepositoryTx :: "error \<Rightarrow> bool" where
  "shouldRetryRepositoryTx e =
     (if errors_is e ErrConcurrentObjectCreate \<or> errors_is e ErrTaskIdentityContended then True
      else as_PgError e = Some SerializationFailure \<or> as_PgError e = Some DeadlockDetected)"

text \<open>\<open>strings.TrimSpace\<close> on bytes: the ASCII white space.\<close>

definition is_space :: "char \<Rightarrow> bool" where
  "is_space c = (c \<in> set [CHR 0x09, CHR 0x0A, CHR 0x0B, CHR 0x0C, CHR 0x0D, CHR '' ''])"

definition TrimSpace :: "string \<Rightarrow> string" where
  "TrimSpace s = rev (dropWhile is_space (rev (dropWhile is_space s)))"

section \<open>The database monad\<close>

record 'd world =
  db :: 'd
  seq :: int
  clock :: time
  ticks :: "nat list"
  faults :: "db_fault option list"
  ctx_script :: "bool list"
  lease_script :: "bool list"

type_synonym ('d, 'a) M = "'d world \<Rightarrow> (error + 'a) \<times> 'd world"

definition ret :: "'a \<Rightarrow> ('d, 'a) M" where
  "ret x = (\<lambda>w. (Inr x, w))"

definition fail :: "error \<Rightarrow> ('d, 'a) M" where
  "fail e = (\<lambda>w. (Inl e, w))"

definition bindM :: "('d, 'a) M \<Rightarrow> ('a \<Rightarrow> ('d, 'b) M) \<Rightarrow> ('d, 'b) M" where
  "bindM m f = (\<lambda>w. case m w of (Inl e, w') \<Rightarrow> (Inl e, w') | (Inr x, w') \<Rightarrow> f x w')"

definition catchM :: "('d, 'a) M \<Rightarrow> (error \<Rightarrow> ('d, 'a) M) \<Rightarrow> ('d, 'a) M" where
  "catchM m h = (\<lambda>w. case m w of (Inl e, w') \<Rightarrow> h e w' | (Inr x, w') \<Rightarrow> (Inr x, w'))"

definition guardM :: "bool \<Rightarrow> error \<Rightarrow> ('d, unit) M" where
  "guardM b e = (if b then ret () else fail e)"

text \<open>\<open>time.Now()\<close>: the clock moves by the next tick (by nothing when the script has run out)
  and is read. It never runs backwards.\<close>

definition now :: "('d, time) M" where
  "now = (\<lambda>w. let t = clock w + (case ticks w of [] \<Rightarrow> 0 | n # _ \<Rightarrow> int n)
      in (Inr t, w\<lparr>clock := t, ticks := tl (ticks w)\<rparr>))"

text \<open>One SQL statement: it fails when the script says so, without an effect, and otherwise
  reads and changes the tables.\<close>

definition stmt :: "('d \<Rightarrow> 'a \<times> 'd) \<Rightarrow> ('d, 'a) M" where
  "stmt f = (\<lambda>w. case faults w of
      Some e # fs \<Rightarrow> (Inl (ErrDb e), w\<lparr>faults := fs\<rparr>)
    | _ \<Rightarrow> (Inr (fst (f (db w))), w\<lparr>db := snd (f (db w)), faults := tl (faults w)\<rparr>))"

definition query :: "('d \<Rightarrow> 'a) \<Rightarrow> ('d, 'a) M" where
  "query f = stmt (\<lambda>d. (f d, d))"

text \<open>A statement the schema may refuse: a constraint violation is an error and has no effect.\<close>

definition stmtE :: "('d \<Rightarrow> (db_fault + 'a) \<times> 'd) \<Rightarrow> ('d, 'a) M" where
  "stmtE f = bindM (stmt (\<lambda>d. case f d of (Inl e, _) \<Rightarrow> (Inl e, d) | (Inr x, d') \<Rightarrow> (Inr x, d')))
     (\<lambda>r. case r of Inl e \<Rightarrow> fail (ErrDb e) | Inr x \<Rightarrow> ret x)"

definition next_seq :: "('d, int) M" where
  "next_seq = (\<lambda>w. (Inr (seq w), w\<lparr>seq := seq w + 1\<rparr>))"

text \<open>A context check (\<open>ctx.Err() != nil\<close>) and a read of the engine's lease flag.\<close>

definition ctx_done :: "('d, bool) M" where
  "ctx_done = (\<lambda>w. (Inr (ctx_script w \<noteq> [] \<and> hd (ctx_script w)), w\<lparr>ctx_script := tl (ctx_script w)\<rparr>))"

definition lease_safe :: "('d, bool) M" where
  "lease_safe = (\<lambda>w. (Inr (lease_script w = [] \<or> hd (lease_script w)), w\<lparr>lease_script := tl (lease_script w)\<rparr>))"

definition transact :: "('d, 'a) M \<Rightarrow> ('d, 'a) M" where
  "transact m = (\<lambda>w. case m w of (Inl e, w') \<Rightarrow> (Inl e, w'\<lparr>db := db w\<rparr>) | (Inr x, w') \<Rightarrow> (Inr x, w'))"

text \<open>\<open>runRepositoryTx\<close>: up to twenty attempts; \<open>n\<close> counts those left. The sleep between two
  attempts is observable only through cancellation.\<close>

fun runRepositoryTx_loop :: "nat \<Rightarrow> ('d, 'a) M \<Rightarrow> ('d, 'a) M" where
  "runRepositoryTx_loop n m =
     catchM (transact m)
       (\<lambda>e. if \<not> shouldRetryRepositoryTx e then fail e
            else (case n of
                0 \<Rightarrow> fail (ErrWrap ErrRepositoryContended e)
              | Suc k \<Rightarrow> bindM ctx_done (\<lambda>d. if d then fail ErrContext else runRepositoryTx_loop k m)))"

definition WithTx :: "('d, 'a) M \<Rightarrow> ('d, 'a) M" where
  "WithTx m = runRepositoryTx_loop 19 m"

section \<open>Rows\<close>

definition update_where :: "('r \<Rightarrow> bool) \<Rightarrow> ('r \<Rightarrow> 'r) \<Rightarrow> 'r list \<Rightarrow> 'r list" where
  "update_where P f rs = map (\<lambda>r. if P r then f r else r) rs"

definition rows_affected :: "('r \<Rightarrow> bool) \<Rightarrow> 'r list \<Rightarrow> nat" where
  "rows_affected P rs = length (filter P rs)"

fun min_row :: "('r \<Rightarrow> 'k::linorder) \<Rightarrow> 'r list \<Rightarrow> 'r option" where
  "min_row k [] = None"
| "min_row k (r # rs) = (case min_row k rs of None \<Rightarrow> Some r
     | Some s \<Rightarrow> if k r \<le> k s then Some r else Some s)"

section \<open>Weakest preconditions\<close>

named_theorems wp \<open>weakest-precondition equations of the monad's operations\<close>

definition wpM :: "('d, 'a) M \<Rightarrow> ('a \<Rightarrow> 'd world \<Rightarrow> bool) \<Rightarrow> (error \<Rightarrow> 'd world \<Rightarrow> bool) \<Rightarrow> 'd world \<Rightarrow> bool" where
  "wpM m Q E w = (case m w of (Inl e, w') \<Rightarrow> E e w' | (Inr x, w') \<Rightarrow> Q x w')"

lemma errors_is_refl [simp]: "errors_is e e"
  by (cases e) auto

lemma wp_ret [wp, simp]: "wpM (ret x) Q E w = Q x w"
  by (simp add: wpM_def ret_def)

lemma wp_fail [wp, simp]: "wpM (fail e) Q E w = E e w"
  by (simp add: wpM_def fail_def)

lemma wp_bind [wp, simp]: "wpM (bindM m f) Q E w = wpM m (\<lambda>x. wpM (f x) Q E) E w"
  by (auto simp: wpM_def bindM_def split: sum.splits prod.splits)

lemma wp_catch [wp, simp]: "wpM (catchM m h) Q E w = wpM m Q (\<lambda>e. wpM (h e) Q E) w"
  by (auto simp: wpM_def catchM_def split: sum.splits prod.splits)

lemma wp_guard [wp, simp]: "wpM (guardM b e) Q E w = (if b then Q () w else E e w)"
  by (simp add: guardM_def)

lemma wp_if [wp, simp]: "wpM (if b then m else n) Q E w = (if b then wpM m Q E w else wpM n Q E w)"
  by simp

lemma wp_option [wp, simp]:
  "wpM (case x of None \<Rightarrow> m | Some y \<Rightarrow> f y) Q E w
     = (case x of None \<Rightarrow> wpM m Q E w | Some y \<Rightarrow> wpM (f y) Q E w)"
  by (cases x) auto

lemma wp_let [wp, simp]: "wpM (let x = a in f x) Q E w = (let x = a in wpM (f x) Q E w)"
  by simp

lemma wp_transact [wp, simp]: "wpM (transact m) Q E w = wpM m Q (\<lambda>e w'. E e (w'\<lparr>db := db w\<rparr>)) w"
  by (auto simp: wpM_def transact_def split: sum.splits prod.splits)

lemma wp_mono:
  assumes "wpM m Q E w" and "\<And>x w'. Q x w' \<Longrightarrow> Q' x w'" and "\<And>e w'. E e w' \<Longrightarrow> E' e w'"
  shows "wpM m Q' E' w"
  using assms by (auto simp: wpM_def split: sum.splits prod.splits)

lemma wp_conj:
  assumes "wpM m Q E w" and "wpM m Q' E' w"
  shows "wpM m (\<lambda>x w'. Q x w' \<and> Q' x w') (\<lambda>e w'. E e w' \<and> E' e w') w"
  using assms by (auto simp: wpM_def split: sum.splits prod.splits)

text \<open>Demonic rules: whatever the scripts say, the postcondition holds.\<close>

lemma wp_now:
  assumes "\<And>t ts. clock w \<le> t \<Longrightarrow> Q t (w\<lparr>clock := t, ticks := ts\<rparr>)"
  shows "wpM now Q E w"
  using assms by (auto simp: wpM_def now_def Let_def split: list.splits)

lemma wp_stmt:
  assumes "\<And>fs. Q (fst (f (db w))) (w\<lparr>db := snd (f (db w)), faults := fs\<rparr>)"
    and "\<And>e fs. E (ErrDb e) (w\<lparr>faults := fs\<rparr>)"
  shows "wpM (stmt f) Q E w"
  using assms by (auto simp: wpM_def stmt_def split: list.splits option.splits)

lemma wp_query:
  assumes "\<And>fs. Q (f (db w)) (w\<lparr>faults := fs\<rparr>)"
    and "\<And>e fs. E (ErrDb e) (w\<lparr>faults := fs\<rparr>)"
  shows "wpM (query f) Q E w"
  unfolding query_def using assms by (intro wp_stmt) (auto simp: world.defs)

lemma wp_next_seq [wp, simp]: "wpM next_seq Q E w = Q (seq w) (w\<lparr>seq := seq w + 1\<rparr>)"
  by (simp add: wpM_def next_seq_def)

lemma wp_ctx_done:
  assumes "\<And>b bs. Q b (w\<lparr>ctx_script := bs\<rparr>)"
  shows "wpM ctx_done Q E w"
  using assms by (simp add: wpM_def ctx_done_def)

lemma wp_lease_safe:
  assumes "\<And>b bs. Q b (w\<lparr>lease_script := bs\<rparr>)"
  shows "wpM lease_safe Q E w"
  using assms by (simp add: wpM_def lease_safe_def)

lemma wp_stmtE:
  assumes "\<And>x d' fs. f (db w) = (Inr x, d') \<Longrightarrow> Q x (w\<lparr>db := d', faults := fs\<rparr>)"
    and "\<And>e d' fs. f (db w) = (Inl e, d') \<Longrightarrow> E (ErrDb e) (w\<lparr>faults := fs\<rparr>)"
    and "\<And>e fs. E (ErrDb e) (w\<lparr>faults := fs\<rparr>)"
  shows "wpM (stmtE f) Q E w"
  unfolding stmtE_def wp_bind
  by (rule wp_stmt) (use assms in \<open>auto split: sum.splits prod.splits\<close>)

section \<open>Relations every action keeps\<close>

text \<open>\<open>keeps R m\<close>: whatever the outcome, \<open>R\<close> relates the world before \<open>m\<close> to the world after it.
  For a relation that is transitive, holds over every move of the environment and survives a
  rollback, the composition rules below reduce an operation to its statements.\<close>

named_theorems keep \<open>composition rules for relations kept by database actions\<close>

definition keeps :: "('d world \<Rightarrow> 'd world \<Rightarrow> bool) \<Rightarrow> ('d, 'a) M \<Rightarrow> bool" where
  "keeps R m = (\<forall>w. R w (snd (m w)))"

lemma keepsI: "(\<And>w. R w (snd (m w))) \<Longrightarrow> keeps R m"
  by (simp add: keeps_def)

lemma wpM_same: "wpM m (\<lambda>_. P) (\<lambda>_. P) w = P (snd (m w))"
  by (auto simp: wpM_def split: prod.splits sum.splits)

lemma keeps_wp: "(\<And>w. wpM m (\<lambda>_. R w) (\<lambda>_. R w) w) \<Longrightarrow> keeps R m"
  by (simp add: keeps_def wpM_same)

lemma keepsD: "keeps R m \<Longrightarrow> R w (snd (m w))"
  by (simp add: keeps_def)

lemma keeps_if [keep]: "(b \<Longrightarrow> keeps R m) \<Longrightarrow> (\<not> b \<Longrightarrow> keeps R n) \<Longrightarrow> keeps R (if b then m else n)"
  by simp

lemma keeps_option [keep]:
  "(x = None \<Longrightarrow> keeps R m) \<Longrightarrow> (\<And>y. x = Some y \<Longrightarrow> keeps R (f y)) \<Longrightarrow> keeps R (case x of None \<Rightarrow> m | Some y \<Rightarrow> f y)"
  by (cases x) auto

lemma keeps_sum [keep]:
  "(\<And>e. x = Inl e \<Longrightarrow> keeps R (f e)) \<Longrightarrow> (\<And>y. x = Inr y \<Longrightarrow> keeps R (g y)) \<Longrightarrow> keeps R (case x of Inl e \<Rightarrow> f e | Inr y \<Rightarrow> g y)"
  by (cases x) auto

lemma keeps_prod [keep]: "(\<And>a b. x = (a, b) \<Longrightarrow> keeps R (f a b)) \<Longrightarrow> keeps R (case x of (a, b) \<Rightarrow> f a b)"
  by (cases x) auto

lemma keeps_let [keep]: "(\<And>x. x = a \<Longrightarrow> keeps R (f x)) \<Longrightarrow> keeps R (let x = a in f x)"
  by simp

section \<open>Outcomes of actions that succeed\<close>

abbreviation post :: "('d, 'a) M \<Rightarrow> ('a \<Rightarrow> 'd world \<Rightarrow> bool) \<Rightarrow> 'd world \<Rightarrow> bool" where
  "post m Q w \<equiv> wpM m Q (\<lambda>_ _. True) w"

lemma post_kept: "keeps R m \<Longrightarrow> (\<And>x w'. R w w' \<Longrightarrow> Q x w') \<Longrightarrow> post m Q w"
  by (auto simp: wpM_def keeps_def split: prod.splits sum.splits) (metis snd_conv)+

lemma post_bind_kept: "keeps R m \<Longrightarrow> (\<And>x w'. R w w' \<Longrightarrow> post (f x) Q w') \<Longrightarrow> post (bindM m f) Q w"
  unfolding wp_bind by (rule post_kept)

lemma wp_any: "(\<And>x w'. Q x w') \<Longrightarrow> (\<And>e w'. E e w') \<Longrightarrow> wpM m Q E w"
  by (auto simp: wpM_def split: prod.splits sum.splits)

lemma post_if: "(b \<Longrightarrow> post m Q w) \<Longrightarrow> (\<not> b \<Longrightarrow> post n Q w) \<Longrightarrow> post (if b then m else n) Q w"
  by simp

lemma post_fail: "post (fail e) Q w"
  by simp

lemma post_option:
  "(x = None \<Longrightarrow> post m Q w) \<Longrightarrow> (\<And>y. x = Some y \<Longrightarrow> post (f y) Q w) \<Longrightarrow> post (case x of None \<Rightarrow> m | Some y \<Rightarrow> f y) Q w"
  by (cases x) auto

lemma post_seq: "(\<And>x w'. post (f x) Q w') \<Longrightarrow> post (bindM m f) Q w"
  unfolding wp_bind by (rule wp_any) auto

section \<open>Relations that hold over a whole action\<close>

locale kept_relation =
  fixes R :: "'d world \<Rightarrow> 'd world \<Rightarrow> bool"
  assumes kept_trans: "R u v \<Longrightarrow> R v w \<Longrightarrow> R u w"
    and kept_env: "db w' = db w \<Longrightarrow> seq w \<le> seq w' \<Longrightarrow> clock w \<le> clock w' \<Longrightarrow> R w w'"
    and kept_rollback: "R w w' \<Longrightarrow> R w (w'\<lparr>db := db w\<rparr>)"
begin

lemma keeps_ret [keep]: "keeps R (ret x)"
  by (auto simp: keeps_def ret_def intro: kept_env)

lemma keeps_fail [keep]: "keeps R (fail e)"
  by (auto simp: keeps_def fail_def intro: kept_env)

lemma keeps_guard [keep]: "keeps R (guardM b e)"
  by (auto simp: guardM_def intro: keeps_ret keeps_fail)

lemma keeps_bind [keep]: "keeps R m \<Longrightarrow> (\<And>x. keeps R (f x)) \<Longrightarrow> keeps R (bindM m f)"
  unfolding keeps_def bindM_def
  by (auto split: prod.splits sum.splits intro: kept_trans) (metis kept_trans snd_conv)+

lemma keeps_catch [keep]: "keeps R m \<Longrightarrow> (\<And>e. keeps R (h e)) \<Longrightarrow> keeps R (catchM m h)"
  unfolding keeps_def catchM_def
  by (auto split: prod.splits sum.splits intro: kept_trans) (metis kept_trans snd_conv)+

lemma keeps_now [keep]: "keeps R now"
  by (auto simp: keeps_def now_def Let_def intro!: kept_env split: list.splits)

lemma keeps_next_seq [keep]: "keeps R next_seq"
  by (auto simp: keeps_def next_seq_def intro!: kept_env)

lemma keeps_ctx_done [keep]: "keeps R ctx_done"
  by (auto simp: keeps_def ctx_done_def intro!: kept_env)

lemma keeps_lease_safe [keep]: "keeps R lease_safe"
  by (auto simp: keeps_def lease_safe_def intro!: kept_env)

lemma keeps_stmt: "(\<And>w fs. R w (w\<lparr>db := snd (f (db w)), faults := fs\<rparr>)) \<Longrightarrow> keeps R (stmt f)"
  by (rule keeps_wp, rule wp_stmt) (auto intro: kept_env)

lemma keeps_query [keep]: "keeps R (query f)"
  by (rule keeps_wp, rule wp_query) (auto intro: kept_env)

lemma keeps_stmtE:
  "(\<And>w x d' fs. f (db w) = (Inr x, d') \<Longrightarrow> R w (w\<lparr>db := d', faults := fs\<rparr>)) \<Longrightarrow> keeps R (stmtE f)"
  by (rule keeps_wp, rule wp_stmtE) (auto intro: kept_env)

lemma keeps_transact [keep]: "keeps R m \<Longrightarrow> keeps R (transact m)"
  unfolding keeps_def transact_def
  by (auto split: prod.splits sum.splits intro: kept_rollback) (metis kept_rollback snd_conv)+

lemma keeps_tx_loop: "keeps R m \<Longrightarrow> keeps R (runRepositoryTx_loop n m)"
  by (induction n) (subst runRepositoryTx_loop.simps, auto intro!: keep keeps_transact)+

lemma keeps_WithTx [keep]: "keeps R m \<Longrightarrow> keeps R (WithTx m)"
  by (simp add: WithTx_def keeps_tx_loop del: runRepositoryTx_loop.simps)

end

end
