(* ===== verification/Task_Model.thy ===== *)
theory Task_Model
  imports Gateway_Prelude
begin

text \<open>
  The task row of \<open>internal/model/task.go\<close>, its JSON columns, the tables of the task
  subsystem, and the row constraints of the schema.

  A JSON column is kept parsed: \<open>RawEmpty\<close> is a column with no bytes (NULL), \<open>RawInvalid\<close> bytes
  that do not parse, \<open>Raw j\<close> a value. A timestamp inside JSON is the time it denotes. The
  statuses and resume modes are Go strings; \<open>TaskStatusOther\<close> and \<open>TaskResumeModeOther\<close> stand
  for every value the constants do not name, the empty string included.
\<close>

section \<open>JSON values\<close>

datatype json = JNull | JBool bool | JInt int | JStr string | JTime time
  | JArr "json list" | JObj "(string \<times> json) list"

datatype raw = RawEmpty | RawInvalid | Raw json

definition jsonObject :: "raw \<Rightarrow> bool" where
  "jsonObject r = (case r of Raw (JObj _) \<Rightarrow> True | _ \<Rightarrow> False)"

definition del_field :: "string \<Rightarrow> (string \<times> json) list \<Rightarrow> (string \<times> json) list" where
  "del_field k fs = filter (\<lambda>(k', _). k' \<noteq> k) fs"

definition set_field :: "string \<Rightarrow> json \<Rightarrow> (string \<times> json) list \<Rightarrow> (string \<times> json) list" where
  "set_field k v fs = (k, v) # del_field k fs"

section \<open>Rows\<close>

datatype TaskStatus = TaskStatusPending | TaskStatusRunning | TaskStatusCompleted
  | TaskStatusFailed | TaskStatusCancelled | TaskStatusOther string

datatype TaskResumeMode = TaskResumeModeExecute | TaskResumeModeRecover | TaskResumeModeOther string

type_synonym TaskType = string

definition TaskTypeUploadPlan :: TaskType where
  "TaskTypeUploadPlan = ''upload_plan''"

definition TaskTypeStorageStore :: TaskType where
  "TaskTypeStorageStore = ''storage_store''"

definition TaskSubjectStorageCopy :: string where
  "TaskSubjectStorageCopy = ''storage_copy''"

definition RecurringSystemTaskTypes :: "TaskType list" where
  "RecurringSystemTaskTypes = [''cache_capacity_reconcile'', ''cache_local_reconcile'',
     ''observability_refresh'', ''approved_provider_refresh'', ''endorsed_provider_refresh'']"

definition IsRecurringSystem :: "TaskType \<Rightarrow> bool" where
  "IsRecurringSystem t = (t \<in> set RecurringSystemTaskTypes)"

record Task =
  task_ID :: int
  task_Type :: TaskType
  task_InputVersion :: int
  task_SubjectType :: string
  task_SubjectKey :: string
  task_Generation :: "int option"
  task_RetryOfTaskID :: "int option"
  task_Input :: raw
  task_Checkpoint :: raw
  task_Runtime :: raw
  task_Status :: TaskStatus
  task_ResumeMode :: TaskResumeMode
  task_AvailableAt :: time
  task_WaitReason :: "string option"
  task_RetryCount :: int
  task_FailureReason :: "string option"
  task_LastError :: "string option"
  task_StatusMessage :: "string option"
  task_ClaimGeneration :: int
  task_LeaseUntil :: "time option"
  task_FinishedAt :: "time option"
  task_CreatedAt :: time
  task_UpdatedAt :: time
  task_WorkStartedAt :: "time option"
  task_AcknowledgedAt :: "time option"
  task_SupersededAt :: "time option"

record TaskObservation =
  obs_Key :: string
  obs_StartedAt :: time

record TaskRuntime =
  rt_OperationKey :: string
  rt_OperationStartedAt :: "time option"
  rt_LastAdmittedAttempt :: int
  rt_Observation :: "TaskObservation option"

record TaskEvent =
  event_TaskID :: int
  event_Type :: string
  event_Details :: raw
  event_CreatedAt :: time

record TaskSchedule =
  sched_Key :: string
  sched_NextRunAt :: time
  sched_LatestTaskID :: "int option"
  sched_Generation :: int

text \<open>The tables. \<open>review_holds\<close> lists the tasks of submitted commit requests that need
  attention, \<open>removal_holds\<close> the tasks that hold a removal request; \<open>domain\<close> is the rest of
  the database, which settlements change.\<close>

record 'd tables =
  tasks :: "Task list"
  task_events :: "TaskEvent list"
  task_schedules :: "TaskSchedule list"
  review_holds :: "int list"
  removal_holds :: "int list"
  domain :: 'd

type_synonym ('d, 'a) DB = "('d tables, 'a) M"

section \<open>The runtime column\<close>

fun field_string :: "json option \<Rightarrow> string option" where
  "field_string None = Some ''''"
| "field_string (Some JNull) = Some ''''"
| "field_string (Some (JStr s)) = Some s"
| "field_string _ = None"

fun field_int :: "json option \<Rightarrow> int option" where
  "field_int None = Some 0"
| "field_int (Some JNull) = Some 0"
| "field_int (Some (JInt i)) = Some i"
| "field_int _ = None"

fun field_time_ptr :: "json option \<Rightarrow> time option option" where
  "field_time_ptr None = Some None"
| "field_time_ptr (Some JNull) = Some None"
| "field_time_ptr (Some (JTime t)) = Some (Some t)"
| "field_time_ptr _ = None"

fun field_time :: "json option \<Rightarrow> time option" where
  "field_time None = Some 0"
| "field_time (Some JNull) = Some 0"
| "field_time (Some (JTime t)) = Some t"
| "field_time _ = None"

fun field_observation :: "json option \<Rightarrow> TaskObservation option option" where
  "field_observation None = Some None"
| "field_observation (Some JNull) = Some None"
| "field_observation (Some (JObj fs)) =
     (case (field_string (map_of fs ''key''), field_time (map_of fs ''started_at'')) of
        (Some k, Some t) \<Rightarrow> Some (Some \<lparr>obs_Key = k, obs_StartedAt = t\<rparr>)
      | _ \<Rightarrow> None)"
| "field_observation _ = None"

definition zero_runtime :: TaskRuntime where
  "zero_runtime = \<lparr>rt_OperationKey = '''', rt_OperationStartedAt = None,
     rt_LastAdmittedAttempt = 0, rt_Observation = None\<rparr>"

fun decode_runtime :: "raw \<Rightarrow> TaskRuntime option" where
  "decode_runtime (Raw JNull) = Some zero_runtime"
| "decode_runtime (Raw (JObj fs)) =
     (case (field_string (map_of fs ''operation_key''), field_time_ptr (map_of fs ''operation_started_at''),
            field_int (map_of fs ''last_admitted_attempt''), field_observation (map_of fs ''observation'')) of
        (Some k, Some s, Some a, Some ob) \<Rightarrow>
          Some \<lparr>rt_OperationKey = k, rt_OperationStartedAt = s, rt_LastAdmittedAttempt = a, rt_Observation = ob\<rparr>
      | _ \<Rightarrow> None)"
| "decode_runtime _ = None"

definition encode_observation :: "TaskObservation \<Rightarrow> json" where
  "encode_observation ob = JObj [(''key'', JStr (obs_Key ob)), (''started_at'', JTime (obs_StartedAt ob))]"

definition encode_runtime :: "TaskRuntime \<Rightarrow> (string \<times> json) list" where
  "encode_runtime rt =
     (if rt_OperationKey rt = '''' then [] else [(''operation_key'', JStr (rt_OperationKey rt))]) @
     (case rt_OperationStartedAt rt of None \<Rightarrow> [] | Some t \<Rightarrow> [(''operation_started_at'', JTime t)]) @
     (if rt_LastAdmittedAttempt rt = 0 then [] else [(''last_admitted_attempt'', JInt (rt_LastAdmittedAttempt rt))]) @
     (case rt_Observation rt of None \<Rightarrow> [] | Some ob \<Rightarrow> [(''observation'', encode_observation ob)])"

text \<open>The column merge of \<open>updateOperation\<close>: the three operation fields are replaced by what the
  changed runtime encodes to, every other field is kept.\<close>

definition merge_operation :: "(string \<times> json) list \<Rightarrow> (string \<times> json) list \<Rightarrow> (string \<times> json) list" where
  "merge_operation changed fs =
     fold (\<lambda>k acc. case map_of changed k of None \<Rightarrow> del_field k acc | Some v \<Rightarrow> set_field k v acc)
       [''operation_key'', ''operation_started_at'', ''last_admitted_attempt''] fs"

section \<open>Schema constraints\<close>

definition terminalTaskStatus :: "TaskStatus \<Rightarrow> bool" where
  "terminalTaskStatus s = (s = TaskStatusCompleted \<or> s = TaskStatusFailed \<or> s = TaskStatusCancelled)"

definition known_status :: "TaskStatus \<Rightarrow> bool" where
  "known_status s = (s = TaskStatusPending \<or> s = TaskStatusRunning \<or> terminalTaskStatus s)"

definition chk_tasks_claim :: "Task \<Rightarrow> bool" where
  "chk_tasks_claim r = ((task_Status r = TaskStatusRunning \<and> task_LeaseUntil r \<noteq> None \<and> 0 < task_ClaimGeneration r) \<or>
     (task_Status r \<noteq> TaskStatusRunning \<and> task_LeaseUntil r = None))"

definition chk_tasks :: "Task \<Rightarrow> bool" where
  "chk_tasks r = (
     task_Type r \<noteq> '''' \<and> task_SubjectType r \<noteq> '''' \<and> task_SubjectKey r \<noteq> '''' \<and>
     (\<forall>g \<in> set_option (task_Generation r). 0 \<le> g) \<and> 1 \<le> task_InputVersion r \<and>
     (task_ResumeMode r = TaskResumeModeExecute \<or> task_ResumeMode r = TaskResumeModeRecover) \<and>
     task_WaitReason r \<noteq> Some '''' \<and> task_FailureReason r \<noteq> Some '''' \<and>
     0 \<le> task_RetryCount r \<and> 0 \<le> task_ClaimGeneration r \<and>
     (\<forall>p \<in> set_option (task_RetryOfTaskID r). p < task_ID r) \<and>
     known_status (task_Status r) \<and> chk_tasks_claim r \<and>
     (terminalTaskStatus (task_Status r) = (task_FinishedAt r \<noteq> None)) \<and>
     (task_AcknowledgedAt r \<noteq> None \<longrightarrow> task_Status r = TaskStatusFailed) \<and>
     (task_SupersededAt r \<noteq> None \<longrightarrow> terminalTaskStatus (task_Status r)) \<and>
     jsonObject (task_Input r) \<and> (task_Checkpoint r \<noteq> RawEmpty \<longrightarrow> jsonObject (task_Checkpoint r)) \<and>
     jsonObject (task_Runtime r))"

text \<open>\<open>uq_tasks_identity\<close> is partial (rounds not superseded) and never applies to a NULL generation.\<close>

definition same_identity :: "Task \<Rightarrow> Task \<Rightarrow> bool" where
  "same_identity a b = (task_Type a = task_Type b \<and> task_SubjectType a = task_SubjectType b \<and>
     task_SubjectKey a = task_SubjectKey b \<and> task_Generation a = task_Generation b \<and> task_Generation a \<noteq> None)"

definition live_round :: "Task \<Rightarrow> bool" where
  "live_round r = (task_SupersededAt r = None)"

lemma map_of_del_field [simp]: "map_of (del_field k fs) k' = (if k' = k then None else map_of fs k')"
  by (induction fs) (auto simp: del_field_def)

lemma map_of_set_field [simp]: "map_of (set_field k v fs) k' = (if k' = k then Some v else map_of fs k')"
  by (simp add: set_field_def)

lemma encode_runtime_lookup:
  "map_of (encode_runtime rt) ''operation_key'' = (if rt_OperationKey rt = '''' then None else Some (JStr (rt_OperationKey rt)))"
  "map_of (encode_runtime rt) ''operation_started_at'' = map_option JTime (rt_OperationStartedAt rt)"
  "map_of (encode_runtime rt) ''last_admitted_attempt'' = (if rt_LastAdmittedAttempt rt = 0 then None else Some (JInt (rt_LastAdmittedAttempt rt)))"
  "map_of (encode_runtime rt) ''observation'' = map_option encode_observation (rt_Observation rt)"
  by (auto simp: encode_runtime_def map_of_append split: option.splits)

lemma merge_operation_lookup:
  "map_of (merge_operation ch fs) k =
     (if k \<in> set [''operation_key'', ''operation_started_at'', ''last_admitted_attempt''] then map_of ch k else map_of fs k)"
  by (auto simp: merge_operation_def split: option.splits)

lemma field_time_ptr_JTime [simp]: "field_time_ptr (map_option JTime x) = Some x"
  by (cases x) auto

lemma field_observation_encode [simp]: "field_observation (map_option encode_observation x) = Some x"
  by (cases x) (auto simp: encode_observation_def)

lemma decode_encode_runtime: "decode_runtime (Raw (JObj (encode_runtime rt))) = Some rt"
  by (cases rt) (auto simp: encode_runtime_lookup split: option.splits)

lemma decode_merge_operation:
  assumes "decode_runtime (Raw (JObj fs)) = Some rt"
  shows "decode_runtime (Raw (JObj (merge_operation (encode_runtime rt') fs)))
           = Some (rt'\<lparr>rt_Observation := rt_Observation rt\<rparr>)"
  using assms
  by (cases rt') (auto simp: merge_operation_lookup encode_runtime_lookup split: option.splits)

lemma terminal_not_active [simp]:
  "\<not> terminalTaskStatus TaskStatusPending" "\<not> terminalTaskStatus TaskStatusRunning"
  "terminalTaskStatus TaskStatusCompleted" "terminalTaskStatus TaskStatusFailed" "terminalTaskStatus TaskStatusCancelled"
  by (simp_all add: terminalTaskStatus_def)

end
