(* ===== verification/Task_Repo.thy ===== *)
theory Task_Repo
  imports Task_Model
begin

text \<open>
  The task repository: \<open>task_repo.go\<close> (claims, leases, checkpoints, wake-ups),
  \<open>task_settlement_repo.go\<close> (settlement, acknowledgement), \<open>task_round_repo.go\<close> (the operation
  fence around external effects) and the row operations of \<open>task_storage_repo.go\<close>.

  Every operation is an action of the database monad; a method that calls \<open>runMaybeTx\<close> takes
  the flag \<open>intx\<close>, which says whether its handle is already a transaction. \<open>locked\<close> lists the
  task ids other transactions hold row locks on, which \<open>SKIP LOCKED\<close> passes over. \<open>redact\<close>
  stands for \<open>errtext.Redact\<close>, whose rules depend on the configured secrets.
\<close>

section \<open>Statements\<close>

definition runMaybeTx :: "bool \<Rightarrow> ('d, 'a) DB \<Rightarrow> ('d, 'a) DB" where
  "runMaybeTx intx m = (if intx then m else WithTx m)"

text \<open>An update of the task table: the rows of \<open>P\<close> become their image under \<open>f\<close>, or the statement
  is refused because one of them would break a CHECK of the schema.\<close>

definition update_result :: "(Task \<Rightarrow> bool) \<Rightarrow> (Task \<Rightarrow> Task) \<Rightarrow> 'a \<Rightarrow> 'd tables \<Rightarrow> (db_fault + 'a) \<times> 'd tables" where
  "update_result P f x d =
     (if list_all (\<lambda>r. P r \<longrightarrow> chk_tasks (f r)) (tasks d)
      then (Inr x, d\<lparr>tasks := update_where P f (tasks d)\<rparr>) else (Inl CheckViolation, d))"

definition update_tasks :: "(Task \<Rightarrow> bool) \<Rightarrow> (Task \<Rightarrow> Task) \<Rightarrow> ('d, nat) DB" where
  "update_tasks P f = stmtE (\<lambda>d. update_result P f (rows_affected P (tasks d)) d)"

definition findTask :: "(Task \<Rightarrow> bool) \<Rightarrow> ('d, Task option) DB" where
  "findTask P = query (\<lambda>d. find P (tasks d))"

definition GetByID :: "int \<Rightarrow> ('d, Task option) DB" where
  "GetByID i = findTask (\<lambda>r. task_ID r = i)"

definition GetForUpdate :: "int \<Rightarrow> ('d, Task option) DB" where
  "GetForUpdate i = findTask (\<lambda>r. task_ID r = i)"

definition GetByIdentity :: "TaskType \<Rightarrow> string \<Rightarrow> string \<Rightarrow> int \<Rightarrow> ('d, Task option) DB" where
  "GetByIdentity ty st sk g = findTask (\<lambda>r. task_Type r = ty \<and> task_SubjectType r = st \<and>
     task_SubjectKey r = sk \<and> task_Generation r = Some g \<and> task_SupersededAt r = None)"

definition GetDirectSuccessor :: "int \<Rightarrow> ('d, Task option) DB" where
  "GetDirectSuccessor i = findTask (\<lambda>r. task_RetryOfTaskID r = Some i)"

text \<open>The claim fence in every guarded statement: the row is running, at this generation, and
  its lease has not expired.\<close>

definition live_claim :: "int \<Rightarrow> int \<Rightarrow> time \<Rightarrow> Task \<Rightarrow> bool" where
  "live_claim i g n r = (task_ID r = i \<and> task_Status r = TaskStatusRunning \<and> task_ClaimGeneration r = g \<and>
     (case task_LeaseUntil r of None \<Rightarrow> False | Some l \<Rightarrow> n < l))"

definition AppendEvent :: "int \<Rightarrow> string \<Rightarrow> raw \<Rightarrow> ('d, unit) DB" where
  "AppendEvent i ty details =
     (if i < 1 \<or> ty = '''' then fail ErrInvalidInput
      else let details = (if details = RawEmpty then Raw (JObj []) else details) in
        if \<not> jsonObject details then fail ErrInvalidInput
        else bindM now (\<lambda>n.
          catchM (stmtE (\<lambda>d. if \<exists>r \<in> set (tasks d). task_ID r = i
              then (Inr (), d\<lparr>task_events := task_events d @
                [\<lparr>event_TaskID = i, event_Type = ty, event_Details = details, event_CreatedAt = n\<rparr>]\<rparr>)
              else (Inl ForeignKeyViolation, d)))
          (\<lambda>e. fail (if e = ErrDb ForeignKeyViolation then ErrNotFound else e))))"

section \<open>Leases and checkpoints\<close>

definition MarkWorkStarted :: "int \<Rightarrow> int \<Rightarrow> time \<Rightarrow> ('d, unit) DB" where
  "MarkWorkStarted i g startedAt =
     (if startedAt = 0 then fail ErrInvalidInput
      else bindM now (\<lambda>n.
        bindM (update_tasks (live_claim i g n)
          (\<lambda>r. r\<lparr>task_WorkStartedAt := (case task_WorkStartedAt r of None \<Rightarrow> Some startedAt | Some s \<Rightarrow> Some s),
                 task_UpdatedAt := n\<rparr>))
        (\<lambda>rows. guardM (rows = 1) ErrTaskLeaseLost)))"

definition RenewLease :: "int \<Rightarrow> int \<Rightarrow> duration \<Rightarrow> ('d, time) DB" where
  "RenewLease i g leaseDuration =
     bindM now (\<lambda>n. let until = n + leaseDuration in
       bindM (update_tasks (live_claim i g n) (\<lambda>r. r\<lparr>task_LeaseUntil := Some until, task_UpdatedAt := n\<rparr>))
       (\<lambda>rows. if rows \<noteq> 1 then fail ErrTaskLeaseLost else ret until))"

definition WriteCheckpoint :: "int \<Rightarrow> int \<Rightarrow> raw \<Rightarrow> ('d, unit) DB" where
  "WriteCheckpoint i g checkpoint =
     (if \<not> jsonObject checkpoint then fail ErrInvalidInput
      else bindM now (\<lambda>n.
        bindM (update_tasks (live_claim i g n)
          (\<lambda>r. r\<lparr>task_Checkpoint := checkpoint, task_ResumeMode := TaskResumeModeRecover, task_UpdatedAt := n\<rparr>))
        (\<lambda>rows. guardM (rows = 1) ErrTaskLeaseLost)))"

definition ValidateClaim :: "int \<Rightarrow> int \<Rightarrow> ('d, unit) DB" where
  "ValidateClaim i g = bindM now (\<lambda>n. bindM (findTask (live_claim i g n))
     (\<lambda>found. guardM (found \<noteq> None) ErrTaskLeaseLost))"

definition ShortenLease :: "int \<Rightarrow> int \<Rightarrow> duration \<Rightarrow> ('d, unit) DB" where
  "ShortenLease i g dur =
     (if dur \<le> 0 then fail ErrInvalidInput
      else bindM now (\<lambda>n. let shortened = n + dur in
        bindM (update_tasks (live_claim i g n)
          (\<lambda>r. r\<lparr>task_ResumeMode := TaskResumeModeRecover,
                 task_LeaseUntil := (case task_LeaseUntil r of None \<Rightarrow> Some shortened
                    | Some l \<Rightarrow> Some (if l < shortened then l else shortened)),
                 task_UpdatedAt := n\<rparr>))
        (\<lambda>rows. guardM (rows = 1) ErrTaskLeaseLost)))"

section \<open>Claiming\<close>

record TaskClaimFilter =
  ExcludedTypes :: "TaskType list"
  ExcludedTaskIDs :: "int list"

text \<open>\<open>orderingColumn\<close>: a running task is ordered by its lease, a pending one by its
  availability. NULL compares as unknown, so a row without the time is never eligible.\<close>

definition ordering_time :: "TaskStatus \<Rightarrow> Task \<Rightarrow> time option" where
  "ordering_time st r = (if st = TaskStatusRunning then task_LeaseUntil r else Some (task_AvailableAt r))"

definition eligible :: "TaskStatus \<Rightarrow> time \<Rightarrow> Task \<Rightarrow> bool" where
  "eligible st n r = (task_Status r = st \<and> (case ordering_time st r of None \<Rightarrow> False | Some t \<Rightarrow> t \<le> n))"

definition claim_key :: "TaskStatus \<Rightarrow> Task \<Rightarrow> time \<times> int" where
  "claim_key st r = (case ordering_time st r of None \<Rightarrow> 0 | Some t \<Rightarrow> t, task_ID r)"

definition claim_update :: "TaskStatus \<Rightarrow> time \<Rightarrow> time \<Rightarrow> Task \<Rightarrow> Task" where
  "claim_update st leaseUntil n r = r\<lparr>task_Status := TaskStatusRunning,
     task_ResumeMode := (if st = TaskStatusRunning then TaskResumeModeRecover else task_ResumeMode r),
     task_ClaimGeneration := task_ClaimGeneration r + 1, task_LeaseUntil := Some leaseUntil,
     task_FinishedAt := None, task_WaitReason := None, task_StatusMessage := None, task_UpdatedAt := n\<rparr>"

definition claimTaskWithSQL :: "TaskStatus \<Rightarrow> time \<Rightarrow> time \<Rightarrow> TaskClaimFilter \<Rightarrow> int list \<Rightarrow> ('d, Task option) DB" where
  "claimTaskWithSQL st n leaseUntil flt locked =
     stmtE (\<lambda>d. case min_row (claim_key st)
                  (filter (\<lambda>r. eligible st n r \<and> task_Type r \<notin> set (ExcludedTypes flt) \<and>
                     task_ID r \<notin> set (ExcludedTaskIDs flt) \<and> task_ID r \<notin> set locked) (tasks d)) of
         None \<Rightarrow> (Inr None, d)
       | Some r \<Rightarrow> update_result (\<lambda>x. task_ID x = task_ID r \<and> eligible st n x) (claim_update st leaseUntil n)
           (Some (claim_update st leaseUntil n r)) d)"

definition claimNextTask :: "duration \<Rightarrow> TaskClaimFilter \<Rightarrow> int list \<Rightarrow> ('d, Task option) DB" where
  "claimNextTask leaseDuration flt locked =
     bindM now (\<lambda>n. let leaseUntil = n + leaseDuration in
       bindM (claimTaskWithSQL TaskStatusRunning n leaseUntil flt locked)
       (\<lambda>t. case t of Some r \<Rightarrow> ret (Some r) | None \<Rightarrow> claimTaskWithSQL TaskStatusPending n leaseUntil flt locked))"

text \<open>The recursive query of \<open>filteredTaskCandidatePostgresSQL\<close>: the distinct types of a status
  are found by skipping from one to the next larger one, each allowed type contributes its first
  eligible row, and the least of those is the candidate.\<close>

function skip_scan :: "TaskType list \<Rightarrow> TaskType list" where
  "skip_scan ts = (case min_row (\<lambda>t. t) ts of None \<Rightarrow> [] | Some t \<Rightarrow> t # skip_scan (filter (\<lambda>x. t < x) ts))"
  by pat_completeness auto

lemma min_row_mem: "min_row k rs = Some r \<Longrightarrow> r \<in> set rs"
  by (induction rs arbitrary: r) (auto split: option.splits if_splits)

termination skip_scan
proof (relation "measure length", goal_cases)
  case (2 ts t)
  then have "t \<in> set ts" by (rule min_row_mem)
  then have "length (filter (\<lambda>x. t < x) ts) < length ts"
    by (intro length_filter_less [of t]) auto
  then show ?case by simp
qed auto

declare skip_scan.simps [simp del]

definition filteredTaskCandidate :: "TaskStatus \<Rightarrow> TaskType list \<Rightarrow> int list \<Rightarrow> time \<Rightarrow> Task list \<Rightarrow> Task option" where
  "filteredTaskCandidate st excludedTypes excludedIDs selectionNow rows =
     (let task_types = skip_scan (map task_Type (filter (\<lambda>r. task_Status r = st) rows));
          allowed_types = filter (\<lambda>t. t \<notin> set excludedTypes) task_types;
          heads = List.map_filter (\<lambda>t. min_row (claim_key st)
             (filter (\<lambda>r. eligible st selectionNow r \<and> task_Type r = t \<and> task_ID r \<notin> set excludedIDs) rows)) allowed_types
      in min_row (claim_key st) heads)"

definition claimTaskCandidate :: "TaskStatus \<Rightarrow> Task \<Rightarrow> time \<Rightarrow> time \<Rightarrow> time \<Rightarrow> int list \<Rightarrow> ('d, Task option) DB" where
  "claimTaskCandidate st c leaseUntil claimNow selectionNow locked =
     stmtE (\<lambda>d. let P = (\<lambda>r. task_ID r = task_ID c \<and> task_Type r = task_Type c \<and>
                    task_ClaimGeneration r = task_ClaimGeneration c \<and>
                    ordering_time st r = ordering_time st c \<and> eligible st selectionNow r \<and> task_ID r \<notin> set locked)
       in update_result P (claim_update st leaseUntil claimNow)
            (map_option (claim_update st leaseUntil claimNow) (find P (tasks d))) d)"

fun claimFilteredTask_loop ::
  "nat \<Rightarrow> duration \<Rightarrow> TaskType list \<Rightarrow> int list \<Rightarrow> int list \<Rightarrow> time \<Rightarrow> TaskStatus \<Rightarrow> ('d, Task option) DB" where
  "claimFilteredTask_loop 0 leaseDuration excludedTypes excludedIDs locked selectionNow st = fail (ErrText ''fuel'')"
| "claimFilteredTask_loop (Suc k) leaseDuration excludedTypes excludedIDs locked selectionNow st =
     bindM ctx_done (\<lambda>c. if c then fail ErrContext else
     bindM (query (\<lambda>d. filteredTaskCandidate st excludedTypes excludedIDs selectionNow (tasks d))) (\<lambda>cand.
       case cand of None \<Rightarrow> ret None
       | Some cd \<Rightarrow> bindM now (\<lambda>claimNow.
           bindM (claimTaskCandidate st cd (claimNow + leaseDuration) claimNow selectionNow locked) (\<lambda>t.
             case t of Some r \<Rightarrow> ret (Some r)
             | None \<Rightarrow> claimFilteredTask_loop k leaseDuration excludedTypes (excludedIDs @ [task_ID cd]) locked selectionNow st))))"

text \<open>Each pass that does not return excludes one more row, so one pass per row and a last one
  are enough (shown below).\<close>

definition claimFilteredTask :: "duration \<Rightarrow> TaskClaimFilter \<Rightarrow> int list \<Rightarrow> time \<Rightarrow> TaskStatus \<Rightarrow> ('d, Task option) DB" where
  "claimFilteredTask leaseDuration flt locked selectionNow st =
     (\<lambda>w. claimFilteredTask_loop (Suc (length (tasks (db w)))) leaseDuration (ExcludedTypes flt)
            (ExcludedTaskIDs flt) locked selectionNow st w)"

definition claimNextPostgres :: "duration \<Rightarrow> TaskClaimFilter \<Rightarrow> int list \<Rightarrow> ('d, Task option) DB" where
  "claimNextPostgres leaseDuration flt locked =
     (if ExcludedTypes flt \<noteq> [] then
        bindM now (\<lambda>selectionNow.
          bindM (claimFilteredTask leaseDuration flt locked selectionNow TaskStatusRunning) (\<lambda>t.
            case t of Some r \<Rightarrow> ret (Some r)
            | None \<Rightarrow> claimFilteredTask leaseDuration flt locked selectionNow TaskStatusPending))
      else claimNextTask leaseDuration flt locked)"

definition ClaimNext :: "bool \<Rightarrow> duration \<Rightarrow> TaskClaimFilter \<Rightarrow> int list \<Rightarrow> ('d, Task option) DB" where
  "ClaimNext intx leaseDuration flt locked =
     (if leaseDuration \<le> 0 then fail ErrInvalidInput
      else if intx then claimNextPostgres leaseDuration flt locked
      else transact (claimNextPostgres leaseDuration flt locked))"

section \<open>Waking\<close>

definition waiting_until_later :: "int list \<Rightarrow> time \<Rightarrow> Task \<Rightarrow> bool" where
  "waiting_until_later ids n r = (task_ID r \<in> set ids \<and> task_Status r = TaskStatusPending \<and>
     task_WaitReason r \<noteq> None \<and> n < task_AvailableAt r)"

definition WakePending :: "int list \<Rightarrow> ('d, nat) DB" where
  "WakePending ids =
     (if ids = [] then ret 0
      else if \<exists>i \<in> set ids. i < 1 then fail ErrInvalidInput
      else bindM now (\<lambda>n. update_tasks (waiting_until_later ids n) (\<lambda>r. r\<lparr>task_AvailableAt := n, task_UpdatedAt := n\<rparr>)))"

definition WakePendingOfTypes :: "int list \<Rightarrow> TaskType list \<Rightarrow> string list \<Rightarrow> ('d, nat) DB" where
  "WakePendingOfTypes ids types skipWaitReasons =
     (if types = [] then fail ErrInvalidInput
      else if '''' \<in> set types then fail ErrInvalidInput
      else if \<exists>i \<in> set ids. i < 1 then fail ErrInvalidInput
      else if ids = [] then ret 0
      else bindM now (\<lambda>n. update_tasks
        (\<lambda>r. waiting_until_later ids n r \<and> task_Type r \<in> set types \<and>
             (skipWaitReasons \<noteq> [] \<longrightarrow>
               (\<forall>s \<in> set_option (task_WaitReason r). s \<notin> set skipWaitReasons) \<and>
               (\<forall>s \<in> set_option (task_FailureReason r). s \<notin> set skipWaitReasons)))
        (\<lambda>r. r\<lparr>task_AvailableAt := n, task_UpdatedAt := n\<rparr>)))"

section \<open>Settlement\<close>

record TaskObservationPatch =
  patch_State :: "TaskObservation option"

record TaskTransition =
  tr_Observation :: "TaskObservationPatch option"
  tr_WorkStartedAt :: "time option"
  tr_ClearWorkStartedAt :: bool
  tr_Status :: TaskStatus
  tr_ResumeMode :: TaskResumeMode
  tr_AvailableAt :: time
  tr_WaitReason :: "string option"
  tr_FailureReason :: "string option"
  tr_LastError :: "string option"
  tr_StatusMessage :: "string option"
  tr_IncrementRetry :: bool

definition known_mode :: "TaskResumeMode \<Rightarrow> bool" where
  "known_mode m = (m = TaskResumeModeExecute \<or> m = TaskResumeModeRecover)"

definition validTaskTransition :: "TaskTransition \<Rightarrow> bool" where
  "validTaskTransition tr =
     (if (case tr_Observation tr of None \<Rightarrow> False
            | Some p \<Rightarrow> (case patch_State p of None \<Rightarrow> False
                | Some ob \<Rightarrow> TrimSpace (obs_Key ob) = '''' \<or> obs_StartedAt ob = 0)) then False
      else (case tr_Status tr of
          TaskStatusPending \<Rightarrow> tr_AvailableAt tr \<noteq> 0 \<and> known_mode (tr_ResumeMode tr)
        | TaskStatusCompleted \<Rightarrow> known_mode (tr_ResumeMode tr)
        | TaskStatusFailed \<Rightarrow> known_mode (tr_ResumeMode tr)
        | TaskStatusCancelled \<Rightarrow> known_mode (tr_ResumeMode tr)
        | _ \<Rightarrow> False))"

definition patch_runtime :: "TaskObservationPatch \<Rightarrow> raw \<Rightarrow> raw option" where
  "patch_runtime p rt = (case rt of
      Raw (JObj fs) \<Rightarrow> Some (Raw (JObj (case patch_State p of
          None \<Rightarrow> del_field ''observation'' fs
        | Some ob \<Rightarrow> set_field ''observation'' (encode_observation ob) fs)))
    | _ \<Rightarrow> None)"

definition settled_runtime :: "TaskTransition \<Rightarrow> Task \<Rightarrow> raw option" where
  "settled_runtime tr r = (case tr_Observation tr of None \<Rightarrow> Some (task_Runtime r) | Some p \<Rightarrow> patch_runtime p (task_Runtime r))"

definition settled_row :: "(string \<Rightarrow> string) \<Rightarrow> time \<Rightarrow> TaskTransition \<Rightarrow> raw \<Rightarrow> Task \<Rightarrow> Task" where
  "settled_row redact n tr runtime r = r\<lparr>
     task_Status := tr_Status tr, task_WaitReason := tr_WaitReason tr, task_FailureReason := tr_FailureReason tr,
     task_LastError := map_option redact (tr_LastError tr), task_StatusMessage := map_option redact (tr_StatusMessage tr),
     task_UpdatedAt := n, task_LeaseUntil := None,
     task_WorkStartedAt := (if tr_ClearWorkStartedAt tr then None
        else if task_WorkStartedAt r = None then tr_WorkStartedAt tr else task_WorkStartedAt r),
     task_RetryCount := (if tr_IncrementRetry tr then task_RetryCount r + 1 else task_RetryCount r),
     task_ResumeMode := tr_ResumeMode tr,
     task_AvailableAt := (if tr_Status tr = TaskStatusPending then tr_AvailableAt tr else task_AvailableAt r),
     task_FinishedAt := (if tr_Status tr = TaskStatusPending then None else Some n),
     task_Runtime := runtime\<rparr>"

definition status_string :: "TaskStatus \<Rightarrow> string" where
  "status_string s = (case s of TaskStatusPending \<Rightarrow> ''pending'' | TaskStatusRunning \<Rightarrow> ''running''
     | TaskStatusCompleted \<Rightarrow> ''completed'' | TaskStatusFailed \<Rightarrow> ''failed''
     | TaskStatusCancelled \<Rightarrow> ''cancelled'' | TaskStatusOther s \<Rightarrow> s)"

definition settle_event :: "(string \<Rightarrow> string) \<Rightarrow> TaskTransition \<Rightarrow> Task \<Rightarrow> (string \<times> raw) option" where
  "settle_event redact tr row =
     (let eventType = (if tr_IncrementRetry tr then ''retry_scheduled''
            else if tr_Status tr \<noteq> TaskStatusPending then status_string (tr_Status tr) else '''')
      in if eventType = '''' then None
         else Some (eventType, Raw (JObj (
           [(''attempt'', JInt (task_RetryCount row + 1))] @
           (case tr_LastError tr of None \<Rightarrow> [] | Some e \<Rightarrow> [(''error'', JStr (redact e))]) @
           [(''failure_reason'', (case tr_FailureReason tr of None \<Rightarrow> JNull | Some s \<Rightarrow> JStr s))]))))"

definition Settle_body :: "(string \<Rightarrow> string) \<Rightarrow> int \<Rightarrow> int \<Rightarrow> TaskTransition \<Rightarrow> ('d, unit) DB" where
  "Settle_body redact i g tr =
     bindM (GetForUpdate i) (\<lambda>row. bindM now (\<lambda>n.
       case row of None \<Rightarrow> fail ErrTaskLeaseLost
       | Some r \<Rightarrow>
         if \<not> live_claim i g n r then fail ErrTaskLeaseLost
         else (case settled_runtime tr r of
             None \<Rightarrow> fail ErrInvalidInput
           | Some runtime \<Rightarrow>
             let r' = settled_row redact n tr runtime r in
             bindM (update_tasks (live_claim i g n) (settled_row redact n tr runtime)) (\<lambda>rows.
               if rows \<noteq> 1 then fail ErrTaskLeaseLost
               else (case settle_event redact tr r' of None \<Rightarrow> ret ()
                  | Some (ty, details) \<Rightarrow> AppendEvent i ty details)))))"

definition Settle :: "(string \<Rightarrow> string) \<Rightarrow> bool \<Rightarrow> int \<Rightarrow> int \<Rightarrow> TaskTransition \<Rightarrow> ('d, unit) DB" where
  "Settle redact intx i g tr =
     (if \<not> validTaskTransition tr then fail ErrInvalidInput else runMaybeTx intx (Settle_body redact i g tr))"

section \<open>Acknowledgement\<close>

definition AcknowledgeFailed :: "bool \<Rightarrow> int \<Rightarrow> ('d, unit) DB" where
  "AcknowledgeFailed intx i = runMaybeTx intx (
     bindM (GetForUpdate i) (\<lambda>row.
       case row of None \<Rightarrow> fail ErrNotFound
       | Some r \<Rightarrow>
         if task_Status r \<noteq> TaskStatusFailed then fail ErrNotFound
         else bindM (query (\<lambda>d. i \<in> set (review_holds d))) (\<lambda>held.
           if held then fail ErrConflict
           else bindM (query (\<lambda>d. i \<in> set (removal_holds d))) (\<lambda>held.
             if held then fail ErrConflict
             else if task_AcknowledgedAt r \<noteq> None then ret ()
             else bindM now (\<lambda>n.
               bindM (update_tasks (\<lambda>r. task_ID r = i) (\<lambda>r. r\<lparr>task_AcknowledgedAt := Some n, task_UpdatedAt := n\<rparr>))
               (\<lambda>_. AppendEvent i ''acknowledged'' RawEmpty))))))"

definition live_task :: "Task \<Rightarrow> bool" where
  "live_task r = ((task_Status r = TaskStatusPending \<or> task_Status r = TaskStatusRunning \<or> task_Status r = TaskStatusFailed) \<and>
     task_AcknowledgedAt r = None \<and> task_SupersededAt r = None)"

definition acknowledgeQuery :: "('d tables \<Rightarrow> Task \<Rightarrow> bool) \<Rightarrow> ('d, nat) DB" where
  "acknowledgeQuery sel = bindM now (\<lambda>n. stmtE (\<lambda>d.
     let P = (\<lambda>r. live_task r \<and> sel d r);
         events = map (\<lambda>r. \<lparr>event_TaskID = task_ID r, event_Type = ''acknowledged'',
           event_Details = Raw (JObj []), event_CreatedAt = n\<rparr>) (filter P (tasks d))
     in apsnd (\<lambda>d'. d'\<lparr>task_events := task_events d' @ events\<rparr>)
          (update_result P (\<lambda>r. r\<lparr>task_AcknowledgedAt := Some n, task_UpdatedAt := n\<rparr>) (rows_affected P (tasks d)) d)))"

definition unheld :: "'d tables \<Rightarrow> Task \<Rightarrow> bool" where
  "unheld d r = (task_ID r \<notin> set (review_holds d) \<and> task_ID r \<notin> set (removal_holds d))"

definition AcknowledgeFailedForSubject :: "string \<Rightarrow> string \<Rightarrow> ('d, nat) DB" where
  "AcknowledgeFailedForSubject subjectType subjectKey =
     (if subjectType = '''' \<or> subjectKey = '''' then fail ErrInvalidInput
      else acknowledgeQuery (\<lambda>d r. task_Status r = TaskStatusFailed \<and> task_SubjectType r = subjectType \<and>
             task_SubjectKey r = subjectKey \<and> unheld d r))"

record TaskAcknowledgeFilter =
  ack_Type :: TaskType
  ack_FailedBefore :: time

definition acknowledgeFailedMatching :: "TaskAcknowledgeFilter \<Rightarrow> 'd tables \<Rightarrow> Task \<Rightarrow> bool" where
  "acknowledgeFailedMatching flt d r = (task_Status r = TaskStatusFailed \<and>
     (case task_FinishedAt r of None \<Rightarrow> False | Some f \<Rightarrow> f \<le> ack_FailedBefore flt) \<and>
     unheld d r \<and> (ack_Type flt \<noteq> '''' \<longrightarrow> task_Type r = ack_Type flt))"

definition AcknowledgeFailedMatching :: "TaskAcknowledgeFilter \<Rightarrow> ('d, nat) DB" where
  "AcknowledgeFailedMatching flt =
     (if ack_FailedBefore flt = 0 then fail ErrInvalidInput else acknowledgeQuery (acknowledgeFailedMatching flt))"

definition CountFailedMatching :: "TaskAcknowledgeFilter \<Rightarrow> ('d, nat) DB" where
  "CountFailedMatching flt =
     (if ack_FailedBefore flt = 0 then fail ErrInvalidInput
      else query (\<lambda>d. rows_affected (\<lambda>r. live_task r \<and> acknowledgeFailedMatching flt d r) (tasks d)))"

section \<open>The operation fence\<close>

definition updateOperation ::
  "bool \<Rightarrow> int \<Rightarrow> int \<Rightarrow> (Task \<Rightarrow> TaskRuntime \<Rightarrow> ('d, TaskRuntime \<times> 'a) DB) \<Rightarrow> ('d, 'a) DB" where
  "updateOperation intx i g fn = runMaybeTx intx (
     bindM (ValidateClaim i g) (\<lambda>_.
     bindM (GetByID i) (\<lambda>row. case row of None \<Rightarrow> fail ErrTaskLeaseLost
     | Some r \<Rightarrow> (case decode_runtime (task_Runtime r) of None \<Rightarrow> fail (ErrText ''decoding task runtime'')
       | Some rt \<Rightarrow> bindM (fn r rt) (\<lambda>(rt', x).
           case task_Runtime r of
             Raw (JObj fs) \<Rightarrow> bindM now (\<lambda>n.
               bindM (update_tasks (live_claim i g n)
                 (\<lambda>q. q\<lparr>task_Runtime := Raw (JObj (merge_operation (encode_runtime rt') fs))\<rparr>))
               (\<lambda>rows. if rows \<noteq> 1 then fail ErrNotFound else ret x))
           | _ \<Rightarrow> fail ErrInvalidInput)))))"

definition ObserveOperation :: "bool \<Rightarrow> int \<Rightarrow> int \<Rightarrow> string \<Rightarrow> ('d, time) DB" where
  "ObserveOperation intx i g key =
     (if key = '''' then fail ErrInvalidInput
      else updateOperation intx i g (\<lambda>row rt.
        if rt_OperationKey rt \<noteq> '''' \<and> rt_OperationKey rt \<noteq> key then fail ErrTaskOperationUnresolved
        else bindM (if rt_OperationKey rt = '''' then bindM now (\<lambda>n. ret (rt\<lparr>rt_OperationKey := key,
                 rt_OperationStartedAt := Some n, rt_LastAdmittedAttempt := 0\<rparr>)) else ret rt) (\<lambda>rt'.
          case rt_OperationStartedAt rt' of None \<Rightarrow> fail ErrInvalidInput
          | Some started \<Rightarrow> bindM now (\<lambda>n. bindM (MarkWorkStarted i g n) (\<lambda>_. ret (rt', started))))))"

definition AdmitEffect :: "bool \<Rightarrow> int \<Rightarrow> int \<Rightarrow> string \<Rightarrow> raw \<Rightarrow> ('d, unit) DB" where
  "AdmitEffect intx i g key checkpoint =
     (if key = '''' \<or> checkpoint = RawEmpty then fail ErrInvalidInput
      else updateOperation intx i g (\<lambda>row rt.
        if rt_OperationKey rt \<noteq> '''' \<and> rt_OperationKey rt \<noteq> key then fail ErrTaskOperationUnresolved
        else bindM (if rt_OperationKey rt = '''' then bindM now (\<lambda>n. ret (rt\<lparr>rt_OperationKey := key,
                 rt_OperationStartedAt := Some n\<rparr>)) else ret rt) (\<lambda>rt1.
          if task_RetryCount row + 1 \<le> rt_LastAdmittedAttempt rt1 then fail ErrTaskEffectAlreadyAdmitted
          else let rt2 = rt1\<lparr>rt_LastAdmittedAttempt := task_RetryCount row + 1\<rparr> in
            bindM (WriteCheckpoint i g checkpoint) (\<lambda>_.
            bindM now (\<lambda>n. bindM (MarkWorkStarted i g n) (\<lambda>_.
            bindM (AppendEvent i ''effect_admitted'' (Raw (JObj [(''attempt'', JInt (task_RetryCount row + 1))]))) (\<lambda>_.
              ret (rt2, ()))))))))"

definition ResolveOperation :: "bool \<Rightarrow> int \<Rightarrow> int \<Rightarrow> string \<Rightarrow> ('d, unit) DB" where
  "ResolveOperation intx i g key = updateOperation intx i g (\<lambda>_ rt.
     if rt_OperationKey rt \<noteq> key then fail ErrConflict
     else ret (rt\<lparr>rt_OperationKey := '''', rt_OperationStartedAt := None, rt_LastAdmittedAttempt := 0\<rparr>, ()))"

section \<open>Rounds: enqueue and supersede\<close>

definition SupersedeTerminal :: "int \<Rightarrow> ('d, unit) DB" where
  "SupersedeTerminal i = bindM now (\<lambda>n.
     bindM (update_tasks (\<lambda>r. task_ID r = i \<and> task_SupersededAt r = None \<and> terminalTaskStatus (task_Status r))
       (\<lambda>r. r\<lparr>task_SupersededAt := Some n, task_UpdatedAt := n\<rparr>))
     (\<lambda>rows. guardM (rows = 1) ErrConflict))"

text \<open>The insert of a prepared row: the audit columns are stamped (\<open>BeforeAppendModel\<close>), the
  identity column takes the next sequence value whether or not the row is kept, a live round of
  the same identity makes it a no-op (\<open>ON CONFLICT DO NOTHING\<close>), and a row that breaks another
  constraint is refused.\<close>

definition stamp_task :: "time \<Rightarrow> int \<Rightarrow> Task \<Rightarrow> Task" where
  "stamp_task n i row = row\<lparr>task_ID := i,
     task_CreatedAt := (if task_CreatedAt row = 0 then n else task_CreatedAt row),
     task_UpdatedAt := (if task_UpdatedAt row = 0 then n else task_UpdatedAt row)\<rparr>"

definition insert_row :: "Task \<Rightarrow> 'd tables \<Rightarrow> (db_fault + Task option) \<times> 'd tables" where
  "insert_row r d =
     (if \<exists>q \<in> set (tasks d). same_identity q r \<and> live_round q \<and> live_round r then (Inr None, d)
      else if \<exists>q \<in> set (tasks d). task_RetryOfTaskID r \<noteq> None \<and> task_RetryOfTaskID q = task_RetryOfTaskID r
        then (Inl UniqueViolation, d)
      else if \<exists>p \<in> set_option (task_RetryOfTaskID r). \<forall>q \<in> set (tasks d). task_ID q \<noteq> p
        then (Inl ForeignKeyViolation, d)
      else if \<not> chk_tasks r then (Inl CheckViolation, d)
      else (Inr (Some r), d\<lparr>tasks := tasks d @ [r]\<rparr>))"

definition insert_task :: "Task \<Rightarrow> ('d, Task option) DB" where
  "insert_task row = bindM now (\<lambda>n. bindM next_seq (\<lambda>i. stmtE (insert_row (stamp_task n i row))))"

definition Enqueue_tx :: "Task \<Rightarrow> ('d, Task option \<times> bool) DB" where
  "Enqueue_tx row =
     bindM (case task_Generation row of None \<Rightarrow> ret None
        | Some g \<Rightarrow> GetByIdentity (task_Type row) (task_SubjectType row) (task_SubjectKey row) g) (\<lambda>existing.
     case existing of Some e \<Rightarrow> ret (Some e, False)
     | None \<Rightarrow>
       bindM (case task_RetryOfTaskID row of None \<Rightarrow> ret ()
          | Some p \<Rightarrow> bindM (GetForUpdate p) (\<lambda>parent. case parent of None \<Rightarrow> fail ErrConflict
              | Some pr \<Rightarrow> if task_SupersededAt pr = None \<or> \<not> terminalTaskStatus (task_Status pr) then fail ErrConflict
                else bindM (GetDirectSuccessor (task_ID pr)) (\<lambda>child. guardM (child = None) ErrConflict))) (\<lambda>_.
       bindM (insert_task row) (\<lambda>ins. case ins of
           None \<Rightarrow> (case task_Generation row of None \<Rightarrow> fail (ErrText ''nil pointer dereference'')
             | Some g \<Rightarrow> bindM (GetByIdentity (task_Type row) (task_SubjectType row) (task_SubjectKey row) g) (\<lambda>stored.
                 case stored of None \<Rightarrow> fail ErrTaskIdentityContended | Some s \<Rightarrow> ret (Some s, False)))
         | Some r \<Rightarrow>
           if (case task_RetryOfTaskID r of None \<Rightarrow> False | Some p \<Rightarrow> task_ID r \<le> p) then fail ErrConflict
           else bindM (AppendEvent (task_ID r) ''created'' (Raw (JObj []))) (\<lambda>_. ret (Some r, True)))))"

definition Enqueue :: "bool \<Rightarrow> Task option \<Rightarrow> ('d, Task option \<times> bool) DB" where
  "Enqueue intx task = (case task of None \<Rightarrow> fail ErrInvalidInput
   | Some t \<Rightarrow>
     if task_Type t = '''' \<or> task_SubjectType t = '''' \<or> task_SubjectKey t = '''' \<or>
        (case task_Generation t of None \<Rightarrow> False | Some g \<Rightarrow> g < 0) \<or> task_InputVersion t < 1 \<or>
        \<not> jsonObject (task_Input t) \<or> task_RetryCount t < 0 then fail ErrInvalidInput
     else let p1 = t\<lparr>task_ID := 0, task_Status := (if task_Status t = TaskStatusOther '''' then TaskStatusPending else task_Status t)\<rparr> in
       if task_Status p1 \<noteq> TaskStatusPending \<or> task_SupersededAt p1 \<noteq> None \<or> task_AcknowledgedAt p1 \<noteq> None then fail ErrInvalidInput
       else let p2 = p1\<lparr>task_ResumeMode := (if task_ResumeMode p1 = TaskResumeModeOther '''' then TaskResumeModeExecute else task_ResumeMode p1)\<rparr> in
         bindM (if task_AvailableAt p2 = 0 then bindM now (\<lambda>n. ret (p2\<lparr>task_AvailableAt := n\<rparr>)) else ret p2) (\<lambda>p3.
         let p4 = p3\<lparr>task_Runtime := (if task_Runtime p3 = RawEmpty then Raw (JObj []) else task_Runtime p3)\<rparr> in
         if \<not> jsonObject (task_Runtime p4) \<or> (task_Checkpoint p4 \<noteq> RawEmpty \<and> \<not> jsonObject (task_Checkpoint p4)) then fail ErrInvalidInput
         else runMaybeTx intx (Enqueue_tx p4)))"

end
