(* ===== verification/Task_Invariants.thy ===== *)
theory Task_Invariants
  imports Task_Repo
begin

text \<open>
  What every operation of the task repository keeps. \<open>wf_world\<close> is the well-formedness of the task
  tables (the constraints of the schema and the identity sequence), \<open>row_step\<close> how a row may
  evolve, and \<open>world_step\<close> combines them into one relation kept by every operation, whatever
  its outcome. A run of the system is any sequence of operations in any environment, and the
  theorems about runs follow from \<open>world_step\<close> alone.
\<close>

section \<open>Well-formed tables and the evolution of rows\<close>

definition tables_ok :: "'d tables \<Rightarrow> bool" where
  "tables_ok d = (list_all chk_tasks (tasks d) \<and> distinct (map task_ID (tasks d)) \<and>
     list_all (\<lambda>r. 1 \<le> task_ID r) (tasks d) \<and>
     (\<forall>r \<in> set (tasks d). \<forall>q \<in> set (tasks d). same_identity r q \<and> live_round r \<and> live_round q \<longrightarrow> task_ID r = task_ID q) \<and>
     (\<forall>r \<in> set (tasks d). \<forall>q \<in> set (tasks d). task_RetryOfTaskID r \<noteq> None \<and> task_RetryOfTaskID r = task_RetryOfTaskID q \<longrightarrow> task_ID r = task_ID q) \<and>
     (\<forall>r \<in> set (tasks d). \<forall>p \<in> set_option (task_RetryOfTaskID r). p \<in> task_ID ` set (tasks d)) \<and>
     (\<forall>e \<in> set (task_events d). event_TaskID e \<in> task_ID ` set (tasks d)))"

definition wf_world :: "'d tables world \<Rightarrow> bool" where
  "wf_world w = (tables_ok (db w) \<and> list_all (\<lambda>r. task_ID r < seq w) (tasks (db w)) \<and> 1 \<le> seq w)"

definition same_columns :: "Task \<Rightarrow> Task \<Rightarrow> bool" where
  "same_columns r r' = (task_ID r' = task_ID r \<and> task_Type r' = task_Type r \<and> task_InputVersion r' = task_InputVersion r \<and>
     task_SubjectType r' = task_SubjectType r \<and> task_SubjectKey r' = task_SubjectKey r \<and>
     task_Generation r' = task_Generation r \<and> task_RetryOfTaskID r' = task_RetryOfTaskID r \<and>
     task_Input r' = task_Input r \<and> task_CreatedAt r' = task_CreatedAt r)"

definition same_outcome :: "Task \<Rightarrow> Task \<Rightarrow> bool" where
  "same_outcome r r' = (task_Status r' = task_Status r \<and> task_ClaimGeneration r' = task_ClaimGeneration r \<and>
     task_FinishedAt r' = task_FinishedAt r \<and> task_FailureReason r' = task_FailureReason r \<and>
     task_LastError r' = task_LastError r \<and> task_Checkpoint r' = task_Checkpoint r \<and>
     task_Runtime r' = task_Runtime r \<and> task_RetryCount r' = task_RetryCount r)"

definition row_step :: "Task \<Rightarrow> Task \<Rightarrow> bool" where
  "row_step r r' = (same_columns r r' \<and> task_ClaimGeneration r \<le> task_ClaimGeneration r' \<and>
     task_RetryCount r \<le> task_RetryCount r' \<and>
     (task_Status r \<noteq> TaskStatusRunning \<and> task_ClaimGeneration r' = task_ClaimGeneration r \<longrightarrow> task_Status r' \<noteq> TaskStatusRunning) \<and>
     (terminalTaskStatus (task_Status r) \<longrightarrow> same_outcome r r') \<and>
     (task_SupersededAt r \<noteq> None \<longrightarrow> task_SupersededAt r' = task_SupersededAt r) \<and>
     (task_AcknowledgedAt r \<noteq> None \<longrightarrow> task_AcknowledgedAt r' \<noteq> None))"

definition tables_step :: "'d tables \<Rightarrow> 'd tables \<Rightarrow> bool" where
  "tables_step d d' = (list_all2 row_step (tasks d) (take (length (tasks d)) (tasks d')) \<and>
     take (length (task_events d)) (task_events d') = task_events d)"

definition world_step :: "'d tables world \<Rightarrow> 'd tables world \<Rightarrow> bool" where
  "world_step w w' = (clock w \<le> clock w' \<and> seq w \<le> seq w' \<and>
     (wf_world w \<longrightarrow> wf_world w' \<and> tables_step (db w) (db w')))"

lemma row_step_refl [simp]: "row_step r r"
  by (simp add: row_step_def same_columns_def same_outcome_def)

lemma row_step_trans: "row_step a b \<Longrightarrow> row_step b c \<Longrightarrow> row_step a c"
  unfolding row_step_def same_columns_def same_outcome_def
  by (elim conjE, intro conjI) (force | simp)+

lemma row_step_id: "row_step r r' \<Longrightarrow> task_ID r' = task_ID r"
  by (simp add: row_step_def same_columns_def)

lemma row_step_identity:
  "row_step r r' \<Longrightarrow> row_step q q' \<Longrightarrow> same_identity r' q' = same_identity r q"
  by (simp add: row_step_def same_columns_def same_identity_def)

lemma row_step_retry: "row_step r r' \<Longrightarrow> task_RetryOfTaskID r' = task_RetryOfTaskID r"
  by (simp add: row_step_def same_columns_def)

lemma row_step_live: "row_step r r' \<Longrightarrow> live_round r' \<Longrightarrow> live_round r"
  by (auto simp: row_step_def live_round_def)

lemma row_steps_ids: "list_all2 row_step rs rs' \<Longrightarrow> map task_ID rs' = map task_ID rs"
  by (induction rule: list_all2_induct) (auto simp: row_step_id)

lemma tables_step_refl [simp]: "tables_step d d"
  by (simp add: tables_step_def list_all2_refl)

lemma tables_step_trans:
  assumes "tables_step a b" "tables_step b c"
  shows "tables_step a c"
proof -
  let ?n = "length (tasks a)" and ?m = "length (tasks b)"
  have ab: "list_all2 row_step (tasks a) (take ?n (tasks b))"
    and bc: "list_all2 row_step (tasks b) (take ?m (tasks c))"
    using assms by (auto simp: tables_step_def)
  have le: "?n \<le> ?m" using list_all2_lengthD [OF ab] by simp
  have "list_all2 row_step (take ?n (tasks b)) (take ?n (tasks c))"
    using list_all2_takeI [OF bc, of ?n] le by (simp add: min_absorb1)
  then have "list_all2 row_step (tasks a) (take ?n (tasks c))"
    using ab list_all2_trans [of row_step row_step row_step] row_step_trans by blast
  moreover have "take (length (task_events a)) (task_events c) = task_events a"
  proof -
    have "take (length (task_events a)) (task_events b) = task_events a"
      and "take (length (task_events b)) (task_events c) = task_events b"
      using assms by (auto simp: tables_step_def)
    then show ?thesis by (metis min.absorb1 nat_le_linear take_all take_take)
  qed
  ultimately show ?thesis by (simp add: tables_step_def)
qed

interpretation ws: kept_relation world_step
proof
  fix u v w :: "'a tables world"
  show "world_step u v \<Longrightarrow> world_step v w \<Longrightarrow> world_step u w"
    using tables_step_trans by (fastforce simp: world_step_def)
  show "db v = db w \<Longrightarrow> seq w \<le> seq v \<Longrightarrow> clock w \<le> clock v \<Longrightarrow> world_step w v"
    by (auto simp: world_step_def wf_world_def list_all_iff)
  show "world_step w v \<Longrightarrow> world_step w (v\<lparr>db := db w\<rparr>)"
    by (auto simp: world_step_def wf_world_def list_all_iff)
qed

lemma tables_okD:
  assumes "tables_ok d"
  shows "list_all chk_tasks (tasks d)" "distinct (map task_ID (tasks d))"
    "r \<in> set (tasks d) \<Longrightarrow> 1 \<le> task_ID r"
    "r \<in> set (tasks d) \<Longrightarrow> q \<in> set (tasks d) \<Longrightarrow> same_identity r q \<Longrightarrow> live_round r \<Longrightarrow> live_round q \<Longrightarrow> task_ID r = task_ID q"
    "r \<in> set (tasks d) \<Longrightarrow> q \<in> set (tasks d) \<Longrightarrow> task_RetryOfTaskID r = Some p \<Longrightarrow> task_RetryOfTaskID q = Some p \<Longrightarrow> task_ID r = task_ID q"
    "r \<in> set (tasks d) \<Longrightarrow> task_RetryOfTaskID r = Some p \<Longrightarrow> p \<in> task_ID ` set (tasks d)"
    "e \<in> set (task_events d) \<Longrightarrow> event_TaskID e \<in> task_ID ` set (tasks d)"
proof -
  note ok = assms [unfolded tables_ok_def list_all_iff]
  show "list_all chk_tasks (tasks d)" "distinct (map task_ID (tasks d))" using ok by (simp_all add: list_all_iff)
  show "1 \<le> task_ID r" if "r \<in> set (tasks d)" using ok that by blast
  show "task_ID r = task_ID q" if "r \<in> set (tasks d)" "q \<in> set (tasks d)" "same_identity r q" "live_round r" "live_round q"
    using ok that by blast
  show "task_ID r = task_ID q" if "r \<in> set (tasks d)" "q \<in> set (tasks d)"
    "task_RetryOfTaskID r = Some p" "task_RetryOfTaskID q = Some p"
  proof -
    have "\<forall>r \<in> set (tasks d). \<forall>q \<in> set (tasks d). task_RetryOfTaskID r \<noteq> None \<and> task_RetryOfTaskID r = task_RetryOfTaskID q \<longrightarrow> task_ID r = task_ID q"
      using ok by blast
    then show ?thesis using that by (metis option.distinct(1))
  qed
  show "p \<in> task_ID ` set (tasks d)" if "r \<in> set (tasks d)" "task_RetryOfTaskID r = Some p"
  proof -
    have "\<forall>r \<in> set (tasks d). \<forall>p \<in> set_option (task_RetryOfTaskID r). p \<in> task_ID ` set (tasks d)"
      using ok by blast
    then show ?thesis using that by (metis option.set_intros)
  qed
  show "event_TaskID e \<in> task_ID ` set (tasks d)" if "e \<in> set (task_events d)" using ok that by blast
qed

lemma tables_okI:
  assumes "list_all chk_tasks (tasks d)" "distinct (map task_ID (tasks d))"
    "\<And>r. r \<in> set (tasks d) \<Longrightarrow> 1 \<le> task_ID r"
    "\<And>r q. r \<in> set (tasks d) \<Longrightarrow> q \<in> set (tasks d) \<Longrightarrow> same_identity r q \<Longrightarrow> live_round r \<Longrightarrow> live_round q \<Longrightarrow> task_ID r = task_ID q"
    "\<And>r q p. r \<in> set (tasks d) \<Longrightarrow> q \<in> set (tasks d) \<Longrightarrow> task_RetryOfTaskID r = Some p \<Longrightarrow> task_RetryOfTaskID q = Some p \<Longrightarrow> task_ID r = task_ID q"
    "\<And>r p. r \<in> set (tasks d) \<Longrightarrow> task_RetryOfTaskID r = Some p \<Longrightarrow> p \<in> task_ID ` set (tasks d)"
    "\<And>e. e \<in> set (task_events d) \<Longrightarrow> event_TaskID e \<in> task_ID ` set (tasks d)"
  shows "tables_ok d"
  unfolding tables_ok_def
proof (intro conjI ballI impI)
  show "list_all (\<lambda>r. 1 \<le> task_ID r) (tasks d)" using assms(3) by (simp add: list_all_iff)
  show "task_ID r = task_ID q" if "r \<in> set (tasks d)" "q \<in> set (tasks d)"
    "same_identity r q \<and> live_round r \<and> live_round q" for r q
    using assms(4) that by blast
  show "task_ID r = task_ID q" if "r \<in> set (tasks d)" "q \<in> set (tasks d)"
    "task_RetryOfTaskID r \<noteq> None \<and> task_RetryOfTaskID r = task_RetryOfTaskID q" for r q
    using assms(5) [OF that(1,2)] that(3) by (metis not_None_eq)
  show "p \<in> task_ID ` set (tasks d)" if "r \<in> set (tasks d)" "p \<in> set_option (task_RetryOfTaskID r)" for r p
    using assms(6) that by simp
qed (fact assms(1) assms(2) assms(7))+

lemma tables_ok_row_steps:
  assumes ok: "tables_ok d" and step: "list_all2 row_step (tasks d) (tasks d')"
    and chk: "list_all chk_tasks (tasks d')"
    and ev: "\<And>e. e \<in> set (task_events d') \<Longrightarrow> event_TaskID e \<in> task_ID ` set (tasks d)"
  shows "tables_ok d'"
proof -
  have ids: "map task_ID (tasks d') = map task_ID (tasks d)" using row_steps_ids [OF step] .
  then have idset: "task_ID ` set (tasks d') = task_ID ` set (tasks d)" by (metis set_map)
  have orig: "\<exists>r \<in> set (tasks d). row_step r r'" if "r' \<in> set (tasks d')" for r'
    using step that by (metis in_set_conv_nth list_all2_conv_all_nth)
  show ?thesis
  proof (rule tables_okI)
    fix r q assume "r \<in> set (tasks d')" "q \<in> set (tasks d')"
    then obtain r0 q0 where o: "r0 \<in> set (tasks d)" "row_step r0 r" "q0 \<in> set (tasks d)" "row_step q0 q"
      using orig by blast
    show "task_ID r = task_ID q" if "same_identity r q" "live_round r" "live_round q"
      using tables_okD(4) [OF ok o(1,3)] that row_step_identity [OF o(2,4)] row_step_live [OF o(2)]
        row_step_live [OF o(4)] row_step_id [OF o(2)] row_step_id [OF o(4)] by simp
    show "task_ID r = task_ID q" if "task_RetryOfTaskID r = Some p" "task_RetryOfTaskID q = Some p" for p
      using tables_okD(5) [OF ok o(1,3)] that row_step_retry [OF o(2)] row_step_retry [OF o(4)]
        row_step_id [OF o(2)] row_step_id [OF o(4)] by simp
  next
    fix r p assume "r \<in> set (tasks d')"
    then obtain r0 where o: "r0 \<in> set (tasks d)" "row_step r0 r" using orig by blast
    show "1 \<le> task_ID r" using tables_okD(3) [OF ok o(1)] row_step_id [OF o(2)] by simp
    show "p \<in> task_ID ` set (tasks d')" if "task_RetryOfTaskID r = Some p"
      using tables_okD(6) [OF ok o(1)] row_step_retry [OF o(2)] that idset by simp
  qed (use chk ev ids idset tables_okD(2) [OF ok] in simp_all)
qed

lemma update_where_steps:
  assumes "list_all chk_tasks rs" "list_all (\<lambda>r. P r \<longrightarrow> chk_tasks (f r)) rs"
    and "\<And>r. r \<in> set rs \<Longrightarrow> chk_tasks r \<Longrightarrow> P r \<Longrightarrow> chk_tasks (f r) \<Longrightarrow> row_step r (f r)"
  shows "list_all2 row_step rs (update_where P f rs)" "list_all chk_tasks (update_where P f rs)"
  using assms by (simp_all add: update_where_def list_all2_conv_all_nth list_all_iff ball_Un)

lemma world_step_rows:
  assumes "clock w' = clock w" "seq w' = seq w"
    and "tables_ok (db w) \<Longrightarrow> list_all2 row_step (tasks (db w)) (tasks (db w')) \<and> list_all chk_tasks (tasks (db w'))"
    and "\<exists>ev. task_events (db w') = task_events (db w) @ ev \<and> (\<forall>e \<in> set ev. event_TaskID e \<in> task_ID ` set (tasks (db w)))"
  shows "world_step w w'"
  unfolding world_step_def
proof (intro conjI impI)
  assume w: "wf_world w"
  then have ok: "tables_ok (db w)" by (simp add: wf_world_def)
  then have st: "list_all2 row_step (tasks (db w)) (tasks (db w'))" and chk: "list_all chk_tasks (tasks (db w'))"
    using assms(3) by auto
  have ev: "event_TaskID e \<in> task_ID ` set (tasks (db w))" if "e \<in> set (task_events (db w'))" for e
    using assms(4) that tables_okD(7) [OF ok] by auto
  have "tables_ok (db w')" using tables_ok_row_steps [OF ok st chk ev] .
  moreover have "task_ID ` set (tasks (db w')) = task_ID ` set (tasks (db w))"
    using row_steps_ids [OF st] by (metis set_map)
  then have "list_all (\<lambda>r. task_ID r < seq w') (tasks (db w'))"
    using w assms(2) by (simp add: wf_world_def list_all_iff) (metis imageE imageI)
  ultimately show "wf_world w'" using w assms(2) by (simp add: wf_world_def)
  show "tables_step (db w) (db w')"
    using st assms(4) list_all2_lengthD [OF st] by (auto simp: tables_step_def)
qed (use assms in auto)

section \<open>Every operation keeps the relation\<close>

lemma update_result_Inr:
  "update_result P f x d = (Inr y, d') \<longleftrightarrow>
     list_all (\<lambda>r. P r \<longrightarrow> chk_tasks (f r)) (tasks d) \<and> y = x \<and> d' = d\<lparr>tasks := update_where P f (tasks d)\<rparr>"
  by (auto simp: update_result_def)

lemma world_step_update:
  assumes "update_result P f x (db w) = (Inr y, d')"
    and "\<And>r. r \<in> set (tasks (db w)) \<Longrightarrow> chk_tasks r \<Longrightarrow> P r \<Longrightarrow> chk_tasks (f r) \<Longrightarrow> row_step r (f r)"
  shows "world_step w (w\<lparr>db := d', faults := fs\<rparr>)"
  by (rule world_step_rows)
    (use assms update_where_steps [of "tasks (db w)" P f] in \<open>auto simp: update_result_Inr dest: tables_okD(1)\<close>)

lemma keeps_update_tasks [keep]:
  "(\<And>r. chk_tasks r \<Longrightarrow> P r \<Longrightarrow> chk_tasks (f r) \<Longrightarrow> row_step r (f r)) \<Longrightarrow> keeps world_step (update_tasks P f)"
  unfolding update_tasks_def by (rule ws.keeps_stmtE) (rule world_step_update)

lemma keeps_AppendEvent [keep]: "keeps world_step (AppendEvent i ty details)"
  unfolding AppendEvent_def
  by (intro keep ws.keeps_stmtE world_step_rows) (auto split: if_splits intro: update_where_steps simp: list_all2_refl tables_okD)

lemma row_step_keep:
  "same_columns r r' \<Longrightarrow> task_Status r = TaskStatusRunning \<Longrightarrow> task_ClaimGeneration r \<le> task_ClaimGeneration r' \<Longrightarrow>
   task_RetryCount r \<le> task_RetryCount r' \<Longrightarrow> task_SupersededAt r' = task_SupersededAt r \<Longrightarrow>
   task_AcknowledgedAt r' = task_AcknowledgedAt r \<Longrightarrow> row_step r r'"
  by (simp add: row_step_def)

lemma row_step_not_running:
  "same_columns r r' \<Longrightarrow> same_outcome r r' \<Longrightarrow> task_SupersededAt r = None \<or> task_SupersededAt r' = task_SupersededAt r \<Longrightarrow>
   task_AcknowledgedAt r = None \<or> task_AcknowledgedAt r' \<noteq> None \<Longrightarrow> row_step r r'"
  by (auto simp: row_step_def same_outcome_def)

lemmas live_row = live_claim_def same_columns_def

lemma keeps_findTask [keep]: "keeps world_step (findTask P)"
  unfolding findTask_def by (rule keep)

lemmas find_defs = GetByID_def GetForUpdate_def GetByIdentity_def GetDirectSuccessor_def

lemma keeps_find [keep]:
  "keeps world_step (GetByID i)" "keeps world_step (GetForUpdate i)"
  "keeps world_step (GetByIdentity ty st sk g)" "keeps world_step (GetDirectSuccessor i)"
  unfolding find_defs by (rule keep)+

lemma keeps_runMaybeTx [keep]: "keeps world_step m \<Longrightarrow> keeps world_step (runMaybeTx intx m)"
  unfolding runMaybeTx_def by (intro keep)

lemma keeps_MarkWorkStarted [keep]: "keeps world_step (MarkWorkStarted i g t)"
  unfolding MarkWorkStarted_def by (intro keep row_step_keep) (auto simp: live_row)

lemma keeps_RenewLease [keep]: "keeps world_step (RenewLease i g t)"
  unfolding RenewLease_def by (intro keep row_step_keep) (auto simp: live_row)

lemma keeps_WriteCheckpoint [keep]: "keeps world_step (WriteCheckpoint i g c)"
  unfolding WriteCheckpoint_def by (intro keep row_step_keep) (auto simp: live_row)

lemma keeps_ValidateClaim [keep]: "keeps world_step (ValidateClaim i g)"
  unfolding ValidateClaim_def by (intro keep)

lemma keeps_ShortenLease [keep]: "keeps world_step (ShortenLease i g t)"
  unfolding ShortenLease_def by (intro keep row_step_keep) (auto simp: live_row)

lemma row_step_wake: "task_Status r = TaskStatusPending \<Longrightarrow> row_step r (r\<lparr>task_AvailableAt := n, task_UpdatedAt := n\<rparr>)"
  by (rule row_step_not_running) (auto simp: same_columns_def same_outcome_def)

lemma keeps_WakePending [keep]: "keeps world_step (WakePending ids)"
  unfolding WakePending_def by (intro keep row_step_wake) (auto simp: waiting_until_later_def)

lemma keeps_WakePendingOfTypes [keep]: "keeps world_step (WakePendingOfTypes ids tys rs)"
  unfolding WakePendingOfTypes_def by (intro keep row_step_wake) (auto simp: waiting_until_later_def)

lemma row_step_claim:
  "chk_tasks r \<Longrightarrow> eligible st n r \<Longrightarrow> st = TaskStatusRunning \<or> st = TaskStatusPending \<Longrightarrow> row_step r (claim_update st l t r)"
  by (auto simp: row_step_def claim_update_def same_columns_def eligible_def)

lemma keeps_claimTaskWithSQL [keep]:
  "st = TaskStatusRunning \<or> st = TaskStatusPending \<Longrightarrow> keeps world_step (claimTaskWithSQL st n l flt locked)"
  unfolding claimTaskWithSQL_def
  by (rule ws.keeps_stmtE)
    (auto split: option.splits intro: ws.kept_env row_step_claim elim!: world_step_update)

lemma keeps_claimNextTask [keep]: "keeps world_step (claimNextTask dur flt locked)"
  unfolding claimNextTask_def by (intro keep) auto

lemma keeps_claimTaskCandidate [keep]:
  "st = TaskStatusRunning \<or> st = TaskStatusPending \<Longrightarrow> keeps world_step (claimTaskCandidate st c l n sn locked)"
  unfolding claimTaskCandidate_def Let_def
  by (rule ws.keeps_stmtE) (auto intro: row_step_claim elim!: world_step_update)

lemma keeps_claimFilteredTask_loop [keep]:
  "st = TaskStatusRunning \<or> st = TaskStatusPending \<Longrightarrow>
   keeps world_step (claimFilteredTask_loop k dur tys ids locked sn st)"
  by (induction k arbitrary: ids) (simp_all, (intro keep | assumption)+)

lemma keeps_claimFilteredTask [keep]:
  "st = TaskStatusRunning \<or> st = TaskStatusPending \<Longrightarrow> keeps world_step (claimFilteredTask dur flt locked sn st)"
  by (intro keepsI, simp only: claimFilteredTask_def, rule keepsD, rule keeps_claimFilteredTask_loop)

lemma keeps_ClaimNext [keep]: "keeps world_step (ClaimNext intx dur flt locked)"
  unfolding ClaimNext_def claimNextPostgres_def by (intro keep) auto

lemma keeps_Settle [keep]: "keeps world_step (Settle redact intx i g tr)"
  unfolding Settle_def Settle_body_def
  by (intro keep row_step_keep) (auto simp: live_row settled_row_def)

lemma row_step_acknowledge:
  "task_Status r = TaskStatusFailed \<Longrightarrow> row_step r (r\<lparr>task_AcknowledgedAt := Some n, task_UpdatedAt := n\<rparr>)"
  by (rule row_step_not_running) (auto simp: same_columns_def same_outcome_def)

lemma row_step_acknowledge_chk:
  "chk_tasks (r\<lparr>task_AcknowledgedAt := Some n, task_UpdatedAt := n\<rparr>) \<Longrightarrow>
   row_step r (r\<lparr>task_AcknowledgedAt := Some n, task_UpdatedAt := n\<rparr>)"
  by (rule row_step_acknowledge) (simp add: chk_tasks_def)

lemma keeps_AcknowledgeFailed [keep]: "keeps world_step (AcknowledgeFailed intx i)"
  unfolding AcknowledgeFailed_def by (intro keep row_step_acknowledge_chk)

lemma acknowledge_events:
  assumes "apsnd (\<lambda>d'. d'\<lparr>task_events := task_events d' @ ev\<rparr>) (update_result P f x d) = (Inr y, d')"
  shows "list_all (\<lambda>r. P r \<longrightarrow> chk_tasks (f r)) (tasks d)" "tasks d' = update_where P f (tasks d)"
    "task_events d' = task_events d @ ev"
  using assms by (auto simp: update_result_def split: if_splits)

lemma keeps_acknowledgeQuery [keep]: "keeps world_step (acknowledgeQuery sel)"
  unfolding acknowledgeQuery_def Let_def
proof (intro keep ws.keeps_stmtE, goal_cases)
  case (1 n w x d' fs)
  note a = acknowledge_events [OF 1]
  show ?case
  proof (rule world_step_rows)
    assume "tables_ok (db w)"
    note b = update_where_steps [OF tables_okD(1) [OF this] a(1) row_step_acknowledge_chk]
    show "list_all2 row_step (tasks (db w)) (tasks (db (w\<lparr>db := d', faults := fs\<rparr>))) \<and>
      list_all chk_tasks (tasks (db (w\<lparr>db := d', faults := fs\<rparr>)))"
      using b a(2) by simp
  qed (use a(3) in auto)
qed

lemma keeps_AcknowledgeFailedForSubject [keep]: "keeps world_step (AcknowledgeFailedForSubject st sk)"
  unfolding AcknowledgeFailedForSubject_def by (intro keep)

lemma keeps_AcknowledgeFailedMatching [keep]: "keeps world_step (AcknowledgeFailedMatching flt)"
  unfolding AcknowledgeFailedMatching_def by (intro keep)

lemma keeps_raw [keep]:
  "(\<And>fs. x = Raw (JObj fs) \<Longrightarrow> keeps R (f fs)) \<Longrightarrow> keeps R m \<Longrightarrow>
   keeps R (case x of Raw (JObj fs) \<Rightarrow> f fs | _ \<Rightarrow> m)"
  by (auto split: raw.splits json.splits)

lemma keeps_updateOperation [keep]:
  assumes "\<And>r rt. keeps world_step (fn r rt)"
  shows "keeps world_step (updateOperation intx i g fn)"
  unfolding updateOperation_def
  by (intro keep assms row_step_keep) (auto simp: live_row)

lemma keeps_ObserveOperation [keep]: "keeps world_step (ObserveOperation intx i g key)"
  unfolding ObserveOperation_def by (intro keep)

lemma keeps_AdmitEffect [keep]: "keeps world_step (AdmitEffect intx i g key c)"
  unfolding AdmitEffect_def by (intro keep)

lemma keeps_ResolveOperation [keep]: "keeps world_step (ResolveOperation intx i g key)"
  unfolding ResolveOperation_def by (intro keep)

lemma keeps_SupersedeTerminal [keep]: "keeps world_step (SupersedeTerminal i)"
  unfolding SupersedeTerminal_def
  by (intro keep row_step_not_running) (auto simp: same_columns_def same_outcome_def)

lemma tables_ok_insert:
  assumes ok: "tables_ok d" and fresh: "\<And>q. q \<in> set (tasks d) \<Longrightarrow> task_ID q < task_ID r" and "1 \<le> task_ID r" "chk_tasks r"
    and ident: "\<not> (\<exists>q \<in> set (tasks d). same_identity q r \<and> live_round q \<and> live_round r)"
    and retry: "\<not> (\<exists>q \<in> set (tasks d). task_RetryOfTaskID r \<noteq> None \<and> task_RetryOfTaskID q = task_RetryOfTaskID r)"
    and parent: "\<not> (\<exists>p \<in> set_option (task_RetryOfTaskID r). \<forall>q \<in> set (tasks d). task_ID q \<noteq> p)"
  shows "tables_ok (d\<lparr>tasks := tasks d @ [r]\<rparr>)"
proof (rule tables_okI)
  have sym: "same_identity a b = same_identity b a" for a b unfolding same_identity_def by metis
  fix a b assume ab: "a \<in> set (tasks (d\<lparr>tasks := tasks d @ [r]\<rparr>))" "b \<in> set (tasks (d\<lparr>tasks := tasks d @ [r]\<rparr>))"
  show "task_ID a = task_ID b" if "same_identity a b" "live_round a" "live_round b"
    using ab that ident sym [of r] tables_okD(4) [OF ok, of a b] by auto
  show "task_ID a = task_ID b" if "task_RetryOfTaskID a = Some p" "task_RetryOfTaskID b = Some p" for p
    using ab that retry tables_okD(5) [OF ok, of a b p] by auto
  show "1 \<le> task_ID a" using ab(1) assms(3) tables_okD(3) [OF ok, of a] by auto
  show "p \<in> task_ID ` set (tasks (d\<lparr>tasks := tasks d @ [r]\<rparr>))" if "task_RetryOfTaskID a = Some p" for p
    using ab(1) that parent tables_okD(6) [OF ok, of a p] by auto
qed (use assms(4) fresh tables_okD(1,2,7) [OF ok] in \<open>fastforce+\<close>)

lemma world_step_insert:
  assumes ins: "insert_row r (db w) = (Inr x, d')" and "task_ID r = seq w"
    and w': "seq w' = seq w + 1" "clock w \<le> clock w'" "db w' = d'"
  shows "world_step w w'"
proof (cases x)
  case None
  then show ?thesis using ins w' by (auto simp: insert_row_def intro!: ws.kept_env split: if_splits)
next
  case (Some r')
  then have d': "d' = (db w)\<lparr>tasks := tasks (db w) @ [r]\<rparr>"
    using ins by (auto simp: insert_row_def split: if_splits)
  have "tables_ok d'" if "wf_world w"
    unfolding d' using ins Some that assms(2)
    by (intro tables_ok_insert) (auto simp: insert_row_def wf_world_def list_all_iff split: if_splits)
  then show ?thesis using w' d' assms(2)
    by (auto simp: world_step_def wf_world_def list_all_iff tables_step_def list_all2_refl)
qed

lemma keeps_insert_task [keep]: "keeps world_step (insert_task row)"
proof (rule keeps_wp)
  fix w :: "'a tables world"
  show "wpM (insert_task row) (\<lambda>_. world_step w) (\<lambda>_. world_step w) w"
    unfolding insert_task_def wp_bind wp_next_seq
  proof (rule wp_now, rule wp_stmtE, goal_cases)
    case (1 t ts x d' fs)
    then show ?case by (intro world_step_insert) (auto simp: stamp_task_def)
  qed (auto intro: ws.kept_env)
qed

lemma keeps_Enqueue [keep]: "keeps world_step (Enqueue intx t)"
  unfolding Enqueue_def Enqueue_tx_def by (intro keep)

end
