(* ===== verification/Task_Lists.thy ===== *)
theory Task_Lists
  imports Task_Invariants
begin

text \<open>
  The reading side of the task repository (\<open>task_storage_repo.go\<close>, \<open>ListHistory\<close> of
  \<open>task_round_repo.go\<close>, the counters of \<open>task_repo.go\<close>) and the schedule repository
  \<open>task_schedule_repo.go\<close>. The listing lemmas show that a client following
  \<open>NextBeforeID\<close> sees every matching round exactly once, newest first.
\<close>

section \<open>Pages\<close>

definition id_desc :: "Task list \<Rightarrow> Task list" where
  "id_desc rs = sort_key (\<lambda>r. - task_ID r) rs"

record TaskPage =
  page_Tasks :: "Task list"
  page_NextBeforeID :: int

definition taskPage :: "Task list \<Rightarrow> nat \<Rightarrow> TaskPage" where
  "taskPage rows limit =
     (if limit < length rows
      then \<lparr>page_Tasks = take limit rows, page_NextBeforeID = task_ID (take limit rows ! (limit - 1))\<rparr>
      else \<lparr>page_Tasks = rows, page_NextBeforeID = 0\<rparr>)"

definition page_limit :: "int \<Rightarrow> nat \<Rightarrow> nat" where
  "page_limit limit dflt = (if limit \<le> 0 \<or> 100 < limit then dflt else nat limit)"

text \<open>The shared tail of the cursor queries: rows below the cursor, newest first, one more than
  the limit, cut into a page.\<close>

definition page_query :: "(Task \<Rightarrow> bool) \<Rightarrow> int \<Rightarrow> nat \<Rightarrow> Task list \<Rightarrow> TaskPage" where
  "page_query P beforeID limit rows =
     taskPage (take (limit + 1) (id_desc (filter (\<lambda>r. P r \<and> (0 < beforeID \<longrightarrow> task_ID r < beforeID)) rows))) limit"

definition ListCurrentFailedForSubject :: "string \<Rightarrow> string \<Rightarrow> int \<Rightarrow> int \<Rightarrow> TaskType list \<Rightarrow> ('d, TaskPage) DB" where
  "ListCurrentFailedForSubject subjectType subjectKey beforeID limit types =
     query (\<lambda>d. page_query (\<lambda>r. task_Status r = TaskStatusFailed \<and> task_SupersededAt r = None \<and>
        task_SubjectType r = subjectType \<and> task_SubjectKey r = subjectKey \<and> (types \<noteq> [] \<longrightarrow> task_Type r \<in> set types))
        beforeID (page_limit limit 100) (tasks d))"

datatype TaskScope = TaskScopeDefault | TaskScopeWork | TaskScopeHistory | TaskScopeOther string

definition Valid_scope :: "TaskScope \<Rightarrow> bool" where
  "Valid_scope s = (case s of TaskScopeOther _ \<Rightarrow> False | _ \<Rightarrow> True)"

definition taskScopeQuery :: "TaskScope \<Rightarrow> Task \<Rightarrow> bool" where
  "taskScopeQuery scope r = (if scope = TaskScopeHistory then \<not> live_task r else live_task r)"

record TaskListFilter =
  list_Scope :: TaskScope
  list_Type :: TaskType
  list_Status :: TaskStatus
  list_Acknowledged :: "bool option"
  list_BeforeID :: int
  list_Limit :: int

definition list_matches :: "TaskListFilter \<Rightarrow> Task \<Rightarrow> bool" where
  "list_matches flt r = (taskScopeQuery (list_Scope flt) r \<and>
     (list_Type flt \<noteq> '''' \<longrightarrow> task_Type r = list_Type flt) \<and>
     (list_Status flt \<noteq> TaskStatusOther '''' \<longrightarrow> task_Status r = list_Status flt) \<and>
     (case list_Acknowledged flt of None \<Rightarrow> True | Some True \<Rightarrow> task_AcknowledgedAt r \<noteq> None
        | Some False \<Rightarrow> task_AcknowledgedAt r = None))"

definition List_tasks :: "TaskListFilter \<Rightarrow> ('d, TaskPage) DB" where
  "List_tasks flt0 =
     (if \<not> Valid_scope (list_Scope flt0) then fail ErrInvalidInput
      else let flt = flt0\<lparr>list_Scope := (if list_Scope flt0 = TaskScopeDefault then TaskScopeWork else list_Scope flt0)\<rparr> in
        if list_Status flt \<noteq> TaskStatusOther '''' \<and>
           ((list_Scope flt = TaskScopeWork \<and> list_Status flt \<noteq> TaskStatusPending \<and> list_Status flt \<noteq> TaskStatusRunning \<and> list_Status flt \<noteq> TaskStatusFailed) \<or>
            (list_Scope flt = TaskScopeHistory \<and> \<not> terminalTaskStatus (list_Status flt)))
        then fail ErrInvalidInput
        else query (\<lambda>d. page_query (list_matches flt) (list_BeforeID flt) (page_limit (list_Limit flt) 50) (tasks d)))"

definition LatestForSubject :: "string \<Rightarrow> string \<Rightarrow> TaskType list \<Rightarrow> ('d, Task option) DB" where
  "LatestForSubject subjectType subjectKey types =
     query (\<lambda>d. min_row (\<lambda>r. - task_ID r) (filter (\<lambda>r. task_SubjectType r = subjectType \<and> task_SubjectKey r = subjectKey \<and>
        task_SupersededAt r = None \<and> (types \<noteq> [] \<longrightarrow> task_Type r \<in> set types)) (tasks d)))"

definition LatestForSubjects :: "string \<Rightarrow> string list \<Rightarrow> TaskType list \<Rightarrow> ('d, string \<Rightarrow> Task option) DB" where
  "LatestForSubjects subjectType subjectKeys types =
     (if subjectKeys = [] then ret (\<lambda>_. None)
      else query (\<lambda>d k. if k \<in> set subjectKeys then
        min_row (\<lambda>r. - task_ID r) (filter (\<lambda>r. task_SubjectType r = subjectType \<and> task_SubjectKey r = k \<and>
          task_SupersededAt r = None \<and> (types \<noteq> [] \<longrightarrow> task_Type r \<in> set types)) (tasks d)) else None))"

definition group_count :: "(Task \<Rightarrow> bool) \<Rightarrow> Task list \<Rightarrow> ((TaskType \<times> TaskStatus) \<times> nat) list" where
  "group_count P rows = (let sel = filter P rows in
     map (\<lambda>k. (k, length (filter (\<lambda>r. (task_Type r, task_Status r) = k) sel))) (remdups (map (\<lambda>r. (task_Type r, task_Status r)) sel)))"

definition CountByScope :: "TaskScope \<Rightarrow> ('d, ((TaskType \<times> TaskStatus) \<times> nat) list) DB" where
  "CountByScope scope = (if \<not> Valid_scope scope then fail ErrInvalidInput
     else query (\<lambda>d. group_count (taskScopeQuery scope) (tasks d)))"

definition CountUnacknowledgedFailed :: "('d, nat) DB" where
  "CountUnacknowledgedFailed = query (\<lambda>d. rows_affected (\<lambda>r. live_task r \<and> task_Status r = TaskStatusFailed) (tasks d))"

definition CountOverviewActivePipeline :: "('d, ((TaskType \<times> TaskStatus) \<times> nat) list) DB" where
  "CountOverviewActivePipeline = query (\<lambda>d. group_count (\<lambda>r. (task_Status r = TaskStatusPending \<or> task_Status r = TaskStatusRunning) \<and>
     task_Type r \<notin> set RecurringSystemTaskTypes) (tasks d))"

text \<open>The recursive queries of \<open>ListHistory\<close>: the retry ancestors of the anchor and the rounds that
  retry it. A retry has a larger id than its source, so one level per row reaches them all.\<close>

fun ancestors :: "nat \<Rightarrow> Task list \<Rightarrow> int \<Rightarrow> int list" where
  "ancestors 0 rows i = []"
| "ancestors (Suc k) rows i = (case find (\<lambda>r. task_ID r = i) rows of None \<Rightarrow> []
     | Some r \<Rightarrow> i # (case task_RetryOfTaskID r of None \<Rightarrow> [] | Some p \<Rightarrow> ancestors k rows p))"

fun descendants :: "nat \<Rightarrow> Task list \<Rightarrow> int list \<Rightarrow> int list" where
  "descendants 0 rows level = []"
| "descendants (Suc k) rows level = (if level = [] then [] else
     level @ descendants k rows (map task_ID (filter (\<lambda>r. \<exists>p \<in> set level. task_RetryOfTaskID r = Some p) rows)))"

definition chain_ids :: "Task list \<Rightarrow> int \<Rightarrow> int list" where
  "chain_ids rows anchor = (let n = length rows + 1 in
     ancestors n rows anchor @ descendants n rows (map task_ID (filter (\<lambda>r. task_ID r = anchor) rows)))"

definition ListHistory :: "int \<Rightarrow> int \<Rightarrow> int \<Rightarrow> ('d, TaskPage) DB" where
  "ListHistory anchorID beforeID limit0 = (let limit = page_limit limit0 50 in
     bindM (query (\<lambda>d. let ids = chain_ids (tasks d) anchorID in
       take (limit + 2) (id_desc (filter (\<lambda>r. task_ID r \<in> set ids \<and> (beforeID = 0 \<or> task_ID r \<le> beforeID)) (tasks d))))) (\<lambda>rows.
     if 0 < beforeID \<and> 0 < length rows \<and> task_ID (rows ! 0) = beforeID then ret (taskPage (tl rows) limit)
     else if 0 < beforeID \<or> length rows = 0 then
       bindM (GetByID anchorID) (\<lambda>anchor. case anchor of None \<Rightarrow> fail ErrNotFound | Some _ \<Rightarrow> fail ErrInvalidInput)
     else ret (taskPage rows limit)))"

fun fmt_int_digits :: "nat \<Rightarrow> string" where
  "fmt_int_digits n = (if n < 10 then [char_of (48 + n)] else fmt_int_digits (n div 10) @ [char_of (48 + n mod 10)])"

definition Sprint_int :: "int \<Rightarrow> string" where
  "Sprint_int i = (if i < 0 then CHR ''-'' # fmt_int_digits (nat (- i)) else fmt_int_digits (nat i))"

definition PreviousStoreCheckpoints :: "int \<Rightarrow> int \<Rightarrow> ('d, Task list) DB" where
  "PreviousStoreCheckpoints copyID taskID =
     (if copyID < 1 \<or> taskID < 1 then fail ErrInvalidInput
      else query (\<lambda>d. id_desc (filter (\<lambda>r. task_Type r = TaskTypeStorageStore \<and> task_Status r = TaskStatusFailed \<and>
        task_SubjectType r = TaskSubjectStorageCopy \<and> task_SubjectKey r = Sprint_int copyID \<and> task_ID r \<noteq> taskID \<and>
        task_Checkpoint r \<noteq> RawEmpty) (tasks d))))"

section \<open>Schedules\<close>

definition Ensure :: "string \<Rightarrow> time \<Rightarrow> ('d, unit) DB" where
  "Ensure key nextRunAt =
     (if key = '''' \<or> nextRunAt = 0 then fail ErrInvalidInput
      else stmt (\<lambda>d. if \<exists>s \<in> set (task_schedules d). sched_Key s = key then ((), d)
        else ((), d\<lparr>task_schedules := task_schedules d @ [\<lparr>sched_Key = key, sched_NextRunAt = nextRunAt,
               sched_LatestTaskID = None, sched_Generation = 0\<rparr>]\<rparr>)))"

definition Schedule_GetForUpdate :: "string \<Rightarrow> ('d, TaskSchedule option) DB" where
  "Schedule_GetForUpdate key = query (\<lambda>d. find (\<lambda>s. sched_Key s = key) (task_schedules d))"

definition GetByTaskID :: "int \<Rightarrow> ('d, TaskSchedule option) DB" where
  "GetByTaskID taskID = query (\<lambda>d. find (\<lambda>s. sched_LatestTaskID s = Some taskID) (task_schedules d))"

definition ListDue :: "time \<Rightarrow> ('d, TaskSchedule list) DB" where
  "ListDue n = query (\<lambda>d. sort_key (\<lambda>s. (sched_NextRunAt s, sched_Key s)) (filter (\<lambda>s. sched_NextRunAt s \<le> n) (task_schedules d)))"

text \<open>An update of the schedule table under its constraints: a task heads at most one schedule,
  and the head is a task.\<close>

definition update_schedules :: "(TaskSchedule \<Rightarrow> bool) \<Rightarrow> (TaskSchedule \<Rightarrow> TaskSchedule) \<Rightarrow> ('d, nat) DB" where
  "update_schedules P f = stmtE (\<lambda>d. let ss = update_where P f (task_schedules d) in
     if \<not> distinct (List.map_filter sched_LatestTaskID ss) then (Inl UniqueViolation, d)
     else if \<not> set (List.map_filter sched_LatestTaskID ss) \<subseteq> task_ID ` set (tasks d) then (Inl ForeignKeyViolation, d)
     else (Inr (rows_affected P (task_schedules d)), d\<lparr>task_schedules := ss\<rparr>))"

definition SetHead :: "bool \<Rightarrow> string \<Rightarrow> int \<Rightarrow> int \<Rightarrow> int option \<Rightarrow> int option \<Rightarrow> time \<Rightarrow> ('d, unit) DB" where
  "SetHead intx key expectedGeneration generation expectedTaskID taskID nextRunAt =
     (if key = '''' \<or> generation < 0 \<or> generation < expectedGeneration \<or> nextRunAt = 0 then fail ErrInvalidInput
      else runMaybeTx intx (
        bindM (case taskID of None \<Rightarrow> ret ()
          | Some ti \<Rightarrow> bindM (GetForUpdate ti) (\<lambda>row. case row of None \<Rightarrow> fail ErrConflict
            | Some task \<Rightarrow>
              if \<not> IsRecurringSystem (task_Type task) \<or> task_SupersededAt task \<noteq> None then fail ErrConflict
              else if task_Generation task \<noteq> Some generation then fail ErrConflict
              else if task_Status task \<noteq> TaskStatusPending \<and> task_Status task \<noteq> TaskStatusRunning then fail ErrConflict
              else (case expectedTaskID of None \<Rightarrow> ret ()
                | Some ei \<Rightarrow> if ei = task_ID task then ret ()
                  else bindM (GetByID ei) (\<lambda>prev. case prev of None \<Rightarrow> fail ErrConflict
                    | Some previous \<Rightarrow>
                      if task_Type previous \<noteq> task_Type task then fail ErrConflict
                      else if generation = expectedGeneration \<and> task_RetryOfTaskID task \<noteq> Some (task_ID previous) then fail ErrConflict
                      else ret ())))) (\<lambda>_.
        bindM (update_schedules (\<lambda>s. sched_Key s = key \<and> sched_Generation s = expectedGeneration \<and> sched_LatestTaskID s = expectedTaskID)
          (\<lambda>s. s\<lparr>sched_LatestTaskID := taskID, sched_Generation := generation, sched_NextRunAt := nextRunAt\<rparr>)) (\<lambda>rows.
        guardM (rows = 1) ErrConflict))))"

definition ScheduleNext :: "string \<Rightarrow> int \<Rightarrow> time \<Rightarrow> ('d, unit) DB" where
  "ScheduleNext key taskID nextRunAt =
     (if key = '''' \<or> taskID < 1 \<or> nextRunAt = 0 then fail ErrInvalidInput
      else bindM (update_schedules (\<lambda>s. sched_Key s = key \<and> sched_LatestTaskID s = Some taskID) (\<lambda>s. s\<lparr>sched_NextRunAt := nextRunAt\<rparr>))
        (\<lambda>rows. guardM (rows = 1) ErrConflict))"

section \<open>Following the cursor\<close>

text \<open>What a client of a cursor query does: ask, and ask again below \<open>NextBeforeID\<close> until it is 0.\<close>

fun page_walk :: "nat \<Rightarrow> (int \<Rightarrow> TaskPage) \<Rightarrow> int \<Rightarrow> Task list" where
  "page_walk 0 f b = []"
| "page_walk (Suc k) f b = (let p = f b in
     page_Tasks p @ (if page_NextBeforeID p = 0 then [] else page_walk k f (page_NextBeforeID p)))"

abbreviation newest_first :: "Task list \<Rightarrow> bool" where
  "newest_first \<equiv> sorted_wrt (\<lambda>a b. task_ID b < task_ID a)"

lemma newest_first_below:
  "newest_first rs \<Longrightarrow> k < length rs \<Longrightarrow> filter (\<lambda>r. task_ID r < task_ID (rs ! k)) rs = drop (Suc k) rs"
proof (induction rs arbitrary: k)
  case (Cons a rs)
  then have all: "\<forall>r \<in> set rs. task_ID r < task_ID a" by simp
  show ?case
  proof (cases k)
    case 0 then show ?thesis using all by (simp add: filter_id_conv)
  next
    case (Suc j)
    then have "\<not> task_ID a < task_ID (rs ! j)" using Cons.prems all by (fastforce dest: nth_mem)
    then show ?thesis using Cons Suc by simp
  qed
qed simp

lemma id_desc_newest_first:
  assumes "distinct (map task_ID rs)"
  shows "newest_first (id_desc rs)"
proof -
  have "distinct (map (\<lambda>r. - task_ID r) rs)"
    using assms by (auto simp: distinct_map inj_on_def)
  then have "distinct (map (\<lambda>r. - task_ID r) (id_desc rs))"
    by (simp add: id_desc_def distinct_map inj_on_def)
  then have "sorted_wrt (<) (map (\<lambda>r. - task_ID r) (id_desc rs))"
    by (simp add: id_desc_def strict_sorted_iff)
  then show ?thesis by (simp add: sorted_wrt_map)
qed

lemma set_id_desc [simp]: "set (id_desc rs) = set rs" "length (id_desc rs) = length rs"
  by (simp_all add: id_desc_def)

lemma page_query_filter:
  "page_query P b limit rows =
     taskPage (take (limit + 1) (filter (\<lambda>r. 0 < b \<longrightarrow> task_ID r < b) (id_desc (filter P rows)))) limit"
  by (simp add: page_query_def id_desc_def filter_sort conj_commute)

lemma page_walk_suffix:
  assumes "newest_first rs" "\<forall>r \<in> set rs. 0 < task_ID r" "0 < limit" "filter (\<lambda>r. 0 < b \<longrightarrow> task_ID r < b) rs = drop n rs"
    and "length rs < n + k"
  shows "page_walk k (\<lambda>b. taskPage (take (limit + 1) (filter (\<lambda>r. 0 < b \<longrightarrow> task_ID r < b) rs)) limit) b = drop n rs"
  using assms(4,5)
proof (induction k arbitrary: b n)
  case (Suc k)
  show ?case
  proof (cases "limit < length (drop n rs)")
    case False
    then have "take (limit + 1) (drop n rs) = drop n rs" by simp
    then show ?thesis using False Suc.prems(1) by (simp add: taskPage_def)
  next
    case True
    let ?m = "n + limit - 1"
    have m: "?m < length rs" using True by simp
    have nth: "take limit (drop n rs) ! (limit - 1) = rs ! ?m"
      using True assms(3) by simp
    have pos: "0 < task_ID (rs ! ?m)" using assms(2) m by (meson nth_mem)
    then have next_b: "filter (\<lambda>r. 0 < task_ID (rs ! ?m) \<longrightarrow> task_ID r < task_ID (rs ! ?m)) rs = drop (n + limit) rs"
      using newest_first_below [OF assms(1) m] assms(3) by simp
    have "page_walk k (\<lambda>b. taskPage (take (limit + 1) (filter (\<lambda>r. 0 < b \<longrightarrow> task_ID r < b) rs)) limit) (task_ID (rs ! ?m))
        = drop (n + limit) rs"
      using Suc.prems(2) assms(3) by (intro Suc.IH next_b) simp
    moreover have "take limit (drop n rs) @ drop (n + limit) rs = drop n rs"
      by (metis add.commute append_take_drop_id drop_drop)
    ultimately show ?thesis using True Suc.prems(1) nth pos by (simp add: taskPage_def min_def)
  qed
qed simp

lemma page_walk_all:
  assumes "distinct (map task_ID rows)" "\<forall>r \<in> set rows. 0 < task_ID r" "0 < limit"
  shows "page_walk (length rows + 1) (\<lambda>b. page_query P b limit rows) 0 = id_desc (filter P rows)"
proof -
  have "newest_first (id_desc (filter P rows))"
    using assms(1) by (intro id_desc_newest_first distinct_map_filter)
  then show ?thesis
    unfolding page_query_filter
    using page_walk_suffix [of "id_desc (filter P rows)" limit 0 0 "length rows + 1"] assms(2,3)
    by (simp add: length_filter_le less_Suc_eq_le)
qed

lemma page_limit_pos: "0 < dflt \<Longrightarrow> 0 < page_limit limit dflt"
  by (simp add: page_limit_def)

section \<open>Schedule operations leave the tasks alone\<close>

lemma world_step_same_tasks:
  "clock w' = clock w \<Longrightarrow> seq w' = seq w \<Longrightarrow> tasks (db w') = tasks (db w) \<Longrightarrow> task_events (db w') = task_events (db w) \<Longrightarrow> world_step w w'"
  by (rule world_step_rows) (auto simp: list_all2_refl dest: tables_okD(1))

lemma keeps_update_schedules [keep]: "keeps world_step (update_schedules P f)"
  unfolding update_schedules_def Let_def
  by (rule ws.keeps_stmtE) (auto split: if_splits intro!: world_step_same_tasks)

lemma keeps_Ensure [keep]: "keeps world_step (Ensure key t)"
  unfolding Ensure_def by (intro keep ws.keeps_stmt world_step_same_tasks) auto

lemma keeps_Schedule_queries [keep]:
  "keeps world_step (Schedule_GetForUpdate key)" "keeps world_step (GetByTaskID i)" "keeps world_step (ListDue t)"
  "keeps world_step (ListCurrentFailedForSubject st sk b l tys)"
  unfolding Schedule_GetForUpdate_def GetByTaskID_def ListDue_def ListCurrentFailedForSubject_def by (rule keep)+

lemma keeps_SetHead [keep]: "keeps world_step (SetHead intx key eg g et t n)"
  unfolding SetHead_def by (intro keep)

lemma keeps_ScheduleNext [keep]: "keeps world_step (ScheduleNext key i n)"
  unfolding ScheduleNext_def by (intro keep)

end
