(* ===== verification/Task_Runs.thy ===== *)
theory Task_Runs
  imports Task_Lists
begin

text \<open>
  Runs of the task subsystem: any sequence of repository operations, by any number of
  processes, in any environment (clock, faults, cancellation, locks, changes of the rest of the
  database). The claim generation is a fencing token: the theorems show that a claim settles at
  most once, that a stale claim changes nothing, and that a finished round stays finished.
\<close>

section \<open>Operations and runs\<close>

text \<open>The operations a claimant performs under its claim \<open>(id, generation)\<close>.\<close>

datatype fenced_op =
    OpMarkWorkStarted time
  | OpRenewLease duration
  | OpWriteCheckpoint raw
  | OpValidateClaim
  | OpShortenLease duration
  | OpSettle TaskTransition
  | OpObserveOperation string
  | OpAdmitEffect string raw
  | OpResolveOperation string

definition void :: "('d, 'a) M \<Rightarrow> ('d, unit) M" where
  "void m = bindM m (\<lambda>_. ret ())"

fun exec_fenced :: "(string \<Rightarrow> string) \<Rightarrow> bool \<Rightarrow> int \<Rightarrow> int \<Rightarrow> fenced_op \<Rightarrow> ('d, unit) DB" where
  "exec_fenced redact intx i g (OpMarkWorkStarted t) = MarkWorkStarted i g t"
| "exec_fenced redact intx i g (OpRenewLease dur) = void (RenewLease i g dur)"
| "exec_fenced redact intx i g (OpWriteCheckpoint c) = WriteCheckpoint i g c"
| "exec_fenced redact intx i g OpValidateClaim = ValidateClaim i g"
| "exec_fenced redact intx i g (OpShortenLease dur) = ShortenLease i g dur"
| "exec_fenced redact intx i g (OpSettle tr) = Settle redact intx i g tr"
| "exec_fenced redact intx i g (OpObserveOperation key) = void (ObserveOperation intx i g key)"
| "exec_fenced redact intx i g (OpAdmitEffect key c) = AdmitEffect intx i g key c"
| "exec_fenced redact intx i g (OpResolveOperation key) = ResolveOperation intx i g key"

datatype repo_op =
    OpFenced int int fenced_op
  | OpClaimNext duration TaskClaimFilter "int list"
  | OpEnqueue "Task option"
  | OpSupersedeTerminal int
  | OpAppendEvent int string raw
  | OpWakePending "int list"
  | OpWakePendingOfTypes "int list" "TaskType list" "string list"
  | OpAcknowledgeFailed int
  | OpAcknowledgeFailedForSubject string string
  | OpAcknowledgeFailedMatching TaskAcknowledgeFilter
  | OpEnsure string time
  | OpSetHead string int int "int option" "int option" time
  | OpScheduleNext string int time

fun exec_op :: "(string \<Rightarrow> string) \<Rightarrow> bool \<Rightarrow> repo_op \<Rightarrow> ('d, unit) DB" where
  "exec_op redact intx (OpFenced i g f) = exec_fenced redact intx i g f"
| "exec_op redact intx (OpClaimNext dur flt locked) = void (ClaimNext intx dur flt locked)"
| "exec_op redact intx (OpEnqueue t) = void (Enqueue intx t)"
| "exec_op redact intx (OpSupersedeTerminal i) = SupersedeTerminal i"
| "exec_op redact intx (OpAppendEvent i ty c) = AppendEvent i ty c"
| "exec_op redact intx (OpWakePending ids) = void (WakePending ids)"
| "exec_op redact intx (OpWakePendingOfTypes ids tys rs) = void (WakePendingOfTypes ids tys rs)"
| "exec_op redact intx (OpAcknowledgeFailed i) = AcknowledgeFailed intx i"
| "exec_op redact intx (OpAcknowledgeFailedForSubject st sk) = void (AcknowledgeFailedForSubject st sk)"
| "exec_op redact intx (OpAcknowledgeFailedMatching flt) = void (AcknowledgeFailedMatching flt)"
| "exec_op redact intx (OpEnsure key t) = Ensure key t"
| "exec_op redact intx (OpSetHead key eg g et t n) = SetHead intx key eg g et t n"
| "exec_op redact intx (OpScheduleNext key i n) = ScheduleNext key i n"

inductive run :: "(string \<Rightarrow> string) \<Rightarrow> 'd tables world \<Rightarrow> 'd tables world \<Rightarrow> bool" for redact where
  run_refl: "run redact w w"
| run_op: "run redact w w' \<Longrightarrow> run redact w (snd (exec_op redact intx op w'))"
| run_env: "run redact w w' \<Longrightarrow> db w'' = db w' \<Longrightarrow> seq w' \<le> seq w'' \<Longrightarrow> clock w' \<le> clock w'' \<Longrightarrow> run redact w w''"
| run_domain: "run redact w w' \<Longrightarrow>
    run redact w (w'\<lparr>db := (db w')\<lparr>domain := x, review_holds := rh, removal_holds := mh\<rparr>\<rparr>)"

lemma keeps_void [keep]: "keeps world_step m \<Longrightarrow> keeps world_step (void m)"
  unfolding void_def by (intro keep)

lemma keeps_exec_fenced [keep]: "keeps world_step (exec_fenced redact intx i g f)"
  by (cases f) (simp_all, (intro keep)+)

lemma keeps_exec_op [keep]: "keeps world_step (exec_op redact intx op)"
  by (cases op) (simp_all, (intro keep)+)

lemma run_world_step: "run redact w w' \<Longrightarrow> world_step w w'"
proof (induction rule: run.induct)
  case (run_domain w w' x rh mh)
  then show ?case by (elim ws.kept_trans) (auto intro: world_step_same_tasks)
qed (auto intro: ws.kept_env ws.kept_trans keepsD keeps_exec_op)

text \<open>A concrete claimed task and a transition, for the witnesses.\<close>

definition example_task :: Task where
  "example_task = \<lparr>task_ID = 1, task_Type = ''upload_plan'', task_InputVersion = 1, task_SubjectType = ''content'',
     task_SubjectKey = ''7'', task_Generation = Some 0, task_RetryOfTaskID = None, task_Input = Raw (JObj []),
     task_Checkpoint = RawEmpty, task_Runtime = Raw (JObj []), task_Status = TaskStatusRunning,
     task_ResumeMode = TaskResumeModeExecute, task_AvailableAt = 10, task_WaitReason = None, task_RetryCount = 0,
     task_FailureReason = None, task_LastError = None, task_StatusMessage = None, task_ClaimGeneration = 1,
     task_LeaseUntil = Some 1000, task_FinishedAt = None, task_CreatedAt = 5, task_UpdatedAt = 10,
     task_WorkStartedAt = None, task_AcknowledgedAt = None, task_SupersededAt = None\<rparr>"

definition example_world :: "Task list \<Rightarrow> unit tables world" where
  "example_world rows = \<lparr>db = \<lparr>tasks = rows, task_events = [], task_schedules = [], review_holds = [], removal_holds = [], domain = ()\<rparr>,
     seq = 10, clock = 100, ticks = [], faults = [], ctx_script = [], lease_script = []\<rparr>"

definition complete_transition :: TaskTransition where
  "complete_transition = \<lparr>tr_Observation = Some \<lparr>patch_State = None\<rparr>, tr_WorkStartedAt = None, tr_ClearWorkStartedAt = False,
     tr_Status = TaskStatusCompleted, tr_ResumeMode = TaskResumeModeRecover, tr_AvailableAt = 0, tr_WaitReason = None,
     tr_FailureReason = None, tr_LastError = None, tr_StatusMessage = None, tr_IncrementRetry = False\<rparr>"

section \<open>Rows across a run\<close>

definition row_of :: "int \<Rightarrow> 'd tables \<Rightarrow> Task option" where
  "row_of i d = find (\<lambda>r. task_ID r = i) (tasks d)"

lemma row_of_Some: "row_of i d = Some r \<Longrightarrow> r \<in> set (tasks d) \<and> task_ID r = i"
  by (auto simp: row_of_def find_Some_iff)

lemma find_distinct: "distinct (map f xs) \<Longrightarrow> x \<in> set xs \<Longrightarrow> find (\<lambda>y. f y = f x) xs = Some x"
  by (induction xs) (auto simp: rev_image_eqI)

lemma row_of_unique: "tables_ok d \<Longrightarrow> r \<in> set (tasks d) \<Longrightarrow> row_of (task_ID r) d = Some r"
  unfolding row_of_def by (intro find_distinct) (auto dest: tables_okD(2))

lemma tables_step_row:
  assumes "tables_step d d'" "r \<in> set (tasks d)"
  shows "\<exists>r' \<in> set (tasks d'). row_step r r'"
proof -
  obtain k where k: "k < length (tasks d)" "tasks d ! k = r" using assms(2) by (auto simp: in_set_conv_nth)
  have "list_all2 row_step (tasks d) (take (length (tasks d)) (tasks d'))" using assms(1) by (simp add: tables_step_def)
  then have "k < length (tasks d')" "row_step r (tasks d' ! k)"
    using k by (auto simp: list_all2_conv_all_nth)
  then show ?thesis by (meson nth_mem)
qed

lemma run_row:
  assumes "run redact w w'" "wf_world w" "row_of i (db w) = Some r"
  shows "wf_world w' \<and> (\<exists>r'. row_of i (db w') = Some r' \<and> row_step r r')"
proof -
  have st: "wf_world w'" "tables_step (db w) (db w')"
    using run_world_step [OF assms(1)] assms(2) by (auto simp: world_step_def)
  moreover have "r \<in> set (tasks (db w))" "task_ID r = i" using row_of_Some [OF assms(3)] by auto
  ultimately obtain r' where r': "r' \<in> set (tasks (db w'))" "row_step r r'" using tables_step_row by blast
  moreover have "row_of i (db w') = Some r'"
    using row_of_unique [of "db w'" r'] r' st(1) \<open>task_ID r = i\<close> row_step_id by (auto simp: wf_world_def)
  ultimately show ?thesis using st(1) by blast
qed

section \<open>The fence\<close>

text \<open>No row is held under the claim \<open>(i, g)\<close> now or later.\<close>

definition fenced_out :: "int \<Rightarrow> int \<Rightarrow> time \<Rightarrow> 'd tables \<Rightarrow> bool" where
  "fenced_out i g n d = list_all (\<lambda>r. task_ID r = i \<and> task_Status r = TaskStatusRunning \<and> task_ClaimGeneration r = g \<longrightarrow>
     (case task_LeaseUntil r of None \<Rightarrow> True | Some l \<Rightarrow> l \<le> n)) (tasks d)"

lemma fenced_outD: "fenced_out i g n d \<Longrightarrow> n \<le> n' \<Longrightarrow> r \<in> set (tasks d) \<Longrightarrow> \<not> live_claim i g n' r"
  by (fastforce simp: fenced_out_def live_claim_def list_all_iff split: option.splits)

abbreviation later :: "'d world \<Rightarrow> 'd world \<Rightarrow> bool" where
  "later w w' \<equiv> clock w \<le> clock w' \<and> seq w \<le> seq w'"

abbreviation refused :: "'d tables world \<Rightarrow> error \<Rightarrow> 'd tables world \<Rightarrow> bool" where
  "refused w e w' \<equiv> db w' = db w \<and> later w w'"

lemma wp_update_tasks_none:
  assumes "\<And>r. r \<in> set (tasks (db w)) \<Longrightarrow> \<not> P r"
    and "\<And>fs. Q 0 (w\<lparr>faults := fs\<rparr>)" and "\<And>e fs. E (ErrDb e) (w\<lparr>faults := fs\<rparr>)"
  shows "wpM (update_tasks P f) Q E w"
proof -
  have "update_where P f (tasks (db w)) = tasks (db w)" "rows_affected P (tasks (db w)) = 0"
    using assms(1) by (auto simp: update_where_def rows_affected_def map_idI)
  then show ?thesis unfolding update_tasks_def
    by (intro wp_stmtE) (use assms in \<open>auto simp: update_result_def split: if_splits\<close>)
qed

lemma wp_WithTx:
  assumes "\<And>w'. db w' = db w \<Longrightarrow> later w w' \<Longrightarrow> wpM m Q (\<lambda>_. later w') w'"
  shows "wpM (WithTx m) Q (\<lambda>_ w'. db w' = db w \<and> later w w') w"
proof -
  have "wpM (runRepositoryTx_loop n m) Q (\<lambda>_ w'. db w' = db w \<and> later w w') w'" if "db w' = db w" "later w w'" for n w'
    using that
  proof (induction n arbitrary: w')
    case 0
    have "wpM m Q (\<lambda>_. later w) w'" using assms [OF 0] by (rule wp_mono) (use 0 in auto)
    then show ?case by (subst runRepositoryTx_loop.simps) (auto elim!: wp_mono simp: 0)
  next
    case (Suc n)
    have "wpM m Q (\<lambda>_. later w) w'" using assms [OF Suc.prems] by (rule wp_mono) (use Suc.prems in auto)
    then show ?case
      by (subst runRepositoryTx_loop.simps)
        (auto elim!: wp_mono simp: Suc.prems intro!: wp_ctx_done Suc.IH simp del: runRepositoryTx_loop.simps)
  qed
  then show ?thesis by (simp add: WithTx_def)
qed

lemma keeps_later: "keeps world_step m \<Longrightarrow> wpM m (\<lambda>_. later w) (\<lambda>_. later w) w"
  by (simp add: wpM_same keeps_def world_step_def)

lemma wp_runMaybeTx:
  assumes "keeps world_step m" and "\<And>w'. db w' = db w \<Longrightarrow> later w w' \<Longrightarrow> wpM m Q (\<lambda>_ _. True) w'"
  shows "wpM (runMaybeTx intx m) Q (\<lambda>_ _. True) w"
proof -
  have "wpM m Q (\<lambda>_. later w') w'" if "db w' = db w" "later w w'" for w'
    using wp_conj [OF assms(2) [OF that] keeps_later [OF assms(1)]] by (rule wp_mono) auto
  then have "wpM (WithTx m) Q (\<lambda>_ _. True) w"
    by (intro wp_mono [OF wp_WithTx]) auto
  then show ?thesis using assms(2) [of w] by (simp add: runMaybeTx_def)
qed

lemma wp_findTask:
  "(\<And>fs. Q (find P (tasks (db w))) (w\<lparr>faults := fs\<rparr>)) \<Longrightarrow> (\<And>e fs. E (ErrDb e) (w\<lparr>faults := fs\<rparr>)) \<Longrightarrow> wpM (findTask P) Q E w"
  unfolding findTask_def by (rule wp_query)

lemma wp_void [simp]: "wpM (void m) Q E w = wpM m (\<lambda>_. Q ()) E w"
  by (simp add: void_def wpM_def ret_def bindM_def split: prod.splits sum.splits)

lemma ValidateClaim_fenced:
  assumes "fenced_out i g (clock w) (db w)"
  shows "wpM (ValidateClaim i g) (\<lambda>_ _. False) (refused w) w"
  unfolding ValidateClaim_def wp_bind
proof (rule wp_now, rule wp_findTask)
  fix t ts fs assume "clock w \<le> t"
  then have "find (live_claim i g t) (tasks (db w)) = None"
    using fenced_outD [OF assms] by (auto simp: find_None_iff)
  then show "wpM (guardM (find (live_claim i g t) (tasks (db (w\<lparr>clock := t, ticks := ts\<rparr>))) \<noteq> None) ErrTaskLeaseLost)
      (\<lambda>_ _. False) (refused w) (w\<lparr>clock := t, ticks := ts, faults := fs\<rparr>)"
    using \<open>clock w \<le> t\<close> by simp
qed auto

lemma update_fenced:
  assumes "fenced_out i g (clock w) (db w)" "clock w \<le> t" "\<And>fs. Q 0 (w\<lparr>clock := t, ticks := ts, faults := fs\<rparr>)"
    and "\<And>e fs. E (ErrDb e) (w\<lparr>clock := t, ticks := ts, faults := fs\<rparr>)"
  shows "wpM (update_tasks (live_claim i g t) f) Q E (w\<lparr>clock := t, ticks := ts\<rparr>)"
  by (rule wp_update_tasks_none) (use assms(2-4) fenced_outD [OF assms(1)] in auto)

lemma statements_fenced:
  assumes "fenced_out i g (clock w) (db w)"
  shows "wpM (MarkWorkStarted i g t) (\<lambda>_ _. False) (refused w) w"
    "wpM (RenewLease i g dur) (\<lambda>_ _. False) (refused w) w"
    "wpM (WriteCheckpoint i g c) (\<lambda>_ _. False) (refused w) w"
    "wpM (ShortenLease i g dur) (\<lambda>_ _. False) (refused w) w"
  unfolding MarkWorkStarted_def RenewLease_def WriteCheckpoint_def ShortenLease_def Let_def
  by (simp_all, (intro impI wp_now update_fenced assms; simp)+)

lemma Settle_body_fenced:
  assumes "fenced_out i g (clock w) (db w)"
  shows "wpM (Settle_body redact i g tr) (\<lambda>_ _. False) (refused w) w"
  unfolding Settle_body_def GetForUpdate_def wp_bind
proof (rule wp_findTask, rule wp_now, goal_cases)
  case (1 fs t ts)
  let ?f = "find (\<lambda>r. task_ID r = i) (tasks (db w))"
  have "\<not> live_claim i g t r" if "?f = Some r" for r
    using that fenced_outD [OF assms, of t r] 1 by (auto simp: find_Some_iff)
  then show ?case using 1 by (cases ?f) auto
qed auto

lemma updateOperation_body_fenced:
  assumes "fenced_out i g (clock w) (db w)"
  shows "wpM (bindM (ValidateClaim i g) m) (\<lambda>_ _. False) (refused w) w"
  unfolding wp_bind using ValidateClaim_fenced [OF assms] by (rule wp_mono) auto

lemma runMaybeTx_fenced:
  assumes "fenced_out i g (clock w) (db w)"
    and "\<And>w'. fenced_out i g (clock w') (db w') \<Longrightarrow> wpM m (\<lambda>_ _. False) (refused w') w'"
  shows "wpM (runMaybeTx intx m) (\<lambda>_ _. False) (refused w) w"
proof -
  have "fenced_out i g (clock w') (db w')" if "db w' = db w" "later w w'" for w'
    using assms(1) that by (fastforce simp: fenced_out_def list_all_iff split: option.splits)
  then have "wpM (WithTx m) (\<lambda>_ _. False) (refused w) w"
    by (intro wp_WithTx wp_mono [OF assms(2)]) auto
  then show ?thesis unfolding runMaybeTx_def using assms(2) [OF assms(1)] by simp
qed

lemma updateOperation_fenced:
  assumes "fenced_out i g (clock w) (db w)"
  shows "wpM (updateOperation intx i g fn) (\<lambda>_ _. False) (refused w) w"
  unfolding updateOperation_def by (rule runMaybeTx_fenced [OF assms]) (rule updateOperation_body_fenced)

lemma exec_fenced_refused:
  assumes "fenced_out i g (clock w) (db w)"
  shows "wpM (exec_fenced redact intx i g f) (\<lambda>_ _. False) (refused w) w"
  using assms
  by (cases f) (auto simp: statements_fenced ValidateClaim_fenced updateOperation_fenced Settle_def
      ObserveOperation_def AdmitEffect_def ResolveOperation_def intro: runMaybeTx_fenced Settle_body_fenced)

section \<open>Claim tokens\<close>

text \<open>The contract behind the fence: a token never decreases, and a released token is not held again
  unless it has grown. Then a token that is not held, or that has been passed, is dead.\<close>

locale fenced_claims =
  fixes step :: "'s \<Rightarrow> 's \<Rightarrow> bool" and token :: "'s \<Rightarrow> int" and held :: "'s \<Rightarrow> bool"
  assumes token_mono: "step s s' \<Longrightarrow> token s \<le> token s'"
    and token_released: "step s s' \<Longrightarrow> \<not> held s \<Longrightarrow> token s' = token s \<Longrightarrow> \<not> held s'"
begin

lemma released_dead: "step s s' \<Longrightarrow> \<not> held s \<Longrightarrow> g \<le> token s \<Longrightarrow> \<not> (held s' \<and> token s' = g)"
  using token_mono [of s s'] token_released [of s s'] by auto

lemma passed_dead: "step s s' \<Longrightarrow> g < token s \<Longrightarrow> \<not> (held s' \<and> token s' = g)"
  using token_mono [of s s'] by auto

end

interpretation row_claims: fenced_claims row_step task_ClaimGeneration "\<lambda>r. task_Status r = TaskStatusRunning"
  by unfold_locales (auto simp: row_step_def)

lemma dead_row_fenced_out:
  assumes "tables_ok d" "row_of i d = Some r" "\<not> (task_Status r = TaskStatusRunning \<and> task_ClaimGeneration r = g)"
  shows "fenced_out i g n d"
proof -
  have "q = r" if "q \<in> set (tasks d)" "task_ID q = i" for q
    using row_of_unique [OF assms(1) that(1)] assms(2) that(2) by simp
  then show ?thesis using assms(3) by (auto simp: fenced_out_def list_all_iff)
qed

lemma refused_outcome:
  assumes "fenced_out i g (clock w) (db w)"
  shows "isl (fst (exec_fenced redact intx i g f w)) \<and> db (snd (exec_fenced redact intx i g f w)) = db w"
  using exec_fenced_refused [OF assms, of redact intx f] by (auto simp: wpM_def split: prod.splits sum.splits)

lemma dead_token_refused:
  assumes "run redact w w'" "wf_world w" "row_of i (db w) = Some r"
    and "g < task_ClaimGeneration r \<or> (task_Status r \<noteq> TaskStatusRunning \<and> g \<le> task_ClaimGeneration r)"
  shows "isl (fst (exec_fenced redact' intx i g f w')) \<and> db (snd (exec_fenced redact' intx i g f w')) = db w'"
proof -
  obtain r' where r': "wf_world w'" "row_of i (db w') = Some r'" "row_step r r'" using run_row [OF assms(1-3)] by blast
  then have "\<not> (task_Status r' = TaskStatusRunning \<and> task_ClaimGeneration r' = g)"
    using assms(4) row_claims.released_dead row_claims.passed_dead by blast
  then show ?thesis using r'(1,2) by (intro refused_outcome dead_row_fenced_out) (auto simp: wf_world_def)
qed

lemma row_of_update:
  assumes "\<And>r. task_ID (f r) = task_ID r"
  shows "row_of i (d\<lparr>tasks := update_where P f (tasks d)\<rparr>) = map_option (\<lambda>r. if P r then f r else r) (row_of i d)"
proof -
  have "find (\<lambda>r. task_ID r = i) (update_where P f rs) = map_option (\<lambda>r. if P r then f r else r) (find (\<lambda>r. task_ID r = i) rs)" for rs
    by (induction rs) (auto simp: update_where_def assms)
  then show ?thesis by (simp add: row_of_def)
qed

lemma row_of_simps [simp]:
  "row_of i (d\<lparr>task_events := ev\<rparr>) = row_of i d" "row_of i (d\<lparr>task_schedules := ss\<rparr>) = row_of i d"
  by (simp_all add: row_of_def)

text \<open>What a successful settlement did.\<close>

definition settled_to :: "(string \<Rightarrow> string) \<Rightarrow> int \<Rightarrow> int \<Rightarrow> TaskTransition \<Rightarrow> 'd tables world \<Rightarrow> 'd tables world \<Rightarrow> bool" where
  "settled_to redact i g tr w w' = (\<exists>r n rt. row_of i (db w) = Some r \<and> clock w \<le> n \<and> live_claim i g n r \<and>
     settled_runtime tr r = Some rt \<and> chk_tasks (settled_row redact n tr rt r) \<and>
     row_of i (db w') = Some (settled_row redact n tr rt r) \<and>
     (\<forall>j. j \<noteq> i \<longrightarrow> row_of j (db w') = row_of j (db w)))"

lemma wp_AppendEvent:
  assumes "\<And>w'. tasks (db w') = tasks (db w) \<Longrightarrow> domain (db w') = domain (db w) \<Longrightarrow> later w w' \<Longrightarrow> Q () w'"
  shows "wpM (AppendEvent i ty c) Q (\<lambda>_ _. True) w"
  unfolding AppendEvent_def
  by (auto simp: Let_def split: if_splits intro!: wp_now wp_stmtE assms)

lemma wp_update_tasks:
  assumes "\<And>fs. list_all (\<lambda>r. P r \<longrightarrow> chk_tasks (f r)) (tasks (db w)) \<Longrightarrow>
      Q (rows_affected P (tasks (db w))) (w\<lparr>db := (db w)\<lparr>tasks := update_where P f (tasks (db w))\<rparr>, faults := fs\<rparr>)"
    and "\<And>e fs. E (ErrDb e) (w\<lparr>faults := fs\<rparr>)"
  shows "wpM (update_tasks P f) Q E w"
  unfolding update_tasks_def by (rule wp_stmtE) (use assms in \<open>auto simp: update_result_def split: if_splits\<close>)

lemma row_of_tasks: "tasks d' = tasks d \<Longrightarrow> row_of i d' = row_of i d"
  by (simp add: row_of_def)

lemma row_of_update_claim:
  assumes "\<And>r. task_ID (f r) = task_ID r" "row_of i d = Some r"
  shows "row_of j (d\<lparr>tasks := update_where (live_claim i g t) f (tasks d)\<rparr>)
    = (if j = i \<and> live_claim i g t r then Some (f r) else row_of j d)"
proof (cases "row_of j d")
  case (Some q)
  then have "task_ID q = j" using row_of_Some by blast
  then show ?thesis using Some assms(2) by (auto simp: row_of_update [OF assms(1)] live_claim_def)
qed (use assms(2) in \<open>auto simp: row_of_update [OF assms(1)]\<close>)

lemma settled_row_id [simp]: "task_ID (settled_row redact n tr rt r) = task_ID r"
  by (simp add: settled_row_def)

lemma Settle_body_post:
  assumes "db w = db w0" "later w0 w"
  shows "wpM (Settle_body redact i g tr) (\<lambda>_. settled_to redact i g tr w0) (\<lambda>_ _. True) w"
  unfolding Settle_body_def GetForUpdate_def wp_bind
proof (rule wp_findTask, rule wp_now, goal_cases)
  case (1 fs t ts)
  show ?case
  proof (cases "row_of i (db w0)")
    case (Some r)
    then have find: "find (\<lambda>r. task_ID r = i) (tasks (db w)) = Some r" by (simp add: row_of_def assms)
    have settled: "settled_to redact i g tr w0 w'"
      if "tasks (db w') = update_where (live_claim i g t) (settled_row redact t tr rt) (tasks (db w0))"
        "live_claim i g t r" "settled_runtime tr r = Some rt"
        "list_all (\<lambda>q. live_claim i g t q \<longrightarrow> chk_tasks (settled_row redact t tr rt q)) (tasks (db w0))" for rt w'
    proof -
      have "row_of j (db w') = (if j = i then Some (settled_row redact t tr rt r) else row_of j (db w0))" for j
        using row_of_update_claim [of "settled_row redact t tr rt" i "db w0" r j g t] Some that(1,2)
        by (simp add: row_of_def)
      moreover have "chk_tasks (settled_row redact t tr rt r)" "clock w0 \<le> t"
        using that row_of_Some [OF Some] 1 assms(2) by (auto simp: list_all_iff)
      ultimately show ?thesis
        unfolding settled_to_def using Some that by (intro exI [of _ r] exI [of _ t] exI [of _ rt]) simp
    qed
    show ?thesis
    proof (cases "live_claim i g t r \<and> (\<exists>rt. settled_runtime tr r = Some rt)")
      case True
      then obtain rt where rt: "settled_runtime tr r = Some rt" by blast
      note s = settled [OF _ conjunct1 [OF True] rt]
      have ev: "wpM (case x of None \<Rightarrow> ret () | Some (ty, c) \<Rightarrow> AppendEvent i ty c) (\<lambda>_. settled_to redact i g tr w0) (\<lambda>_ _. True) w'"
        if "tasks (db w') = update_where (live_claim i g t) (settled_row redact t tr rt) (tasks (db w0))"
          "list_all (\<lambda>q. live_claim i g t q \<longrightarrow> chk_tasks (settled_row redact t tr rt q)) (tasks (db w0))" for x w'
        using that by (cases x) (auto intro!: wp_AppendEvent s)
      show ?thesis
        using True ev by (simp add: find rt Let_def, intro wp_update_tasks) (auto simp: assms(1))
    qed (auto simp: find)
  qed (use 1 assms in \<open>auto simp: row_of_def\<close>)
qed auto

lemma Settle_post: "wpM (Settle redact intx i g tr) (\<lambda>_ w'. validTaskTransition tr \<and> settled_to redact i g tr w w') (\<lambda>_ _. True) w"
proof -
  have "keeps world_step (Settle_body redact i g tr)"
    unfolding Settle_body_def by (intro keep row_step_keep) (auto simp: live_row settled_row_def)
  then have "wpM (runMaybeTx intx (Settle_body redact i g tr)) (\<lambda>_. settled_to redact i g tr w) (\<lambda>_ _. True) w"
    by (rule wp_runMaybeTx) (auto intro: Settle_body_post)
  then show ?thesis by (auto simp: Settle_def elim: wp_mono)
qed

lemma Settle_success:
  assumes "Settle redact intx i g tr w = (Inr (), w')"
  shows "validTaskTransition tr" "settled_to redact i g tr w w'"
  using Settle_post [of redact intx i g tr w] assms by (auto simp: wpM_def)

lemma valid_transition_not_running: "validTaskTransition tr \<Longrightarrow> tr_Status tr \<noteq> TaskStatusRunning"
  by (auto simp: validTaskTransition_def split: if_splits)

lemma world_step_wf: "keeps world_step m \<Longrightarrow> wf_world w \<Longrightarrow> m w = (x, w') \<Longrightarrow> wf_world w'"
  using keepsD [of world_step m w] by (simp add: world_step_def)

text \<open>C1: once a claim has been settled, the claim is dead: in every later state of every run, any
  operation under the same task id and claim generation is refused and changes nothing. In
  particular a claim is settled at most once.\<close>

theorem settled_claim_is_dead:
  assumes "wf_world w" "Settle redact intx i g tr w = (Inr (), w1)" "run redact w1 w2"
  shows "isl (fst (exec_fenced redact intx' i g f w2)) \<and> db (snd (exec_fenced redact intx' i g f w2)) = db w2"
proof -
  obtain r n rt where r: "live_claim i g n r" "row_of i (db w1) = Some (settled_row redact n tr rt r)"
    using Settle_success(2) [OF assms(2)] by (auto simp: settled_to_def)
  then show ?thesis
    using valid_transition_not_running [OF Settle_success(1) [OF assms(2)]] world_step_wf [OF keeps_Settle assms(1,2)]
    by (intro dead_token_refused [OF assms(3)]) (auto simp: settled_row_def live_claim_def)
qed

lemma example_wf: "wf_world (example_world [example_task])"
  by code_simp

lemma example_settle: "fst (Settle (\<lambda>s. s) False 1 1 complete_transition (example_world [example_task])) = Inr ()"
  by code_simp

theorem settled_claim_is_dead_witness:
  "let w = example_world [example_task]; w1 = snd (Settle (\<lambda>s. s) False 1 1 complete_transition w)
   in isl (fst (exec_fenced (\<lambda>s. s) True 1 1 OpValidateClaim w1)) \<and> db (snd (exec_fenced (\<lambda>s. s) True 1 1 OpValidateClaim w1)) = db w1"
  unfolding Let_def
  by (rule settled_claim_is_dead [OF example_wf _ run_refl]) (rule prod_eqI; simp add: example_settle)

text \<open>C17: a round that has finished (completed, failed or cancelled) keeps its outcome: no run changes
  its status, claim generation, finish time, failure, checkpoint or runtime, nor the columns that
  identify it.\<close>

theorem finished_round_is_final:
  assumes "wf_world w" "run redact w w'" "row_of i (db w) = Some r" "terminalTaskStatus (task_Status r)"
  shows "\<exists>r'. row_of i (db w') = Some r' \<and> same_columns r r' \<and> same_outcome r r'"
  using run_row [OF assms(2,1,3)] assms(4) by (auto simp: row_step_def)

theorem finished_round_is_final_witness:
  "let r = settled_row (\<lambda>s. s) 100 complete_transition (Raw (JObj [])) example_task;
       w = example_world [r]; w' = snd (exec_op (\<lambda>s. s) False (OpAcknowledgeFailed 1) w)
   in \<exists>r'. row_of 1 (db w') = Some r' \<and> same_columns r r' \<and> same_outcome r r'"
  unfolding Let_def
  by (rule finished_round_is_final [OF _ run_op [OF run_refl]]) code_simp+



end
