(* ===== verification/Worker_Policy.thy ===== *)
theory Worker_Policy
  imports Task_Runs
begin

text \<open>
  Execution policies of \<open>internal/worker/policy.go\<close>: retry budgets and backoff.

  A float64 is NaN, an infinity or a rational number; arithmetic on it is exact (rounding is not
  modelled), and a conversion to \<open>time.Duration\<close> truncates. The jitter source \<open>rand.Float64()\<close> is an
  argument \<open>rnd\<close> in [0, 1).
\<close>

section \<open>Policies\<close>

datatype float64 = NaN | Inf bool | Fin rat

record BackoffPolicy =
  InitialDelay :: duration
  Multiplier :: float64
  MaximumDelay :: duration
  Jitter :: float64

record ExecutionPolicy =
  MaxAttempts :: int
  DependencyRetries :: int
  Backoff :: BackoffPolicy
  ResendBackoff :: "BackoffPolicy option"
  InvocationTimeout :: duration
  ObservationWindow :: duration
  ObservationInterval :: duration
  WaitInterval :: duration

definition DefaultBackoffPolicy :: BackoffPolicy where
  "DefaultBackoffPolicy = \<lparr>InitialDelay = 10 * Second, Multiplier = Fin 2, MaximumDelay = 5 * Minute, Jitter = Fin (1 / 5)\<rparr>"

definition float_ge :: "float64 \<Rightarrow> rat \<Rightarrow> bool" where
  "float_ge x q = (case x of NaN \<Rightarrow> False | Inf neg \<Rightarrow> \<not> neg | Fin r \<Rightarrow> q \<le> r)"

definition float_le :: "float64 \<Rightarrow> rat \<Rightarrow> bool" where
  "float_le x q = (case x of NaN \<Rightarrow> False | Inf neg \<Rightarrow> neg | Fin r \<Rightarrow> r \<le> q)"

definition IsNaN :: "float64 \<Rightarrow> bool" where
  "IsNaN x = (case x of NaN \<Rightarrow> True | _ \<Rightarrow> False)"

definition IsInf :: "float64 \<Rightarrow> bool" where
  "IsInf x = (case x of Inf _ \<Rightarrow> True | _ \<Rightarrow> False)"

definition valid_backoff :: "BackoffPolicy \<Rightarrow> bool" where
  "valid_backoff p = (0 < InitialDelay p \<and> InitialDelay p \<le> MaximumDelay p \<and>
     \<not> IsNaN (Multiplier p) \<and> \<not> IsInf (Multiplier p) \<and> float_ge (Multiplier p) 1 \<and>
     \<not> IsNaN (Jitter p) \<and> \<not> IsInf (Jitter p) \<and> float_ge (Jitter p) 0 \<and> float_le (Jitter p) 1)"

definition validate_policy :: "ExecutionPolicy \<Rightarrow> error option" where
  "validate_policy p =
     (if MaxAttempts p < 1 \<or> DependencyRetries p < 0 \<or> InvocationTimeout p < 0 \<or> WaitInterval p < 0 \<or>
         ObservationWindow p < 0 \<or> ObservationInterval p < 0 \<or> \<not> valid_backoff (Backoff p) \<or>
         (case ResendBackoff p of None \<Rightarrow> False | Some b \<Rightarrow> \<not> valid_backoff b \<or> Jitter b \<noteq> Fin 0)
      then Some ErrInvalidPolicy else None)"

section \<open>Delays\<close>

text \<open>The value of a finite float; the policies that reach the delay code have passed
  \<open>valid_backoff\<close>, so the other cases do not arise.\<close>

definition fin :: "float64 \<Rightarrow> rat" where
  "fin x = (case x of Fin r \<Rightarrow> r | _ \<Rightarrow> 0)"

definition baseDelay :: "BackoffPolicy \<Rightarrow> int \<Rightarrow> rat" where
  "baseDelay p retryCount =
     min (of_int (MaximumDelay p)) (of_int (InitialDelay p) *
       (if 0 \<le> retryCount then fin (Multiplier p) ^ nat retryCount else inverse (fin (Multiplier p)) ^ nat (- retryCount)))"

definition truncate :: "rat \<Rightarrow> int" where
  "truncate q = (if 0 \<le> q then \<lfloor>q\<rfloor> else \<lceil>q\<rceil>)"

definition delay :: "BackoffPolicy \<Rightarrow> rat \<Rightarrow> int \<Rightarrow> duration" where
  "delay p rnd retryCount =
     min (truncate (baseDelay p retryCount * (1 - fin (Jitter p) + 2 * fin (Jitter p) * rnd))) (MaximumDelay p)"

definition ResendAt :: "ExecutionPolicy \<Rightarrow> time \<Rightarrow> int \<Rightarrow> error + time" where
  "ResendAt policy sentAt sends = (case ResendBackoff policy of None \<Rightarrow> Inl ErrInvalidPolicy
     | Some p \<Rightarrow> if sentAt = 0 \<or> sends < 1 \<or> \<not> valid_backoff p \<or> Jitter p \<noteq> Fin 0 then Inl ErrInvalidPolicy
                else Inr (sentAt + truncate (baseDelay p (sends - 1))))"

definition DependencyRetryAt :: "ExecutionPolicy \<Rightarrow> rat \<Rightarrow> time \<Rightarrow> int \<Rightarrow> time option" where
  "DependencyRetryAt policy rnd n retries =
     (if retries < 0 \<or> DependencyRetries policy \<le> retries then None else Some (n + delay (Backoff policy) rnd retries))"

lemma valid_backoffE:
  assumes "valid_backoff p"
  obtains m j where "Multiplier p = Fin m" "1 \<le> m" "Jitter p = Fin j" "0 \<le> j" "j \<le> 1"
    "0 < InitialDelay p" "InitialDelay p \<le> MaximumDelay p"
  using assms unfolding valid_backoff_def IsNaN_def IsInf_def float_ge_def float_le_def
  by (cases "Multiplier p"; cases "Jitter p") auto

lemma baseDelay_bounds:
  assumes "valid_backoff p" "0 \<le> n"
  shows "of_int (InitialDelay p) \<le> baseDelay p n" "baseDelay p n \<le> of_int (MaximumDelay p)"
proof -
  obtain m where m: "Multiplier p = Fin m" "1 \<le> m" "0 < InitialDelay p" "InitialDelay p \<le> MaximumDelay p"
    using assms(1) by (rule valid_backoffE)
  then have "of_int (InitialDelay p) * 1 \<le> of_int (InitialDelay p) * m ^ nat n"
    by (intro mult_left_mono) (auto simp: one_le_power)
  then show "of_int (InitialDelay p) \<le> baseDelay p n" using m assms(2) by (simp add: baseDelay_def fin_def)
  show "baseDelay p n \<le> of_int (MaximumDelay p)" by (simp add: baseDelay_def)
qed

lemma baseDelay_mono:
  assumes "valid_backoff p" "0 \<le> n" "n \<le> k"
  shows "baseDelay p n \<le> baseDelay p k"
proof -
  obtain m where m: "Multiplier p = Fin m" "1 \<le> m" "0 < InitialDelay p" using assms(1) by (rule valid_backoffE)
  then have "of_int (InitialDelay p) * m ^ nat n \<le> of_int (InitialDelay p) * m ^ nat k"
    using assms(3) by (intro mult_left_mono power_increasing) auto
  then show ?thesis using m assms(2,3) by (simp add: baseDelay_def fin_def min_le_iff_disj)
qed

lemma delay_bounds:
  assumes "valid_backoff p" "0 \<le> n" "0 \<le> rnd" "rnd < 1"
  shows "\<lfloor>of_int (InitialDelay p) * (1 - fin (Jitter p))\<rfloor> \<le> delay p rnd n" "0 \<le> delay p rnd n" "delay p rnd n \<le> MaximumDelay p"
proof -
  obtain m j where mj: "Multiplier p = Fin m" "1 \<le> m" "Jitter p = Fin j" "0 \<le> j" "j \<le> 1"
    "0 < InitialDelay p" "InitialDelay p \<le> MaximumDelay p"
    using assms(1) by (rule valid_backoffE)
  note b = baseDelay_bounds [OF assms(1,2)]
  have "0 \<le> of_int (InitialDelay p) * (1 - j)" using mj by simp
  moreover have lower: "of_int (InitialDelay p) * (1 - j) \<le> baseDelay p n * (1 - j + 2 * j * rnd)"
    using mj assms(3) b by (intro mult_mono) auto
  ultimately have pos: "0 \<le> baseDelay p n * (1 - j + 2 * j * rnd)" by linarith
  have "\<lfloor>of_int (InitialDelay p) * (1 - j)\<rfloor> \<le> MaximumDelay p"
  proof -
    have "of_int (InitialDelay p) * (1 - j) \<le> of_int (InitialDelay p)" using mj by (simp add: mult_left_le)
    then show ?thesis using mj(7) by (simp add: floor_le_iff)
  qed
  then show "\<lfloor>of_int (InitialDelay p) * (1 - fin (Jitter p))\<rfloor> \<le> delay p rnd n"
    using floor_mono [OF lower] pos mj(3) by (simp add: delay_def truncate_def fin_def)
  show "0 \<le> delay p rnd n" using pos mj by (simp add: delay_def truncate_def fin_def)
  show "delay p rnd n \<le> MaximumDelay p" by (simp add: delay_def)
qed



end
