(* ===== verification/Worker_Registry.thy ===== *)
theory Worker_Registry
  imports Worker_Policy
begin

text \<open>
  The task contract and its registry: \<open>internal/worker/contract.go\<close> (definitions, results, codecs,
  identities), \<open>registry.go\<close>, \<open>messenger.go\<close>, \<open>func_handler.go\<close> and the declarations of
  \<open>scheduler.go\<close> and \<open>periodic.go\<close>.

  A settlement, a handler and a message receiver are database actions; a nil function is \<open>None\<close>.
  A Go map is an association list with distinct keys. A value passed as \<open>any\<close> is its JSON form, or
  \<open>None\<close> when it does not marshal. A panic of a settlement or receiver is one of its errors, as the
  code turns it into one.
\<close>

section \<open>Results\<close>

datatype ResultKind = resultInvalid | resultComplete | resultWait | resultRetry | resultFail | resultCancel

type_synonym 'd Settlement = "('d, unit) DB option"
type_synonym 'd RetrySettlement = "(time \<Rightarrow> ('d, unit) DB) option"

record observationWindow =
  stageKey :: string
  timeoutErr :: "error option"
  timeoutRetryMode :: TaskResumeMode

record 'd Result =
  r_kind :: ResultKind
  r_waitUntil :: "time option"
  r_observationWait :: bool
  r_observationWindow :: "observationWindow option"
  r_resumeMode :: TaskResumeMode
  r_waitReason :: string
  r_failureReason :: string
  r_err :: "error option"
  r_diagnostic :: "error option"
  r_message :: string
  r_settlement :: "'d Settlement"
  r_contentionSettlement :: "'d Settlement"
  r_onRetry :: "'d RetrySettlement"
  r_onExhausted :: "'d Settlement"
  r_workStartedAt :: "time option"

definition zero_result :: "'d Result" where
  "zero_result = \<lparr>r_kind = resultInvalid, r_waitUntil = None, r_observationWait = False, r_observationWindow = None,
     r_resumeMode = TaskResumeModeOther '''', r_waitReason = '''', r_failureReason = '''', r_err = None, r_diagnostic = None,
     r_message = '''', r_settlement = None, r_contentionSettlement = None, r_onRetry = None, r_onExhausted = None,
     r_workStartedAt = None\<rparr>"

definition WithDiagnostic :: "error option \<Rightarrow> 'd Result \<Rightarrow> 'd Result" where
  "WithDiagnostic e r = r\<lparr>r_diagnostic := e\<rparr>"

definition WithContentionSettlement :: "'d Settlement \<Rightarrow> 'd Result \<Rightarrow> 'd Result" where
  "WithContentionSettlement s r = r\<lparr>r_contentionSettlement := s\<rparr>"

definition WithObservationWindow :: "string \<Rightarrow> error option \<Rightarrow> TaskResumeMode \<Rightarrow> 'd Result \<Rightarrow> 'd Result" where
  "WithObservationWindow key e mode r = r\<lparr>r_observationWindow := Some \<lparr>stageKey = key, timeoutErr = e, timeoutRetryMode = mode\<rparr>\<rparr>"

definition WithWorkStartedAt :: "time \<Rightarrow> 'd Result \<Rightarrow> 'd Result" where
  "WithWorkStartedAt t r = (if t \<noteq> 0 then r\<lparr>r_workStartedAt := Some t\<rparr> else r)"

definition WithRetrySettlements :: "'d RetrySettlement \<Rightarrow> 'd Settlement \<Rightarrow> 'd Result \<Rightarrow> 'd Result" where
  "WithRetrySettlements a b r = r\<lparr>r_onRetry := a, r_onExhausted := b\<rparr>"

definition WithResumeMode :: "TaskResumeMode \<Rightarrow> 'd Result \<Rightarrow> 'd Result" where
  "WithResumeMode mode r = r\<lparr>r_resumeMode := mode\<rparr>"

definition Complete :: "string \<Rightarrow> 'd Settlement \<Rightarrow> 'd Result" where
  "Complete message s = zero_result\<lparr>r_kind := resultComplete, r_message := message, r_settlement := s\<rparr>"

definition Wait :: "TaskResumeMode \<Rightarrow> string \<Rightarrow> string \<Rightarrow> 'd Settlement \<Rightarrow> 'd Result" where
  "Wait mode reason message s = zero_result\<lparr>r_kind := resultWait, r_resumeMode := mode, r_waitReason := reason,
     r_message := message, r_settlement := s\<rparr>"

definition WaitForObservation :: "TaskResumeMode \<Rightarrow> string \<Rightarrow> string \<Rightarrow> 'd Settlement \<Rightarrow> 'd Result" where
  "WaitForObservation mode reason message s = (Wait mode reason message s)\<lparr>r_observationWait := True\<rparr>"

definition WaitUntil :: "TaskResumeMode \<Rightarrow> time \<Rightarrow> string \<Rightarrow> string \<Rightarrow> 'd Settlement \<Rightarrow> 'd Result" where
  "WaitUntil mode until reason message s = (Wait mode reason message s)\<lparr>r_waitUntil := Some until\<rparr>"

definition Retry_result :: "error option \<Rightarrow> string \<Rightarrow> 'd Settlement \<Rightarrow> 'd Result" where
  "Retry_result e reason s = zero_result\<lparr>r_kind := resultRetry, r_resumeMode := TaskResumeModeRecover,
     r_failureReason := reason, r_err := e, r_settlement := s\<rparr>"

definition RetryInMode :: "error option \<Rightarrow> string \<Rightarrow> TaskResumeMode \<Rightarrow> 'd Settlement \<Rightarrow> 'd Result" where
  "RetryInMode e reason mode s = WithResumeMode mode (Retry_result e reason s)"

definition Fail_result :: "error option \<Rightarrow> string \<Rightarrow> 'd Settlement \<Rightarrow> 'd Result" where
  "Fail_result e reason s = zero_result\<lparr>r_kind := resultFail, r_err := e, r_failureReason := reason, r_settlement := s\<rparr>"

definition Cancel_result :: "string \<Rightarrow> 'd Settlement \<Rightarrow> 'd Result" where
  "Cancel_result message s = zero_result\<lparr>r_kind := resultCancel, r_message := message, r_settlement := s\<rparr>"

section \<open>Definitions, codecs, identities\<close>

datatype codec_outcome = CodecOk raw | CodecErr error | CodecPanic

type_synonym Codec = "raw \<Rightarrow> codec_outcome"

definition canonicalizeInput :: "Codec option \<Rightarrow> raw \<Rightarrow> error + raw" where
  "canonicalizeInput codec input = (case codec of None \<Rightarrow> Inl ErrInvalidCanonical
     | Some c \<Rightarrow> (case c input of CodecPanic \<Rightarrow> Inl ErrCodecPanic | CodecErr e \<Rightarrow> Inl e
        | CodecOk canonical \<Rightarrow> (case canonical of Raw _ \<Rightarrow> Inr canonical | _ \<Rightarrow> Inl ErrInvalidCanonical)))"

datatype WorkStartPolicy = WorkStartOnHandler | WorkStartOnEffect | WorkStartOther nat

record Identity =
  id_SubjectType :: string
  id_SubjectKey :: string
  id_Generation :: "int option"

definition IdentityFromInput :: "string \<Rightarrow> (raw \<Rightarrow> (int \<times> int) option) \<Rightarrow> raw \<Rightarrow> error + Identity" where
  "IdentityFromInput subjectType identify canonical = (case identify canonical of
      None \<Rightarrow> Inl (ErrText ''decoding task identity'')
    | Some (rowID, generation) \<Rightarrow>
        if rowID \<le> 0 \<or> generation < 0 then Inl (ErrText ''task identity needs a positive row ID and a non-negative generation'')
        else Inr \<lparr>id_SubjectType = subjectType, id_SubjectKey = Sprint_int rowID, id_Generation = Some generation\<rparr>)"

text \<open>The input of a scheduled task, \<open>{"cycle": n}\<close>: the strict codec refuses other fields and
  values that are not a positive cycle.\<close>

definition encode_cycle :: "int \<Rightarrow> raw" where
  "encode_cycle n = Raw (JObj [(''cycle'', JInt n)])"

definition decode_cycle :: "raw \<Rightarrow> int option" where
  "decode_cycle r = (case r of Raw (JObj fs) \<Rightarrow> field_int (map_of fs ''cycle'') | Raw JNull \<Rightarrow> Some 0 | _ \<Rightarrow> None)"

definition CycleCodec :: Codec where
  "CycleCodec input = (case input of
      Raw (JObj fs) \<Rightarrow> if \<exists>k \<in> fst ` set fs. k \<noteq> ''cycle'' then CodecErr (ErrText ''decoding task input'')
        else (case decode_cycle input of None \<Rightarrow> CodecErr (ErrText ''decoding task input'')
          | Some n \<Rightarrow> if n < 1 then CodecErr (ErrText ''cycle must be positive'') else CodecOk (encode_cycle n))
    | Raw JNull \<Rightarrow> CodecErr (ErrText ''cycle must be positive'')
    | _ \<Rightarrow> CodecErr (ErrText ''decoding task input''))"

definition CycleIdentity :: "string \<Rightarrow> raw \<Rightarrow> error + Identity" where
  "CycleIdentity subjectKey canonical = (case decode_cycle canonical of None \<Rightarrow> Inl (ErrText ''decoding task identity'')
     | Some n \<Rightarrow> Inr \<lparr>id_SubjectType = ''system'', id_SubjectKey = subjectKey, id_Generation = Some n\<rparr>)"

record EnqueueRequest =
  req_Type :: TaskType
  req_Input :: "raw option"
  req_AvailableAt :: time

record 'd RetryPreparation =
  prep_Request :: EnqueueRequest
  prep_Checkpoint :: raw
  prep_ResumeMode :: TaskResumeMode
  prep_Validate :: "(Task \<Rightarrow> ('d, unit) DB) option"
  prep_Bind :: "(Task \<Rightarrow> Task \<Rightarrow> ('d, unit) DB) option"

record 'd Definition =
  def_Type :: TaskType
  def_MaxConcurrency :: int
  def_WorkStart :: WorkStartPolicy
  def_InputVersion :: int
  def_Codec :: "Codec option"
  def_Policy :: ExecutionPolicy
  def_AllowRetry :: bool
  def_CanManualRetry :: "(Task \<Rightarrow> bool) option"
  def_OnEngineFailure :: "(Task \<Rightarrow> string \<Rightarrow> 'd Settlement) option"
  def_Identity :: "(raw \<Rightarrow> error + Identity) option"
  def_InspectRetry :: "(Task \<Rightarrow> ('d, unit) DB) option"
  def_PrepareRetry :: "(Task \<Rightarrow> ('d, 'd RetryPreparation) DB) option"
  def_BindSuccessor :: "(Task \<Rightarrow> Task \<Rightarrow> ('d, unit) DB) option"
  def_RetryCheckpoint :: "(Task \<Rightarrow> ('d, raw) DB) option"
  def_NextCycleCheckpoint :: "(Task \<Rightarrow> ('d, raw) DB) option"

definition manualRetryAllowed :: "'d Definition \<Rightarrow> Task \<Rightarrow> bool" where
  "manualRetryAllowed d task = (def_AllowRetry d \<and> (case def_CanManualRetry d of None \<Rightarrow> True | Some f \<Rightarrow> f task))"

definition validate_definition :: "'d Definition \<Rightarrow> error option" where
  "validate_definition d =
     (if def_Type d = '''' \<or> def_InputVersion d < 1 \<or> (case def_Codec d of None \<Rightarrow> True | Some _ \<Rightarrow> False) \<or>
         (case def_Identity d of None \<Rightarrow> True | Some _ \<Rightarrow> False) \<or> def_MaxConcurrency d < 0
      then Some (ErrText ''incomplete definition'')
      else (case validate_policy (def_Policy d) of Some e \<Rightarrow> Some e
        | None \<Rightarrow> if def_WorkStart d \<noteq> WorkStartOnHandler \<and> def_WorkStart d \<noteq> WorkStartOnEffect
                 then Some (ErrText ''work start policy is required'') else None))"

section \<open>Handlers\<close>

text \<open>The code of a handler, on its fenced claim and policy. An error of the action is a panic: a handler
  reports its own failures in the result it returns.\<close>

type_synonym 'd handler_fun = "Task \<Rightarrow> ExecutionPolicy \<Rightarrow> ('d, 'd Result) DB"

record 'd Handler =
  h_Definition :: "'d Definition"
  h_Execute :: "'d handler_fun"
  h_Recover :: "'d handler_fun"

definition NewFuncHandler :: "'d Definition \<Rightarrow> 'd handler_fun option \<Rightarrow> 'd handler_fun option \<Rightarrow> 'd Handler" where
  "NewFuncHandler d execute recover = \<lparr>h_Definition = d,
     h_Execute = (case execute of None \<Rightarrow> (\<lambda>_ _. ret (Fail_result (Some (ErrText ''execute handler is unavailable'')) ''handler_unavailable'' None)) | Some f \<Rightarrow> f),
     h_Recover = (case recover of None \<Rightarrow> (\<lambda>_ _. ret (Fail_result (Some (ErrText ''recover handler is unavailable'')) ''handler_unavailable'' None)) | Some f \<Rightarrow> f)\<rparr>"

section \<open>The registry\<close>

record ScheduleDefinition =
  sd_Key :: string
  sd_Type :: TaskType
  sd_Interval :: duration

record Scheduler =
  s_owner :: string
  s_types :: "TaskType list"

record Message =
  m_Type :: string
  m_Payload :: json

datatype messageMode = messageHandover | messageNotice

type_synonym 'd MessageHandler = "nat \<Rightarrow> Message \<Rightarrow> ('d, unit) DB"

record 'd messageReceiver =
  mr_id :: string
  mr_handler :: "'d MessageHandler"

record 'd messageRoute =
  route_mode :: messageMode
  route_receivers :: "'d messageReceiver list"

record Messenger =
  ms_producer :: string
  ms_handovers :: "string list"
  ms_notices :: "string list"

record 'd Registry =
  reg_handlers :: "(TaskType \<times> 'd Handler) list"
  reg_definitions :: "(TaskType \<times> 'd Definition) list"
  reg_schedulers :: "Scheduler list"
  reg_periodic :: "ScheduleDefinition list"
  reg_producers :: "(string \<times> Messenger) list"
  reg_messages :: "(string \<times> 'd messageRoute) list"
  reg_messageIDs :: "string list"
  reg_frozen :: bool

definition NewRegistry :: "'d Registry" where
  "NewRegistry = \<lparr>reg_handlers = [], reg_definitions = [], reg_schedulers = [], reg_periodic = [], reg_producers = [],
     reg_messages = [], reg_messageIDs = [], reg_frozen = False\<rparr>"

text \<open>A registration returns its error, or the changed registry.\<close>

definition Register :: "'d Handler option \<Rightarrow> 'd Registry \<Rightarrow> error + 'd Registry" where
  "Register handler r = (case handler of None \<Rightarrow> Inl ErrUnknownType
   | Some h \<Rightarrow>
     let d0 = h_Definition h;
         d = d0\<lparr>def_Policy := (def_Policy d0)\<lparr>ObservationInterval :=
               (if ObservationInterval (def_Policy d0) = 0 then 30 * Second else ObservationInterval (def_Policy d0))\<rparr>\<rparr>
     in (case validate_definition d of Some e \<Rightarrow> Inl e
        | None \<Rightarrow>
          if reg_frozen r then Inl ErrRegistryFrozen
          else if def_Type d \<in> set (map fst (reg_handlers r)) then Inl (ErrText ''handler already registered'')
          else Inr (r\<lparr>reg_handlers := reg_handlers r @ [(def_Type d, h)], reg_definitions := reg_definitions r @ [(def_Type d, d)]\<rparr>)))"

definition registry_Definition :: "'d Registry \<Rightarrow> TaskType \<Rightarrow> 'd Definition option" where
  "registry_Definition r ty = map_of (reg_definitions r) ty"

definition registry_Handler :: "'d Registry \<Rightarrow> TaskType \<Rightarrow> 'd Handler option" where
  "registry_Handler r ty = map_of (reg_handlers r) ty"

definition registry_Types :: "'d Registry \<Rightarrow> TaskType list" where
  "registry_Types r = sort (map fst (reg_handlers r))"

definition RegisterSchedule :: "ScheduleDefinition \<Rightarrow> 'd Registry \<Rightarrow> error + 'd Registry" where
  "RegisterSchedule d r =
     (if sd_Key d = '''' \<or> \<not> IsRecurringSystem (sd_Type d) \<or> sd_Interval d \<le> 0 then Inl ErrInvalidInput
      else if reg_frozen r then Inl ErrRegistryFrozen
      else if \<exists>x \<in> set (reg_periodic r). sd_Key x = sd_Key d \<or> sd_Type x = sd_Type d then Inl ErrConflict
      else if sd_Type d \<notin> set (map fst (reg_definitions r)) then Inl ErrUnknownType
      else Inr (r\<lparr>reg_periodic := reg_periodic r @ [d]\<rparr>))"

definition scheduleFor :: "'d Registry \<Rightarrow> TaskType \<Rightarrow> ScheduleDefinition option" where
  "scheduleFor r ty = find (\<lambda>d. sd_Type d = ty) (reg_periodic r)"

definition new_Scheduler :: "string \<Rightarrow> TaskType list \<Rightarrow> 'd Registry \<Rightarrow> error + (Scheduler \<times> 'd Registry)" where
  "new_Scheduler owner types r =
     (if TrimSpace owner = '''' \<or> types = [] then Inl ErrInvalidInput
      else if '''' \<in> set types then Inl ErrInvalidInput
      else if reg_frozen r then Inl ErrRegistryFrozen
      else let s = \<lparr>s_owner = owner, s_types = remdups types\<rparr> in Inr (s, r\<lparr>reg_schedulers := reg_schedulers r @ [s]\<rparr>))"

definition set_assoc :: "'k \<Rightarrow> 'v \<Rightarrow> ('k \<times> 'v) list \<Rightarrow> ('k \<times> 'v) list" where
  "set_assoc k v xs = (if k \<in> set (map fst xs) then map (\<lambda>(k', v'). if k' = k then (k, v) else (k', v')) xs else xs @ [(k, v)])"

definition registerMessage :: "string \<Rightarrow> string \<Rightarrow> messageMode \<Rightarrow> 'd MessageHandler option \<Rightarrow> 'd Registry \<Rightarrow> error + 'd Registry" where
  "registerMessage i kind mode handler r = (case handler of None \<Rightarrow> Inl ErrInvalidInput
   | Some h \<Rightarrow>
     if TrimSpace i = '''' \<or> TrimSpace kind = '''' then Inl ErrInvalidInput
     else if reg_frozen r then Inl ErrRegistryFrozen
     else if i \<in> set (reg_messageIDs r) then Inl (ErrText ''message handler is already registered'')
     else (case map_of (reg_messages r) kind of
         Some route \<Rightarrow>
           if route_mode route \<noteq> mode then Inl (ErrText ''message cannot be both handover and notice'')
           else if mode = messageHandover \<and> length (route_receivers route) \<noteq> 0 then Inl (ErrText ''handover already has an owner'')
           else Inr (r\<lparr>reg_messages := set_assoc kind (route\<lparr>route_receivers := route_receivers route @ [\<lparr>mr_id = i, mr_handler = h\<rparr>]\<rparr>) (reg_messages r),
                       reg_messageIDs := reg_messageIDs r @ [i]\<rparr>)
       | None \<Rightarrow> Inr (r\<lparr>reg_messages := set_assoc kind \<lparr>route_mode = mode, route_receivers = [\<lparr>mr_id = i, mr_handler = h\<rparr>]\<rparr> (reg_messages r),
                       reg_messageIDs := reg_messageIDs r @ [i]\<rparr>)))"

definition OwnHandover :: "string \<Rightarrow> string \<Rightarrow> 'd MessageHandler option \<Rightarrow> 'd Registry \<Rightarrow> error + 'd Registry" where
  "OwnHandover i kind handler r = registerMessage i kind messageHandover handler r"

definition Subscribe :: "string \<Rightarrow> string \<Rightarrow> 'd MessageHandler option \<Rightarrow> 'd Registry \<Rightarrow> error + 'd Registry" where
  "Subscribe i kind handler r = registerMessage i kind messageNotice handler r"

definition new_Messenger :: "string \<Rightarrow> string list \<Rightarrow> string list \<Rightarrow> 'd Registry \<Rightarrow> error + (Messenger \<times> 'd Registry)" where
  "new_Messenger producer handovers notices r =
     (if TrimSpace producer = '''' then Inl ErrInvalidInput
      else if \<exists>k \<in> set (handovers @ notices). TrimSpace k = '''' then Inl ErrInvalidInput
      else if \<exists>k \<in> set handovers. k \<in> set notices then Inl (ErrText ''declared as both handover and notice'')
      else if reg_frozen r then Inl ErrRegistryFrozen
      else if producer \<in> set (map fst (reg_producers r)) then Inl (ErrText ''message producer is already declared'')
      else let m = \<lparr>ms_producer = producer, ms_handovers = remdups handovers, ms_notices = remdups notices\<rparr>
           in Inr (m, r\<lparr>reg_producers := reg_producers r @ [(producer, m)]\<rparr>))"

text \<open>\<open>validateMessages\<close>: the declarations of all producers, each checked against its route, then every
  route against the declarations.\<close>

definition declarations :: "'d Registry \<Rightarrow> (string \<times> messageMode) list" where
  "declarations r = concat (map (\<lambda>(_, p). map (\<lambda>k. (k, messageHandover)) (ms_handovers p) @ map (\<lambda>k. (k, messageNotice)) (ms_notices p)) (reg_producers r))"

definition route_matches :: "'d Registry \<Rightarrow> string \<times> messageMode \<Rightarrow> bool" where
  "route_matches r d = (case map_of (reg_messages r) (fst d) of None \<Rightarrow> False
     | Some route \<Rightarrow> route_mode route = snd d \<and> length (route_receivers route) \<noteq> 0)"

definition validateMessages :: "'d Registry \<Rightarrow> error option" where
  "validateMessages r =
     (let ds = declarations r in
      if \<exists>(k, m) \<in> set ds. \<exists>(k', m') \<in> set ds. k' = k \<and> m' \<noteq> m then Some (ErrText ''declared as both handover and notice'')
      else if \<exists>d \<in> set ds. \<not> route_matches r d then Some (ErrText ''no matching receiver'')
      else if \<exists>(k, route) \<in> set (reg_messages r). (k, route_mode route) \<notin> set ds then Some (ErrText ''no matching producer'')
      else None)"

definition freeze :: "'d Registry \<Rightarrow> error + 'd Registry" where
  "freeze r =
     (if reg_frozen r then Inr r
      else if \<exists>s \<in> set (reg_schedulers r). \<exists>t \<in> set (s_types s). t \<notin> set (map fst (reg_definitions r)) then Inl ErrUnknownType
      else (case validateMessages r of Some e \<Rightarrow> Inl e
        | None \<Rightarrow> Inr (r\<lparr>reg_messages := map (\<lambda>(k, route). (k, route\<lparr>route_receivers := sort_key mr_id (route_receivers route)\<rparr>)) (reg_messages r),
                         reg_frozen := True\<rparr>)))"

section \<open>Dispatch\<close>

definition requireTransaction :: "bool \<Rightarrow> ('d, unit) DB" where
  "requireTransaction intx = guardM intx ErrInvalidInput"

fun invoke_receivers :: "nat \<Rightarrow> Message \<Rightarrow> 'd messageReceiver list \<Rightarrow> ('d, unit) DB" where
  "invoke_receivers depth message [] = ret ()"
| "invoke_receivers depth message (rc # rcs) =
     bindM (mr_handler rc depth message) (\<lambda>_. invoke_receivers depth message rcs)"

definition dispatch :: "'d Registry \<Rightarrow> Messenger \<Rightarrow> bool \<Rightarrow> nat \<Rightarrow> Message option \<Rightarrow> messageMode \<Rightarrow> ('d, unit) DB" where
  "dispatch reg m intx depth message mode = (case message of None \<Rightarrow> fail ErrInvalidInput
   | Some msg \<Rightarrow>
     bindM (requireTransaction intx) (\<lambda>_.
     let kind = m_Type msg; permissions = (if mode = messageNotice then ms_notices m else ms_handovers m) in
     if kind \<notin> set permissions then fail ErrInvalidInput
     else if \<not> reg_frozen reg then fail (ErrText ''message registry must be frozen before dispatch'')
     else (case map_of (reg_messages reg) kind of None \<Rightarrow> fail (ErrText ''no matching route'')
       | Some route \<Rightarrow>
         if route_mode route \<noteq> mode then fail (ErrText ''no matching route'')
         else if 8 \<le> depth then fail (ErrText ''exceeds maximum dispatch depth 8'')
         else invoke_receivers (depth + 1) msg (route_receivers route))))"

definition Handover :: "'d Registry \<Rightarrow> Messenger \<Rightarrow> bool \<Rightarrow> nat \<Rightarrow> Message option \<Rightarrow> ('d, unit) DB" where
  "Handover reg m intx depth message = dispatch reg m intx depth message messageHandover"

definition Notify :: "'d Registry \<Rightarrow> Messenger \<Rightarrow> bool \<Rightarrow> nat \<Rightarrow> Message option \<Rightarrow> ('d, unit) DB" where
  "Notify reg m intx depth message = dispatch reg m intx depth message messageNotice"

section \<open>Reachable registries\<close>

inductive reachable :: "'d Registry \<Rightarrow> bool" where
  reach_new: "reachable NewRegistry"
| reach_register: "reachable r \<Longrightarrow> Register h r = Inr r' \<Longrightarrow> reachable r'"
| reach_schedule: "reachable r \<Longrightarrow> RegisterSchedule d r = Inr r' \<Longrightarrow> reachable r'"
| reach_scheduler: "reachable r \<Longrightarrow> new_Scheduler owner types r = Inr (s, r') \<Longrightarrow> reachable r'"
| reach_message: "reachable r \<Longrightarrow> registerMessage i kind mode f r = Inr r' \<Longrightarrow> reachable r'"
| reach_messenger: "reachable r \<Longrightarrow> new_Messenger p hs ns r = Inr (m, r') \<Longrightarrow> reachable r'"
| reach_freeze: "reachable r \<Longrightarrow> freeze r = Inr r' \<Longrightarrow> reachable r'"

definition routes_ok :: "(string \<times> 'd messageRoute) list \<Rightarrow> bool" where
  "routes_ok ms = (distinct (map fst ms) \<and>
     (\<forall>(k, route) \<in> set ms. route_receivers route \<noteq> [] \<and> (route_mode route = messageHandover \<longrightarrow> length (route_receivers route) = 1)))"

definition definitions_ok :: "'d Registry \<Rightarrow> bool" where
  "definitions_ok r = (distinct (map fst (reg_definitions r)) \<and> map fst (reg_handlers r) = map fst (reg_definitions r) \<and>
     (\<forall>(t, d) \<in> set (reg_definitions r). def_Type d = t \<and> validate_definition d = None \<and> ObservationInterval (def_Policy d) \<noteq> 0))"

definition schedules_ok :: "'d Registry \<Rightarrow> bool" where
  "schedules_ok r = (distinct (map sd_Key (reg_periodic r)) \<and> distinct (map sd_Type (reg_periodic r)) \<and>
     (\<forall>d \<in> set (reg_periodic r). 0 < sd_Interval d \<and> IsRecurringSystem (sd_Type d) \<and> sd_Type d \<in> set (map fst (reg_definitions r))))"

definition frozen_ok :: "'d Registry \<Rightarrow> bool" where
  "frozen_ok r = (reg_frozen r \<longrightarrow> list_all (route_matches r) (declarations r) \<and>
     (\<forall>s \<in> set (reg_schedulers r). set (s_types s) \<subseteq> set (map fst (reg_definitions r))))"

definition registry_ok :: "'d Registry \<Rightarrow> bool" where
  "registry_ok r = (routes_ok (reg_messages r) \<and> definitions_ok r \<and> schedules_ok r \<and> frozen_ok r)"

lemma set_assoc_keys: "distinct (map fst xs) \<Longrightarrow> distinct (map fst (set_assoc k v xs))"
proof -
  assume d: "distinct (map fst xs)"
  have "map fst (map (\<lambda>(k', v'). if k' = k then (k, v) else (k', v')) xs) = map fst xs" by (induction xs) auto
  then show ?thesis using d by (auto simp: set_assoc_def simp del: map_map)
qed

lemma routes_ok_set_assoc:
  assumes "routes_ok ms" "route_receivers route \<noteq> []" "route_mode route = messageHandover \<Longrightarrow> length (route_receivers route) = 1"
  shows "routes_ok (set_assoc k route ms)"
proof -
  have "set (set_assoc k route ms) \<subseteq> insert (k, route) (set ms)" by (auto simp: set_assoc_def split: if_splits)
  then show ?thesis using assms set_assoc_keys [of ms k route] unfolding routes_ok_def by blast
qed

lemma registerMessage_keeps:
  assumes "registerMessage i kind mode f r = Inr r'" "registry_ok r"
  shows "registry_ok r'"
proof -
  have r: "\<not> reg_frozen r" "routes_ok (reg_messages r)" using assms
    by (auto simp: registerMessage_def registry_ok_def split: option.splits if_splits)
  have "routes_ok (reg_messages r')"
    using assms(1) r(2)
    by (auto simp: registerMessage_def routes_ok_def [of "reg_messages r"] split: option.splits if_splits
        intro!: routes_ok_set_assoc [OF r(2)])
  moreover have "definitions_ok r'" "schedules_ok r'" "frozen_ok r'"
    using assms r(1) by (auto simp: registerMessage_def registry_ok_def definitions_ok_def schedules_ok_def frozen_ok_def
        split: option.splits if_splits)
  ultimately show ?thesis by (simp add: registry_ok_def)
qed

lemma Register_keeps:
  assumes "Register h r = Inr r'" "registry_ok r"
  shows "registry_ok r'"
proof -
  obtain hd d where d: "h = Some hd" "validate_definition d = None" "\<not> reg_frozen r" "ObservationInterval (def_Policy d) \<noteq> 0"
    "def_Type d \<notin> set (map fst (reg_handlers r))"
    "r' = r\<lparr>reg_handlers := reg_handlers r @ [(def_Type d, hd)], reg_definitions := reg_definitions r @ [(def_Type d, d)]\<rparr>"
    using assms(1) by (auto simp: Register_def Let_def Second_def split: option.splits if_splits)
  moreover then have "def_Type d \<notin> set (map fst (reg_definitions r))" using assms(2)
    by (simp add: registry_ok_def definitions_ok_def del: set_map)
  ultimately show ?thesis using assms(2)
    by (auto simp: registry_ok_def definitions_ok_def schedules_ok_def frozen_ok_def simp del: set_map simp: set_append)
qed

lemma sort_key_Nil [simp]: "sort_key f xs = [] \<longleftrightarrow> xs = []"
  by (metis length_0_conv length_sort)

lemma freeze_keeps:
  assumes "freeze r = Inr r'" "registry_ok r"
  shows "registry_ok r'"
proof (cases "reg_frozen r")
  case False
  let ?f = "\<lambda>(k, route :: 'a messageRoute). (k, route\<lparr>route_receivers := sort_key mr_id (route_receivers route)\<rparr>)"
  have v: "validateMessages r = None" "\<forall>s \<in> set (reg_schedulers r). set (s_types s) \<subseteq> set (map fst (reg_definitions r))"
    and r': "r' = r\<lparr>reg_messages := map ?f (reg_messages r), reg_frozen := True\<rparr>"
    using assms(1) False by (auto simp: freeze_def split: option.splits if_splits)
  have look: "map_of (map ?f ms) k = map_option (\<lambda>route. route\<lparr>route_receivers := sort_key mr_id (route_receivers route)\<rparr>) (map_of ms k)" for ms k
    by (induction ms) auto
  have keys: "map fst (map ?f ms) = map fst ms" for ms by (induction ms) auto
  have "\<forall>d \<in> set (declarations r). route_matches r d"
    using v(1) by (auto simp: validateMessages_def Let_def split: if_splits)
  moreover have "declarations r' = declarations r" by (simp add: declarations_def r')
  moreover have "route_matches r' d = route_matches r d" for d
    by (simp add: route_matches_def r' look split: option.splits)
  ultimately have "frozen_ok r'" using v(2) by (simp add: frozen_ok_def r' list_all_iff)
  moreover have "routes_ok (reg_messages r')"
    using assms(2) keys [of "reg_messages r"] unfolding registry_ok_def routes_ok_def r' by (auto simp del: map_map)
  ultimately show ?thesis
    using assms(2) by (simp add: registry_ok_def definitions_ok_def schedules_ok_def r')
qed (use assms in \<open>simp add: freeze_def\<close>)

lemma reachable_ok: "reachable r \<Longrightarrow> registry_ok r"
proof (induction rule: reachable.induct)
  case reach_new
  show ?case by (simp add: registry_ok_def NewRegistry_def routes_ok_def definitions_ok_def schedules_ok_def frozen_ok_def)
next
  case (reach_schedule r d r')
  then have new: "sd_Key d \<notin> set (map sd_Key (reg_periodic r))" "sd_Type d \<notin> set (map sd_Type (reg_periodic r))"
    "0 < sd_Interval d" "IsRecurringSystem (sd_Type d)" "sd_Type d \<in> set (map fst (reg_definitions r))"
    "\<not> reg_frozen r" "r' = r\<lparr>reg_periodic := reg_periodic r @ [d]\<rparr>"
    by (auto simp: RegisterSchedule_def split: if_splits)
  then show ?case using reach_schedule.IH
    by (simp add: registry_ok_def definitions_ok_def schedules_ok_def frozen_ok_def del: set_map)
next
  case (reach_scheduler r owner types s r')
  then show ?case
    by (auto simp: new_Scheduler_def Let_def registry_ok_def definitions_ok_def schedules_ok_def frozen_ok_def split: if_splits)
next
  case (reach_messenger r p hs ns m r')
  then show ?case
    by (auto simp: new_Messenger_def Let_def registry_ok_def definitions_ok_def schedules_ok_def frozen_ok_def split: if_splits)
qed (blast intro: Register_keeps registerMessage_keeps freeze_keeps)+

section \<open>Properties of the registry\<close>

text \<open>A registry for the witnesses: one producer hands over \<open>''stored''\<close> to one owner.\<close>

definition example_registry :: "unit Registry" where
  "example_registry = NewRegistry\<lparr>
     reg_producers := [(''plan'', \<lparr>ms_producer = ''plan'', ms_handovers = [''stored''], ms_notices = []\<rparr>)],
     reg_messages := [(''stored'', \<lparr>route_mode = messageHandover, route_receivers = [\<lparr>mr_id = ''owner'', mr_handler = \<lambda>_ _. ret ()\<rparr>]\<rparr>)],
     reg_messageIDs := [''owner''], reg_frozen := True\<rparr>"

lemma example_registry_reachable: "reachable example_registry"
proof -
  let ?h = "Some (\<lambda>_ _. ret ()) :: unit MessageHandler option"
  define r1 :: "unit Registry" where "r1 = NewRegistry\<lparr>reg_messages := [(''stored'', \<lparr>route_mode = messageHandover,
      route_receivers = [\<lparr>mr_id = ''owner'', mr_handler = \<lambda>_ _. ret ()\<rparr>]\<rparr>)], reg_messageIDs := [''owner'']\<rparr>"
  define m where "m = \<lparr>ms_producer = ''plan'', ms_handovers = [''stored''], ms_notices = []\<rparr>"
  define r2 where "r2 = r1\<lparr>reg_producers := [(''plan'', m)]\<rparr>"
  have "registerMessage ''owner'' ''stored'' messageHandover ?h NewRegistry = Inr r1"
    by (simp add: registerMessage_def NewRegistry_def r1_def set_assoc_def TrimSpace_def is_space_def)
  then have "reachable r1" by (rule reach_message [OF reach_new])
  moreover have "new_Messenger ''plan'' [''stored''] [] r1 = Inr (m, r2)"
    by (simp add: new_Messenger_def Let_def NewRegistry_def r1_def r2_def m_def TrimSpace_def is_space_def)
  ultimately have "reachable r2" by (rule reach_messenger)
  moreover have "freeze r2 = Inr example_registry"
    by (simp add: freeze_def validateMessages_def declarations_def route_matches_def r2_def r1_def m_def NewRegistry_def example_registry_def Let_def)
  ultimately show ?thesis by (rule reach_freeze)
qed

text \<open>C25: in a registry the application can build and freeze, a handover a producer has declared
  always has exactly one receiver: dispatching it in a transaction below the depth limit runs
  that receiver, one level deeper, and nothing else.\<close>

theorem handover_has_one_owner:
  assumes "reachable reg" "reg_frozen reg" "(p, m) \<in> set (reg_producers reg)" "m_Type msg \<in> set (ms_handovers m)" "depth < 8"
  shows "\<exists>i f. map_of (reg_messages reg) (m_Type msg) = Some \<lparr>route_mode = messageHandover, route_receivers = [\<lparr>mr_id = i, mr_handler = f\<rparr>]\<rparr> \<and>
    (\<forall>w. Handover reg m True depth (Some msg) w = bindM (f (depth + 1) msg) (\<lambda>_. ret ()) w)"
proof -
  have ok: "registry_ok reg" using reachable_ok [OF assms(1)] .
  have "(m_Type msg, messageHandover) \<in> set (declarations reg)" using assms(3,4) by (force simp: declarations_def)
  then have "route_matches reg (m_Type msg, messageHandover)"
    using ok assms(2) by (auto simp: registry_ok_def frozen_ok_def list_all_iff)
  then obtain route where route: "map_of (reg_messages reg) (m_Type msg) = Some route" "route_mode route = messageHandover"
    by (auto simp: route_matches_def split: option.splits)
  then have "length (route_receivers route) = 1"
    using ok map_of_SomeD [OF route(1)] by (auto simp: registry_ok_def routes_ok_def)
  then obtain rc where rc: "route_receivers route = [rc]" by (auto simp: length_Suc_conv)
  have "Handover reg m True depth (Some msg) = bindM (mr_handler rc (depth + 1) msg) (\<lambda>_. ret ())"
    using assms(2,4,5) route rc
    by (simp add: Handover_def dispatch_def requireTransaction_def guardM_def bindM_def ret_def Let_def)
  then show ?thesis using route rc by (intro exI [of _ "mr_id rc"] exI [of _ "mr_handler rc"]) (cases route; cases rc; simp)
qed

theorem handover_has_one_owner_witness:
  "\<exists>i f. map_of (reg_messages example_registry) (m_Type \<lparr>m_Type = ''stored'', m_Payload = JNull\<rparr>) =
      Some \<lparr>route_mode = messageHandover, route_receivers = [\<lparr>mr_id = i, mr_handler = f\<rparr>]\<rparr> \<and>
    (\<forall>w. Handover example_registry \<lparr>ms_producer = ''plan'', ms_handovers = [''stored''], ms_notices = []\<rparr> True 7
       (Some \<lparr>m_Type = ''stored'', m_Payload = JNull\<rparr>) w = bindM (f (7 + 1) \<lparr>m_Type = ''stored'', m_Payload = JNull\<rparr>) (\<lambda>_. ret ()) w)"
  by (rule handover_has_one_owner [OF example_registry_reachable, where p = "''plan''"]) (simp_all add: example_registry_def NewRegistry_def)

text \<open>C26: once frozen, a registry does not change: every later registration is refused, so what freezing
  checked (a receiver for every declared message, a definition for every scheduler's type) stays
  true while the engine runs.\<close>

theorem frozen_registry_is_immutable:
  assumes "reg_frozen reg"
  shows "isl (Register h reg) \<and> isl (RegisterSchedule d reg) \<and> isl (new_Scheduler owner types reg) \<and>
    isl (registerMessage i kind mode f reg) \<and> isl (new_Messenger p hs ns reg) \<and> freeze reg = Inr reg"
  using assms
  by (auto simp: Register_def RegisterSchedule_def new_Scheduler_def registerMessage_def new_Messenger_def freeze_def Let_def split: option.splits)

theorem frozen_registry_is_immutable_witness:
  "isl (Register None example_registry) \<and> isl (RegisterSchedule \<lparr>sd_Key = ''k'', sd_Type = ''t'', sd_Interval = 1\<rparr> example_registry) \<and>
   isl (new_Scheduler ''o'' [''t''] example_registry) \<and>
   isl (registerMessage ''i'' ''k'' messageNotice None example_registry) \<and> isl (new_Messenger ''p'' [] [] example_registry) \<and>
   freeze example_registry = Inr example_registry"
  by (rule frozen_registry_is_immutable) (simp add: example_registry_def)

end
