(* ===== verification/Worker_Service.thy ===== *)
theory Worker_Service
  imports Worker_Registry
begin

text \<open>
  The task service: \<open>internal/worker/service.go\<close> (enqueue), \<open>retry.go\<close> (manual retry),
  \<open>scheduler.go\<close> (what a task owner may enqueue, retry and wake) and \<open>periodic.go\<close> (recurring
  tasks). Releasing the lock a retry preparation may hold has no database effect and is left out.
\<close>

section \<open>Enqueue\<close>

definition zero_task :: Task where
  "zero_task = \<lparr>task_ID = 0, task_Type = '''', task_InputVersion = 0, task_SubjectType = '''', task_SubjectKey = '''',
     task_Generation = None, task_RetryOfTaskID = None, task_Input = RawEmpty, task_Checkpoint = RawEmpty, task_Runtime = RawEmpty,
     task_Status = TaskStatusOther '''', task_ResumeMode = TaskResumeModeOther '''', task_AvailableAt = 0, task_WaitReason = None,
     task_RetryCount = 0, task_FailureReason = None, task_LastError = None, task_StatusMessage = None, task_ClaimGeneration = 0,
     task_LeaseUntil = None, task_FinishedAt = None, task_CreatedAt = 0, task_UpdatedAt = 0, task_WorkStartedAt = None,
     task_AcknowledgedAt = None, task_SupersededAt = None\<rparr>"

definition prepare :: "'d Registry \<Rightarrow> EnqueueRequest \<Rightarrow> ('d, Task) DB" where
  "prepare reg request = (case registry_Definition reg (req_Type request) of None \<Rightarrow> fail ErrUnknownType
   | Some d \<Rightarrow> (case req_Input request of None \<Rightarrow> fail (ErrText ''encoding task input'')
     | Some input \<Rightarrow> (case canonicalizeInput (def_Codec d) input of Inl e \<Rightarrow> fail e
       | Inr canonical \<Rightarrow> (case def_Identity d of None \<Rightarrow> fail (ErrText ''nil pointer dereference'')
         | Some identify \<Rightarrow> (case identify canonical of Inl e \<Rightarrow> fail e
           | Inr ident \<Rightarrow>
             bindM (if req_AvailableAt request = 0 then now else ret (req_AvailableAt request)) (\<lambda>availableAt.
               ret (zero_task\<lparr>task_Type := req_Type request, task_SubjectType := id_SubjectType ident, task_SubjectKey := id_SubjectKey ident,
                 task_Generation := id_Generation ident, task_InputVersion := def_InputVersion d, task_Input := canonical,
                 task_Status := TaskStatusPending, task_ResumeMode := TaskResumeModeExecute, task_AvailableAt := availableAt,
                 task_Runtime := Raw (JObj [])\<rparr>)))))))"

definition enqueuePrepared :: "'d Registry \<Rightarrow> bool \<Rightarrow> Task \<Rightarrow> ('d, Task \<times> bool) DB" where
  "enqueuePrepared reg intx task =
     bindM (Enqueue intx (Some task)) (\<lambda>(stored, created). case stored of None \<Rightarrow> fail (ErrText ''nil pointer dereference'')
     | Some s \<Rightarrow>
       if created then ret (s, True)
       else if task_InputVersion s \<noteq> task_InputVersion task then fail ErrInputConflict
       else (case canonicalizeInput (case registry_Definition reg (task_Type task) of None \<Rightarrow> None | Some d \<Rightarrow> def_Codec d) (task_Input s) of
           Inl _ \<Rightarrow> fail ErrInputConflict
         | Inr canonical \<Rightarrow> if canonical \<noteq> task_Input task then fail ErrInputConflict else ret (s, False)))"

definition Service_Enqueue :: "'d Registry \<Rightarrow> EnqueueRequest \<Rightarrow> ('d, Task \<times> bool) DB" where
  "Service_Enqueue reg request = bindM (prepare reg request) (\<lambda>task. enqueuePrepared reg False task)"

definition EnqueueInTransaction :: "'d Registry \<Rightarrow> EnqueueRequest \<Rightarrow> ('d, Task \<times> bool) DB" where
  "EnqueueInTransaction reg request = bindM (prepare reg request) (\<lambda>task. enqueuePrepared reg True task)"

definition EnqueueOrReplaceTerminalInTransaction :: "'d Registry \<Rightarrow> EnqueueRequest \<Rightarrow> ('d, Task \<times> bool) DB" where
  "EnqueueOrReplaceTerminalInTransaction reg request =
     (if req_Type request \<noteq> TaskTypeUploadPlan then fail ErrInvalidInput
      else bindM (prepare reg request) (\<lambda>prepared.
        bindM (enqueuePrepared reg True prepared) (\<lambda>(stored, created).
          if created then ret (stored, True)
          else (case task_Status stored of
              TaskStatusPending \<Rightarrow> ret (stored, False)
            | TaskStatusRunning \<Rightarrow> ret (stored, False)
            | TaskStatusFailed \<Rightarrow> bindM (SupersedeTerminal (task_ID stored)) (\<lambda>_.
                enqueuePrepared reg True (prepared\<lparr>task_RetryOfTaskID := Some (task_ID stored), task_ID := 0\<rparr>))
            | TaskStatusCancelled \<Rightarrow> bindM (SupersedeTerminal (task_ID stored)) (\<lambda>_.
                enqueuePrepared reg True (prepared\<lparr>task_RetryOfTaskID := Some (task_ID stored), task_ID := 0\<rparr>))
            | TaskStatusCompleted \<Rightarrow> fail ErrConflict
            | TaskStatusOther _ \<Rightarrow> fail ErrConflict))))"

definition EnqueueTx :: "'d Registry \<Rightarrow> EnqueueRequest \<Rightarrow> (Task \<Rightarrow> bool \<Rightarrow> ('d, unit) DB) option \<Rightarrow> ('d, Task \<times> bool) DB" where
  "EnqueueTx reg request bind_fn =
     bindM (prepare reg request) (\<lambda>prepared. WithTx (
       bindM (enqueuePrepared reg True prepared) (\<lambda>(stored, created).
         bindM (case bind_fn of None \<Rightarrow> ret () | Some b \<Rightarrow> b stored created) (\<lambda>_. ret (stored, created)))))"

definition Retryable :: "'d Registry \<Rightarrow> Task option \<Rightarrow> bool" where
  "Retryable reg task = (case task of None \<Rightarrow> False
   | Some t \<Rightarrow> if task_Status t \<noteq> TaskStatusFailed \<or> task_SupersededAt t \<noteq> None then False
     else (case registry_Definition reg (task_Type t) of None \<Rightarrow> False | Some d \<Rightarrow> manualRetryAllowed d t))"

definition Acknowledgeable :: "Task option \<Rightarrow> bool" where
  "Acknowledgeable task = (case task of None \<Rightarrow> False | Some t \<Rightarrow> task_Status t = TaskStatusFailed \<and> task_AcknowledgedAt t = None)"

section \<open>Manual retry\<close>

definition InspectRetryWithRepositories :: "'d Registry \<Rightarrow> Task \<Rightarrow> ('d, unit) DB" where
  "InspectRetryWithRepositories reg task =
     (if \<not> Retryable reg (Some task) then fail ErrRetryUnsupported
      else (case registry_Definition reg (task_Type task) of None \<Rightarrow> fail ErrRetryUnsupported
       | Some d \<Rightarrow>
         if task_InputVersion task \<noteq> def_InputVersion d then fail ErrConflict
         else (case canonicalizeInput (def_Codec d) (task_Input task) of Inl _ \<Rightarrow> fail ErrConflict
           | Inr _ \<Rightarrow>
             bindM (if IsRecurringSystem (task_Type task)
                    then bindM (GetByTaskID (task_ID task)) (\<lambda>schedule. guardM (schedule \<noteq> None) ErrConflict)
                    else ret ()) (\<lambda>_.
             case def_InspectRetry d of None \<Rightarrow> ret () | Some f \<Rightarrow> f task))))"

definition retryReplay :: "int \<Rightarrow> error \<Rightarrow> ('d, Task) DB" where
  "retryReplay i cause = bindM (GetDirectSuccessor i) (\<lambda>next. case next of Some t \<Rightarrow> ret t | None \<Rightarrow> fail cause)"

definition RetryableContext :: "'d Registry \<Rightarrow> Task \<Rightarrow> ('d, bool) DB" where
  "RetryableContext reg task = catchM (bindM (InspectRetryWithRepositories reg task) (\<lambda>_. ret True))
     (\<lambda>e. if errors_is e ErrConflict \<or> errors_is e ErrNotFound \<or> errors_is e ErrRetryUnsupported then ret False else fail e)"

definition Retry_tx :: "'d Registry \<Rightarrow> 'd Definition \<Rightarrow> 'd RetryPreparation \<Rightarrow> Task \<Rightarrow> Task \<Rightarrow> ('d, Task) DB" where
  "Retry_tx reg d preparation source prepared =
     bindM (GetForUpdate (task_ID source)) (\<lambda>row. case row of None \<Rightarrow> fail ErrNotFound
     | Some current \<Rightarrow>
       bindM (GetDirectSuccessor (task_ID source)) (\<lambda>next. case next of Some t \<Rightarrow> ret t
       | None \<Rightarrow>
         if task_Status current \<noteq> TaskStatusFailed \<or> task_SupersededAt current \<noteq> None \<or> \<not> manualRetryAllowed d current then fail ErrConflict
         else if task_ClaimGeneration current \<noteq> task_ClaimGeneration source then fail ErrConflict
         else
         bindM (case def_InspectRetry d of None \<Rightarrow> ret () | Some f \<Rightarrow> f current) (\<lambda>_.
         bindM (case prep_Validate preparation of None \<Rightarrow> ret () | Some f \<Rightarrow> f current) (\<lambda>_.
         bindM (if IsRecurringSystem (task_Type current) then
             bindM (GetByTaskID (task_ID current)) (\<lambda>s. case s of None \<Rightarrow> fail ErrConflict
             | Some s0 \<Rightarrow> bindM (Schedule_GetForUpdate (sched_Key s0)) (\<lambda>s1. case s1 of None \<Rightarrow> fail (ErrText ''nil pointer dereference'')
               | Some sched \<Rightarrow> if sched_LatestTaskID sched \<noteq> Some (task_ID current) then fail ErrConflict else ret (Some sched)))
           else ret None) (\<lambda>schedule.
         bindM (SupersedeTerminal (task_ID source)) (\<lambda>_.
         bindM (enqueuePrepared reg True prepared) (\<lambda>(successor, created).
         if \<not> created then fail ErrConflict
         else
         bindM (case prep_Bind preparation of None \<Rightarrow> ret () | Some f \<Rightarrow> f current successor) (\<lambda>_.
         bindM (case schedule of None \<Rightarrow> ret ()
           | Some sched \<Rightarrow> bindM now (\<lambda>n. SetHead True (sched_Key sched) (sched_Generation sched) (sched_Generation sched)
               (sched_LatestTaskID sched) (Some (task_ID successor)) n)) (\<lambda>_.
         bindM (AppendEvent (task_ID current) ''superseded'' (Raw (JObj [(''retry_task_id'', JInt (task_ID successor))]))) (\<lambda>_.
         ret successor))))))))))"

definition retry_preparation :: "'d Definition \<Rightarrow> Task \<Rightarrow> ('d, error + 'd RetryPreparation) DB" where
  "retry_preparation d source = (case def_PrepareRetry d of
       None \<Rightarrow> ret (Inr \<lparr>prep_Request = \<lparr>req_Type = task_Type source, req_Input = Some (task_Input source), req_AvailableAt = 0\<rparr>,
           prep_Checkpoint = task_Checkpoint source, prep_ResumeMode = TaskResumeModeRecover, prep_Validate = None, prep_Bind = def_BindSuccessor d\<rparr>)
     | Some f \<Rightarrow> catchM (bindM (f source) (\<lambda>p. ret (Inr p))) (\<lambda>e. ret (Inl e)))"

definition Retry_prepared :: "'d Registry \<Rightarrow> 'd Definition \<Rightarrow> Task \<Rightarrow> 'd RetryPreparation \<Rightarrow> ('d, Task) DB" where
  "Retry_prepared reg d source preparation =
     bindM (prepare reg (prep_Request preparation)) (\<lambda>p0.
     let prepared = p0\<lparr>task_RetryOfTaskID := Some (task_ID source), task_Checkpoint := prep_Checkpoint preparation,
           task_ResumeMode := (if prep_ResumeMode preparation \<noteq> TaskResumeModeOther '''' then prep_ResumeMode preparation else task_ResumeMode p0)\<rparr> in
     catchM (WithTx (Retry_tx reg d preparation source prepared)) (retryReplay (task_ID source)))"

definition Retry_attempt :: "'d Registry \<Rightarrow> int \<Rightarrow> 'd Definition \<Rightarrow> Task \<Rightarrow> ('d, Task) DB" where
  "Retry_attempt reg i d source = bindM (retry_preparation d source) (\<lambda>prep.
     case prep of Inl e \<Rightarrow> retryReplay i e | Inr preparation \<Rightarrow> Retry_prepared reg d source preparation)"

definition Retry :: "'d Registry \<Rightarrow> int \<Rightarrow> ('d, Task) DB" where
  "Retry reg i =
     bindM (GetByID i) (\<lambda>row. case row of None \<Rightarrow> fail ErrNotFound
     | Some source \<Rightarrow>
       bindM (GetDirectSuccessor i) (\<lambda>next. case next of Some t \<Rightarrow> ret t
       | None \<Rightarrow>
         bindM (catchM (bindM (InspectRetryWithRepositories reg source) (\<lambda>_. ret None)) (\<lambda>e. ret (Some e))) (\<lambda>refused.
         case refused of Some e \<Rightarrow> retryReplay i e
         | None \<Rightarrow> (case registry_Definition reg (task_Type source) of None \<Rightarrow> fail ErrRetryUnsupported
           | Some d \<Rightarrow>
             Retry_attempt reg i d source))))"

section \<open>Schedulers\<close>

definition authorize :: "Scheduler \<Rightarrow> TaskType \<Rightarrow> ('d, unit) DB" where
  "authorize s ty = guardM (ty \<in> set (s_types s)) ErrInvalidInput"

definition RetryInTransaction :: "'d Registry \<Rightarrow> Scheduler \<Rightarrow> bool \<Rightarrow> int \<Rightarrow> time \<Rightarrow> ('d, Task) DB" where
  "RetryInTransaction reg s intx sourceID availableAt =
     bindM (requireTransaction intx) (\<lambda>_.
     bindM (GetForUpdate sourceID) (\<lambda>row. case row of None \<Rightarrow> fail ErrNotFound
     | Some source \<Rightarrow>
       bindM (authorize s (task_Type source)) (\<lambda>_.
       bindM (GetDirectSuccessor (task_ID source)) (\<lambda>next. case next of Some t \<Rightarrow> ret t
       | None \<Rightarrow>
         if task_Status source \<noteq> TaskStatusFailed \<or> task_SupersededAt source \<noteq> None then fail ErrConflict
         else (case registry_Definition reg (task_Type source) of None \<Rightarrow> fail ErrUnknownType
         | Some d \<Rightarrow>
           bindM (InspectRetryWithRepositories reg source) (\<lambda>_.
           bindM (case def_RetryCheckpoint d of None \<Rightarrow> ret (task_Checkpoint source) | Some f \<Rightarrow> f source) (\<lambda>checkpoint.
           bindM (prepare reg \<lparr>req_Type = task_Type source, req_Input = Some (task_Input source), req_AvailableAt = availableAt\<rparr>) (\<lambda>p0.
           let prepared = p0\<lparr>task_RetryOfTaskID := Some (task_ID source), task_Checkpoint := checkpoint, task_ResumeMode := TaskResumeModeRecover\<rparr> in
           bindM (SupersedeTerminal (task_ID source)) (\<lambda>_.
           bindM (enqueuePrepared reg True prepared) (\<lambda>(successor, created).
           if \<not> created then fail ErrConflict
           else
           bindM (case def_BindSuccessor d of None \<Rightarrow> ret () | Some f \<Rightarrow> f source successor) (\<lambda>_.
           bindM (AppendEvent (task_ID source) ''superseded'' (Raw (JObj [(''retry_task_id'', JInt (task_ID successor))]))) (\<lambda>_.
           ret successor))))))))))))"

definition EnqueueRecoveryInTransaction :: "'d Registry \<Rightarrow> Scheduler \<Rightarrow> bool \<Rightarrow> int \<Rightarrow> EnqueueRequest \<Rightarrow> ('d, Task) DB" where
  "EnqueueRecoveryInTransaction reg s intx sourceID request =
     bindM (requireTransaction intx) (\<lambda>_.
     bindM (authorize s (req_Type request)) (\<lambda>_.
     bindM (GetForUpdate sourceID) (\<lambda>row. case row of None \<Rightarrow> fail ErrNotFound
     | Some source \<Rightarrow>
       bindM (authorize s (task_Type source)) (\<lambda>_.
       bindM (GetDirectSuccessor sourceID) (\<lambda>next. case next of Some t \<Rightarrow> ret t
       | None \<Rightarrow>
         if task_Status source \<noteq> TaskStatusFailed \<or> task_SupersededAt source \<noteq> None then fail ErrConflict
         else
           bindM (prepare reg request) (\<lambda>p0.
           bindM (SupersedeTerminal (task_ID source)) (\<lambda>_.
           bindM (enqueuePrepared reg True (p0\<lparr>task_RetryOfTaskID := Some (task_ID source)\<rparr>)) (\<lambda>(successor, created).
           if \<not> created then fail ErrConflict
           else
           bindM (AppendEvent (task_ID source) ''superseded'' (Raw (JObj [(''retry_task_id'', JInt (task_ID successor))]))) (\<lambda>_.
           ret successor)))))))))"

definition Scheduler_EnqueueInTransaction :: "'d Registry \<Rightarrow> Scheduler \<Rightarrow> bool \<Rightarrow> EnqueueRequest \<Rightarrow> ('d, Task \<times> bool) DB" where
  "Scheduler_EnqueueInTransaction reg s intx request =
     bindM (authorize s (req_Type request)) (\<lambda>_. bindM (requireTransaction intx) (\<lambda>_. EnqueueInTransaction reg request))"

fun authorize_all :: "Scheduler \<Rightarrow> TaskType list \<Rightarrow> ('d, unit) DB" where
  "authorize_all s [] = ret ()"
| "authorize_all s (t # ts) = bindM (authorize s t) (\<lambda>_. authorize_all s ts)"

definition Scheduler_WakeInTransaction :: "Scheduler \<Rightarrow> bool \<Rightarrow> int list \<Rightarrow> TaskType list \<Rightarrow> string list \<Rightarrow> ('d, nat) DB" where
  "Scheduler_WakeInTransaction s intx ids types skipWaitReasons =
     (if types = [] then fail ErrInvalidInput
      else bindM (authorize_all s types) (\<lambda>_. bindM (requireTransaction intx) (\<lambda>_. WakePendingOfTypes ids types skipWaitReasons)))"

section \<open>Recurring tasks\<close>

definition dispatch_schedule :: "'d Registry \<Rightarrow> ScheduleDefinition \<Rightarrow> ('d, unit) DB" where
  "dispatch_schedule reg def =
     bindM (Schedule_GetForUpdate (sd_Key def)) (\<lambda>srow. case srow of None \<Rightarrow> ret ()
     | Some schedule \<Rightarrow>
       bindM now (\<lambda>n. if n < sched_NextRunAt schedule then ret ()
       else
         bindM (case sched_LatestTaskID schedule of None \<Rightarrow> ret None
           | Some i \<Rightarrow> bindM (GetByID i) (\<lambda>prev. case prev of None \<Rightarrow> fail ErrConflict | Some p \<Rightarrow> ret (Some p))) (\<lambda>previous.
         if (case previous of None \<Rightarrow> False | Some p \<Rightarrow> task_Status p = TaskStatusPending \<or> task_Status p = TaskStatusRunning) then ret ()
         else
           let generation = sched_Generation schedule + 1 in
           bindM (prepare reg \<lparr>req_Type = sd_Type def, req_Input = Some (encode_cycle generation), req_AvailableAt = 0\<rparr>) (\<lambda>t0.
           bindM (case (previous, (case registry_Definition reg (sd_Type def) of None \<Rightarrow> None | Some d \<Rightarrow> def_NextCycleCheckpoint d)) of
               (Some p, Some f) \<Rightarrow> bindM (f p) (\<lambda>c. ret (t0\<lparr>task_Checkpoint := c\<rparr>)) | _ \<Rightarrow> ret t0) (\<lambda>task.
           bindM (enqueuePrepared reg True task) (\<lambda>(created, _).
           SetHead True (sd_Key def) (sched_Generation schedule) generation (sched_LatestTaskID schedule) (Some (task_ID created)) (sched_NextRunAt schedule)))))))"

fun dispatch_due :: "'d Registry \<Rightarrow> TaskSchedule list \<Rightarrow> ('d, unit) DB" where
  "dispatch_due reg [] = ret ()"
| "dispatch_due reg (candidate # rest) =
     (case find (\<lambda>d. sd_Key d = sched_Key candidate) (reg_periodic reg) of None \<Rightarrow> dispatch_due reg rest
      | Some def \<Rightarrow> bindM (catchM (WithTx (dispatch_schedule reg def)) (\<lambda>e. if \<not> errors_is e ErrConflict then fail e else ret ()))
          (\<lambda>_. dispatch_due reg rest))"

definition dispatchSchedules :: "'d Registry \<Rightarrow> ('d, unit) DB" where
  "dispatchSchedules reg = bindM now (\<lambda>n. bindM (ListDue n) (dispatch_due reg))"

fun ensure_schedules :: "ScheduleDefinition list \<Rightarrow> ('d, unit) DB" where
  "ensure_schedules [] = ret ()"
| "ensure_schedules (d # ds) = bindM now (\<lambda>n. bindM (Ensure (sd_Key d) n) (\<lambda>_. ensure_schedules ds))"

definition bootstrap :: "'d Registry \<Rightarrow> ('d, unit) DB" where
  "bootstrap reg = bindM (ensure_schedules (reg_periodic reg)) (\<lambda>_. dispatchSchedules reg)"

fun supersede_older :: "int \<Rightarrow> Task list \<Rightarrow> ('d, unit) DB" where
  "supersede_older i [] = ret ()"
| "supersede_older i (old # rest) =
     bindM (if task_ID old < i then SupersedeTerminal (task_ID old) else ret ()) (\<lambda>_. supersede_older i rest)"

text \<open>The page loop of \<open>settleSchedule\<close>; a page that is not the last one lowers the cursor past at
  least one row, so one pass per row and a last one are enough.\<close>

fun settle_pages :: "nat \<Rightarrow> Task \<Rightarrow> int \<Rightarrow> ('d, unit) DB" where
  "settle_pages 0 claimed before = fail (ErrText ''fuel'')"
| "settle_pages (Suc k) claimed before =
     bindM (ListCurrentFailedForSubject (task_SubjectType claimed) (task_SubjectKey claimed) before 100 [task_Type claimed]) (\<lambda>page.
     bindM (supersede_older (task_ID claimed) (page_Tasks page)) (\<lambda>_.
     if page_NextBeforeID page = 0 then ret () else settle_pages k claimed (page_NextBeforeID page)))"

definition settleSchedule :: "'d Registry \<Rightarrow> Task \<Rightarrow> TaskTransition \<Rightarrow> ('d, unit) DB" where
  "settleSchedule reg claimed transition =
     (if \<not> IsRecurringSystem (task_Type claimed) \<or> tr_Status transition = TaskStatusPending then ret ()
      else (case scheduleFor reg (task_Type claimed) of None \<Rightarrow> ret ()
       | Some def \<Rightarrow>
         bindM (Schedule_GetForUpdate (sd_Key def)) (\<lambda>srow. case srow of None \<Rightarrow> fail ErrConflict
         | Some schedule \<Rightarrow>
           if sched_LatestTaskID schedule \<noteq> Some (task_ID claimed) then fail ErrConflict
           else bindM now (\<lambda>n.
             bindM (ScheduleNext (sd_Key def) (task_ID claimed) (n + sd_Interval def)) (\<lambda>_.
             if tr_Status transition = TaskStatusCancelled then ret ()
             else (\<lambda>w. settle_pages (Suc (length (tasks (db w)))) claimed 0 w))))))"

section \<open>What the service operations keep\<close>

text \<open>The functions a definition supplies are database code of other packages. What the task tables
  need of them is that they keep the table invariants, as every repository operation does.\<close>

definition definition_safe :: "'d Definition \<Rightarrow> bool" where
  "definition_safe d =
     ((\<forall>f t. def_InspectRetry d = Some f \<longrightarrow> keeps world_step (f t)) \<and>
      (\<forall>f t. def_PrepareRetry d = Some f \<longrightarrow> keeps world_step (f t)) \<and>
      (\<forall>f t w p g. def_PrepareRetry d = Some f \<longrightarrow> fst (f t w) = Inr p \<longrightarrow>
         (prep_Validate p = Some g \<longrightarrow> (\<forall>t. keeps world_step (g t)))) \<and>
      (\<forall>f t w p g. def_PrepareRetry d = Some f \<longrightarrow> fst (f t w) = Inr p \<longrightarrow>
         (prep_Bind p = Some g \<longrightarrow> (\<forall>a b. keeps world_step (g a b)))) \<and>
      (\<forall>f a b. def_BindSuccessor d = Some f \<longrightarrow> keeps world_step (f a b)) \<and>
      (\<forall>f t. def_RetryCheckpoint d = Some f \<longrightarrow> keeps world_step (f t)) \<and>
      (\<forall>f t. def_NextCycleCheckpoint d = Some f \<longrightarrow> keeps world_step (f t)))"

definition registry_safe :: "'d Registry \<Rightarrow> bool" where
  "registry_safe reg = (\<forall>ty d. registry_Definition reg ty = Some d \<longrightarrow> definition_safe d)"

lemma definition_safeD:
  assumes "definition_safe d"
  shows "def_InspectRetry d = Some f1 \<Longrightarrow> keeps world_step (f1 t)"
    "def_PrepareRetry d = Some f2 \<Longrightarrow> keeps world_step (f2 t)"
    "def_PrepareRetry d = Some f2 \<Longrightarrow> fst (f2 t w) = Inr p \<Longrightarrow> prep_Validate p = Some g1 \<Longrightarrow> keeps world_step (g1 t')"
    "def_PrepareRetry d = Some f2 \<Longrightarrow> fst (f2 t w) = Inr p \<Longrightarrow> prep_Bind p = Some g2 \<Longrightarrow> keeps world_step (g2 a b)"
    "def_BindSuccessor d = Some f3 \<Longrightarrow> keeps world_step (f3 a b)"
    "def_RetryCheckpoint d = Some f4 \<Longrightarrow> keeps world_step (f4 t)"
    "def_NextCycleCheckpoint d = Some f5 \<Longrightarrow> keeps world_step (f5 t)"
  using assms unfolding definition_safe_def by simp_all

lemma keeps_prepare [keep]: "keeps world_step (prepare reg request)"
  unfolding prepare_def by (intro keep)

lemma keeps_enqueuePrepared [keep]: "keeps world_step (enqueuePrepared reg intx task)"
  unfolding enqueuePrepared_def by (intro keep)

lemma keeps_requireTransaction [keep]: "keeps world_step (requireTransaction intx)"
  unfolding requireTransaction_def by (intro keep)

lemma keeps_authorize [keep]: "keeps world_step (authorize s ty)"
  unfolding authorize_def by (intro keep)

lemma keeps_InspectRetry [keep]:
  assumes "registry_safe reg"
  shows "keeps world_step (InspectRetryWithRepositories reg task)"
  unfolding InspectRetryWithRepositories_def
  using assms by (intro keep) (auto simp: registry_safe_def dest: definition_safeD(1))

lemma keeps_retryReplay [keep]: "keeps world_step (retryReplay i e)"
  unfolding retryReplay_def by (intro keep)

lemma keeps_Retry_tx:
  assumes "definition_safe d" "\<And>g t. prep_Validate p = Some g \<Longrightarrow> keeps world_step (g t)"
    "\<And>g a b. prep_Bind p = Some g \<Longrightarrow> keeps world_step (g a b)"
  shows "keeps world_step (Retry_tx reg d p source prepared)"
  unfolding Retry_tx_def by (intro keep) (use assms definition_safeD(1) in blast)+

section \<open>Outcomes of a retry\<close>

lemmas post_keeps = post_kept [where R = world_step]

lemmas post_bind_keeps = post_bind_kept [where R = world_step]

lemma post_result: "post (ret t) (\<lambda>t' _. t' = t) w"
  by simp

text \<open>The task \<open>t\<close> is the stored retry of \<open>i\<close>.\<close>

definition is_retry_of :: "int \<Rightarrow> Task \<Rightarrow> 'd tables world \<Rightarrow> bool" where
  "is_retry_of i t w = (wf_world w \<and> task_RetryOfTaskID t = Some i \<and>
     (\<exists>r \<in> set (tasks (db w)). task_ID r = task_ID t \<and> task_RetryOfTaskID r = Some i))"

lemma is_retry_of_step: "is_retry_of i t w \<Longrightarrow> world_step w w' \<Longrightarrow> is_retry_of i t w'"
  unfolding is_retry_of_def world_step_def
  by (auto dest!: tables_step_row) (metis row_step_id row_step_retry)

lemma is_retry_of_unique: "is_retry_of i t w \<Longrightarrow> is_retry_of i t' w \<Longrightarrow> task_ID t = task_ID t'"
  unfolding is_retry_of_def wf_world_def using tables_okD(5) by metis

lemma post_GetDirectSuccessor:
  assumes "wf_world w" "\<And>t w'. is_retry_of i t w' \<Longrightarrow> Q (Some t) w'" "\<And>w'. world_step w w' \<Longrightarrow> Q None w'"
  shows "post (GetDirectSuccessor i) Q w"
proof -
  have "is_retry_of i t (w\<lparr>faults := fs\<rparr>)" if "find (\<lambda>r. task_RetryOfTaskID r = Some i) (tasks (db w)) = Some t" for t fs
    using that assms(1) by (auto simp: is_retry_of_def find_Some_iff wf_world_def)
  moreover have "world_step w (w\<lparr>faults := fs\<rparr>)" for fs by (rule ws.kept_env) auto
  ultimately show ?thesis unfolding GetDirectSuccessor_def
    by (intro wp_findTask) (cases "find (\<lambda>r. task_RetryOfTaskID r = Some i) (tasks (db w))"; use assms(2,3) in auto)+
qed

lemma post_insert_task:
  assumes "wf_world w" "\<And>r w'. wf_world w' \<Longrightarrow> r \<in> set (tasks (db w')) \<Longrightarrow> task_RetryOfTaskID r = task_RetryOfTaskID row \<Longrightarrow> Q (Some r) w'"
    and "\<And>w'. wf_world w' \<Longrightarrow> Q None w'"
  shows "post (insert_task row) Q w"
proof -
  have "post (insert_task row) (\<lambda>x w'. \<forall>r. x = Some r \<longrightarrow> r \<in> set (tasks (db w')) \<and> task_RetryOfTaskID r = task_RetryOfTaskID row) w"
    unfolding insert_task_def wp_bind wp_next_seq
    by (intro wp_now wp_stmtE) (auto simp: insert_row_def stamp_task_def split: if_splits)
  moreover have "wpM (insert_task row) (\<lambda>_. wf_world) (\<lambda>_. wf_world) w"
    using keepsD [OF keeps_insert_task, of w row] assms(1) by (simp add: wpM_same world_step_def)
  ultimately have "post (insert_task row) (\<lambda>x w'. (\<forall>r. x = Some r \<longrightarrow> r \<in> set (tasks (db w')) \<and> task_RetryOfTaskID r = task_RetryOfTaskID row) \<and> wf_world w') w"
    by (rule wp_mono [OF wp_conj]) auto
  then show ?thesis by (rule wp_mono) (use assms(2,3) in \<open>auto split: option.splits, metis option.exhaust\<close>)
qed

definition stored_new :: "Task \<Rightarrow> Task option \<Rightarrow> bool \<Rightarrow> 'd tables world \<Rightarrow> bool" where
  "stored_new t s created w = (wf_world w \<and> (created \<longrightarrow>
     (\<exists>r. s = Some r \<and> r \<in> set (tasks (db w)) \<and> task_RetryOfTaskID r = task_RetryOfTaskID t)))"

lemma post_AppendEvent_stored:
  assumes "wf_world w" "r \<in> set (tasks (db w))" "task_RetryOfTaskID r = task_RetryOfTaskID t"
  shows "post (bindM (AppendEvent i ty c) (\<lambda>_. ret (Some r, True))) (\<lambda>(s, created). stored_new t s created) w"
proof -
  have "post (AppendEvent i ty c) (\<lambda>_ w'. tasks (db w') = tasks (db w)) w" by (rule wp_AppendEvent)
  moreover have "wpM (AppendEvent i ty c) (\<lambda>_. wf_world) (\<lambda>_. wf_world) w"
    using keepsD [OF keeps_AppendEvent, of w i ty c] assms(1) by (simp add: wpM_same world_step_def)
  ultimately have "post (AppendEvent i ty c) (\<lambda>_ w'. tasks (db w') = tasks (db w) \<and> wf_world w') w"
    by (rule wp_mono [OF wp_conj]) auto
  then show ?thesis unfolding wp_bind by (rule wp_mono) (use assms in \<open>auto simp: stored_new_def\<close>)
qed

lemma world_step_wfD: "world_step w w' \<Longrightarrow> wf_world w \<Longrightarrow> wf_world w'"
  by (simp add: world_step_def)

lemma post_Enqueue_tx:
  assumes "wf_world w"
  shows "post (Enqueue_tx row) (\<lambda>(s, created). stored_new row s created) w"
  unfolding Enqueue_tx_def
proof (rule post_bind_keeps, goal_cases)
  case 1
  show ?case by (intro keep)
next
  case (2 existing w1)
  then have w1: "wf_world w1" using assms world_step_wfD by blast
  show ?case
  proof (cases existing)
    case None
    have "post (case ins of None \<Rightarrow> (case task_Generation row of None \<Rightarrow> fail (ErrText ''nil pointer dereference'')
             | Some g \<Rightarrow> bindM (GetByIdentity (task_Type row) (task_SubjectType row) (task_SubjectKey row) g) (\<lambda>stored.
                 case stored of None \<Rightarrow> fail ErrTaskIdentityContended | Some s \<Rightarrow> ret (Some s, False)))
         | Some r \<Rightarrow>
           if (case task_RetryOfTaskID r of None \<Rightarrow> False | Some p \<Rightarrow> task_ID r \<le> p) then fail ErrConflict
           else bindM (AppendEvent (task_ID r) ''created'' (Raw (JObj []))) (\<lambda>_. ret (Some r, True)))
         (\<lambda>(s, created). stored_new row s created) w3"
      if w3: "wf_world w3" and ins: "\<And>r. ins = Some r \<Longrightarrow> r \<in> set (tasks (db w3)) \<and> task_RetryOfTaskID r = task_RetryOfTaskID row" for ins w3
    proof (cases ins)
      case None
      have "post (bindM (GetByIdentity (task_Type row) (task_SubjectType row) (task_SubjectKey row) g) (\<lambda>stored.
           case stored of None \<Rightarrow> fail ErrTaskIdentityContended | Some s \<Rightarrow> ret (Some s, False)))
          (\<lambda>(s, created). stored_new row s created) w3" for g
        by (rule post_bind_keeps, rule keep) (auto split: option.splits simp: stored_new_def dest: world_step_wfD [OF _ w3])
      then show ?thesis unfolding None option.case by (cases "task_Generation row") simp_all
    next
      case (Some r)
      then show ?thesis using post_AppendEvent_stored [OF w3, of r row] ins by simp
    qed
    note tail = this
    show ?thesis unfolding None option.case
    proof (rule post_bind_keeps, goal_cases)
      case 1
      show ?case by (intro keep)
    next
      case (2 u w2)
      then have "wf_world w2" using w1 world_step_wfD by blast
      then show ?case unfolding wp_bind by (rule post_insert_task) (rule tail; auto)+
    qed
  qed (use w1 in \<open>simp add: stored_new_def\<close>)
qed

lemma post_Enqueue:
  assumes "wf_world w"
  shows "post (Enqueue True (Some t)) (\<lambda>(s, created). stored_new t s created) w"
proof -
  have tx: "post (Enqueue_tx p) (\<lambda>(s, created). stored_new t s created) w'" if "wf_world w'" "task_RetryOfTaskID p = task_RetryOfTaskID t" for p w'
    using post_Enqueue_tx [OF that(1), of p] by (rule wp_mono) (auto simp: stored_new_def that(2))
  have now: "wf_world (w\<lparr>clock := n, ticks := ts\<rparr>)" for n ts using assms by (simp add: wf_world_def)
  show ?thesis unfolding Enqueue_def option.case Let_def runMaybeTx_def
    by (auto intro!: wp_now tx now assms)
qed

lemma post_enqueuePrepared:
  assumes "wf_world w"
  shows "post (enqueuePrepared reg True t) (\<lambda>(s, created). stored_new t (Some s) created) w"
  unfolding enqueuePrepared_def wp_bind
  by (rule wp_mono [OF post_Enqueue [OF assms]])
    (auto simp: stored_new_def split: option.splits sum.splits)

lemma post_retry_tail:
  assumes "wf_world w" "task_RetryOfTaskID prepared = Some i"
    and "\<And>t. keeps world_step (f t)" and "\<And>t w'. post (f t) (\<lambda>t' _. t' = t) w'"
  shows "post (bindM (enqueuePrepared reg True prepared) (\<lambda>(t, created). if \<not> created then fail ErrConflict else f t))
     (is_retry_of i) w"
  unfolding wp_bind
proof (rule wp_mono [OF post_enqueuePrepared [OF assms(1)]], goal_cases)
  case (1 x w')
  obtain t created where x: "x = (t, created)" by (cases x)
  show ?case
  proof (cases created)
    case True
    then have "is_retry_of i t w'" using 1 x assms(2) by (auto simp: stored_new_def is_retry_of_def)
    then have "post (f t) (\<lambda>_. is_retry_of i t) w'"
      by (intro post_keeps assms(3)) (rule is_retry_of_step)
    then have "post (f t) (\<lambda>t'. is_retry_of i t') w'"
      using assms(4) [of t w'] by (rule wp_mono [OF wp_conj]) auto
    then show ?thesis using x True by simp
  qed (use x in simp)
qed auto

lemma post_Retry_tx:
  assumes "wf_world w" "definition_safe d" "task_RetryOfTaskID prepared = Some (task_ID source)"
    "\<And>g t. prep_Validate p = Some g \<Longrightarrow> keeps world_step (g t)"
    "\<And>g a b. prep_Bind p = Some g \<Longrightarrow> keeps world_step (g a b)"
  shows "post (Retry_tx reg d p source prepared) (is_retry_of (task_ID source)) w"
  unfolding Retry_tx_def
proof (rule post_bind_keeps [OF keeps_find(2)], goal_cases)
  case (1 row w1)
  then have w1: "wf_world w1" using assms(1) world_step_wfD by blast
  show ?case
  proof (cases row)
    case (Some current)
    show ?thesis unfolding Some option.case wp_bind
    proof (rule post_GetDirectSuccessor [OF w1], goal_cases)
      case (2 w2)
      then have w2: "wf_world w2" using w1 world_step_wfD by blast
      have k1: "keeps world_step (case def_InspectRetry d of None \<Rightarrow> ret () | Some f \<Rightarrow> f current)"
        and k2: "keeps world_step (case prep_Validate p of None \<Rightarrow> ret () | Some f \<Rightarrow> f current)"
        by (intro keep; use definition_safeD(1) [OF assms(2)] assms(4) in blast)+
      show ?case unfolding option.case
        apply (rule post_if, rule post_fail)
        apply (rule post_if, rule post_fail)
        apply (rule post_bind_keeps, rule k1)
        apply (rule post_bind_keeps, rule k2)
        apply (rule post_bind_keeps, (intro keep)[1])
        apply (rule post_bind_keeps, rule keep)
        apply (rule post_retry_tail)
           apply (meson w2 world_step_wfD)
          apply (rule assms(3))
         apply (intro keep)
         apply (rule assms(5), assumption)
        apply (intro post_seq post_result)
        done
    qed auto
  qed simp
qed

lemma post_retryReplay: "wf_world w \<Longrightarrow> post (retryReplay i e) (is_retry_of i) w"
  unfolding retryReplay_def wp_bind by (rule post_GetDirectSuccessor) auto

lemma post_catch_replay:
  assumes "wf_world w" "keeps world_step m" "post m (is_retry_of i) w"
  shows "post (catchM m (retryReplay i)) (is_retry_of i) w"
  unfolding wp_catch
proof (rule wp_mono [OF wp_conj [OF assms(3)]])
  show "wpM m (\<lambda>_. world_step w) (\<lambda>_. world_step w) w" using keepsD [OF assms(2)] by (simp add: wpM_same)
  show "post (retryReplay i e) (is_retry_of i) w'" if "True \<and> world_step w w'" for e w'
    using that assms(1) world_step_wfD post_retryReplay by blast
qed auto

lemma post_WithTx:
  assumes "keeps world_step m" "\<And>w'. db w' = db w \<Longrightarrow> later w w' \<Longrightarrow> post m Q w'"
  shows "post (WithTx m) Q w"
  using wp_runMaybeTx [OF assms, where intx = False] by (simp add: runMaybeTx_def)

lemma wf_later: "wf_world w \<Longrightarrow> db w' = db w \<Longrightarrow> later w w' \<Longrightarrow> wf_world w'"
  by (auto simp: wf_world_def list_all_iff)

definition preparation_safe :: "'d RetryPreparation \<Rightarrow> bool" where
  "preparation_safe p = ((\<forall>g t. prep_Validate p = Some g \<longrightarrow> keeps world_step (g t)) \<and>
     (\<forall>g a b. prep_Bind p = Some g \<longrightarrow> keeps world_step (g a b)))"

lemma post_Retry_prepared:
  assumes "wf_world w" "definition_safe d" "preparation_safe p"
  shows "post (Retry_prepared reg d source p) (is_retry_of (task_ID source)) w"
  unfolding Retry_prepared_def
proof (rule post_bind_keeps [OF keeps_prepare], goal_cases)
  case (1 p0 w1)
  then have w1: "wf_world w1" using assms(1) world_step_wfD by blast
  let ?prep = "p0\<lparr>task_RetryOfTaskID := Some (task_ID source), task_Checkpoint := prep_Checkpoint p,
             task_ResumeMode := (if prep_ResumeMode p \<noteq> TaskResumeModeOther '''' then prep_ResumeMode p else task_ResumeMode p0)\<rparr>"
  have safe: "prep_Validate p = Some g \<Longrightarrow> keeps world_step (g t)" "prep_Bind p = Some h \<Longrightarrow> keeps world_step (h a b)" for g t h a b
    using assms(3) by (auto simp: preparation_safe_def)
  have k: "keeps world_step (Retry_tx reg d p source ?prep)" using assms(2) safe by (rule keeps_Retry_tx)
  have "post (WithTx (Retry_tx reg d p source ?prep)) (is_retry_of (task_ID source)) w1"
    by (rule post_WithTx [OF k], rule post_Retry_tx [OF wf_later [OF w1] assms(2)]) (auto intro: safe)
  then show ?case unfolding Let_def by (intro post_catch_replay [OF w1 ws.keeps_WithTx [OF k]])
qed

lemma post_PrepareRetry:
  assumes "definition_safe d" "wf_world w"
  shows "post (retry_preparation d source) (\<lambda>prep w'. wf_world w' \<and> (\<forall>p. prep = Inr p \<longrightarrow> preparation_safe p)) w"
proof (cases "def_PrepareRetry d")
  case None
  then show ?thesis using assms definition_safeD(5) [OF assms(1)] by (simp add: retry_preparation_def preparation_safe_def)
next
  case (Some f)
  obtain x w' where fw: "f source w = (x, w')" by (cases "f source w")
  have "world_step w w'" using keepsD [OF definition_safeD(2) [OF assms(1) Some], of w source] fw by simp
  then have w': "wf_world w'" using assms(2) world_step_wfD by blast
  have "preparation_safe p" if "x = Inr p" for p
    using definition_safeD(3) [OF assms(1) Some, of source w p] definition_safeD(4) [OF assms(1) Some, of source w p] fw that
    by (simp add: preparation_safe_def)
  then show ?thesis using Some w' fw
    by (cases x) (auto simp: retry_preparation_def wpM_def catchM_def bindM_def ret_def)
qed

lemma post_catch_ignored:
  assumes "keeps world_step m" "\<And>x w'. world_step w w' \<Longrightarrow> Q x w'"
  shows "post (catchM (bindM m (\<lambda>_. ret None)) (\<lambda>e. ret (Some e))) Q w"
  by (rule post_keeps) (use assms in \<open>auto intro!: keep\<close>)

lemma post_Retry:
  assumes "wf_world w" "registry_safe reg"
  shows "post (Retry reg i) (is_retry_of i) w"
  unfolding Retry_def GetByID_def wp_bind
proof (rule wp_findTask, goal_cases)
  case (1 fs)
  let ?w = "w\<lparr>faults := fs\<rparr>"
  have w: "wf_world ?w" using assms(1) by (simp add: wf_world_def)
  show ?case
  proof (cases "find (\<lambda>r. task_ID r = i) (tasks (db w))")
    case (Some source)
    then have src: "task_ID source = i" by (auto simp: find_Some_iff)
    show ?thesis unfolding Some option.case wp_bind
    proof (rule post_GetDirectSuccessor [OF w], goal_cases)
      case (2 w2)
      then have w2: "wf_world w2" using w world_step_wfD by blast
      show ?case unfolding option.case wp_bind
      proof (rule post_catch_ignored, rule keeps_InspectRetry [OF assms(2)], goal_cases)
        case (1 refused w3)
        then have w3: "wf_world w3" using w2 world_step_wfD by blast
        show ?case
        proof (cases refused)
          case None
          show ?thesis
          proof (cases "registry_Definition reg (task_Type source)")
            case (Some d)
            then have d: "definition_safe d" using assms(2) by (auto simp: registry_safe_def)
            show ?thesis unfolding None Some option.case Retry_attempt_def wp_bind
            proof (rule wp_mono [OF post_PrepareRetry [OF d w3]], goal_cases)
              case (1 prep w4)
              then show ?case
                using post_retryReplay [of w4 i] post_Retry_prepared [of w4 d _ reg source] d src
                by (cases prep) (simp_all add: wp_bind)
            qed auto
          qed (simp add: None)
        next
          case (Some e)
          then show ?thesis using post_retryReplay [OF w3] by simp
        qed
      qed
    qed auto
  qed simp
qed auto

lemma keeps_bind_result:
  assumes "keeps world_step m" "\<And>x w. fst (m w) = Inr x \<Longrightarrow> keeps world_step (f x)"
  shows "keeps world_step (bindM m f)"
proof (rule keepsI)
  fix w
  obtain x w' where m: "m w = (x, w')" by (cases "m w")
  then have step: "world_step w w'" using keepsD [OF assms(1), of w] by simp
  show "world_step w (snd (bindM m f w))"
  proof (cases x)
    case (Inr y)
    then have "world_step w' (snd (f y w'))" using m by (intro keepsD [OF assms(2)]) (rule arg_cong [where f = fst, of _ "(Inr y, w')", simplified], simp)
    then show ?thesis using m Inr step ws.kept_trans by (auto simp: bindM_def)
  qed (use m step in \<open>simp add: bindM_def\<close>)
qed

lemma retry_preparation_safe:
  assumes "definition_safe d" "fst (retry_preparation d source w) = Inr (Inr p)"
  shows "preparation_safe p"
proof (cases "def_PrepareRetry d")
  case None
  then show ?thesis using assms definition_safeD(5) [OF assms(1)] by (auto simp: retry_preparation_def preparation_safe_def ret_def)
next
  case (Some f)
  then have "fst (f source w) = Inr p"
    using assms(2) by (auto simp: retry_preparation_def catchM_def bindM_def ret_def split: prod.splits sum.splits)
  then show ?thesis using definition_safeD(3,4) [OF assms(1) Some] by (simp add: preparation_safe_def)
qed

lemma keeps_Retry:
  assumes "registry_safe reg"
  shows "keeps world_step (Retry reg i)"
proof -
  have "keeps world_step (Retry_prepared reg d source p)" if "definition_safe d" "preparation_safe p" for d source p
    unfolding Retry_prepared_def by (intro keep keeps_Retry_tx that(1)) (use that(2) in \<open>auto simp: preparation_safe_def\<close>)
  then have tx: "keeps world_step (case prep of Inl e \<Rightarrow> retryReplay i e | Inr p \<Rightarrow> Retry_prepared reg d source p)"
    if "definition_safe d" "\<And>p. prep = Inr p \<Longrightarrow> preparation_safe p" for d prep source
    using that by (intro keep) auto
  have "keeps world_step (retry_preparation d source)" if "definition_safe d" for d source
    unfolding retry_preparation_def by (intro keep, rule definition_safeD(2) [OF that])
  then have "keeps world_step (Retry_attempt reg i d source)" if "definition_safe d" for d source
    unfolding Retry_attempt_def by (rule keeps_bind_result [OF _ tx]) (use that retry_preparation_safe in blast)+
  then show ?thesis unfolding Retry_def
    by (intro keep keeps_InspectRetry assms) (use assms in \<open>auto simp: registry_safe_def\<close>)
qed

section \<open>Properties of retries\<close>

text \<open>C20: retrying is idempotent. A retry that succeeds returns the stored successor of its round; after
  it, in every later state of every run, a retry of the same round returns that same successor,
  so a round is never retried twice.\<close>

theorem retry_is_idempotent:
  assumes "wf_world w" "registry_safe reg" "Retry reg i w = (Inr t, w1)" "run redact w1 w2" "Retry reg i w2 = (Inr t', w3)"
  shows "task_RetryOfTaskID t = Some i \<and> task_RetryOfTaskID t' = Some i \<and> task_ID t' = task_ID t"
proof -
  have t: "is_retry_of i t w1" using post_Retry [OF assms(1,2), of i] assms(3) by (simp add: wpM_def)
  then have t2: "is_retry_of i t w2" using run_world_step [OF assms(4)] by (rule is_retry_of_step)
  then have "wf_world w2" by (simp add: is_retry_of_def)
  then have t': "is_retry_of i t' w3" using post_Retry [OF _ assms(2), of w2 i] assms(5) by (simp add: wpM_def)
  have "world_step w2 w3" using keepsD [OF keeps_Retry [OF assms(2)], of w2 i] assms(5) by simp
  then show ?thesis using is_retry_of_unique [OF is_retry_of_step [OF t2] t'] t t' by (simp add: is_retry_of_def)
qed

text \<open>A registry with one retryable type, and a failed round of it, for the witnesses.\<close>

definition example_policy :: ExecutionPolicy where
  "example_policy = \<lparr>MaxAttempts = 3, DependencyRetries = 0, Backoff = DefaultBackoffPolicy, ResendBackoff = None,
     InvocationTimeout = 0, ObservationWindow = 0, ObservationInterval = 30, WaitInterval = 0\<rparr>"

definition example_definition :: "unit Definition" where
  "example_definition = \<lparr>def_Type = ''upload_plan'', def_MaxConcurrency = 1, def_WorkStart = WorkStartOnHandler, def_InputVersion = 1,
     def_Codec = Some CodecOk, def_Policy = example_policy, def_AllowRetry = True, def_CanManualRetry = None, def_OnEngineFailure = None,
     def_Identity = Some (\<lambda>_. Inr \<lparr>id_SubjectType = ''content'', id_SubjectKey = ''7'', id_Generation = Some 0\<rparr>),
     def_InspectRetry = None, def_PrepareRetry = None, def_BindSuccessor = None, def_RetryCheckpoint = None, def_NextCycleCheckpoint = None\<rparr>"

definition retry_registry :: "unit Registry" where
  "retry_registry = NewRegistry\<lparr>reg_definitions := [(''upload_plan'', example_definition)]\<rparr>"

definition failed_task :: Task where
  "failed_task = example_task\<lparr>task_Status := TaskStatusFailed, task_LeaseUntil := None, task_FinishedAt := Some 90,
     task_FailureReason := Some ''lost''\<rparr>"

lemma retry_registry_safe: "registry_safe retry_registry"
  by (auto simp: registry_safe_def registry_Definition_def retry_registry_def definition_safe_def example_definition_def split: if_splits)

theorem retry_is_idempotent_witness:
  "let w = example_world [failed_task]; r1 = Retry retry_registry 1 w; r2 = Retry retry_registry 1 (snd r1)
   in case (fst r1, fst r2) of (Inr t, Inr t') \<Rightarrow> task_RetryOfTaskID t = Some 1 \<and> task_RetryOfTaskID t' = Some 1 \<and> task_ID t' = task_ID t
      | _ \<Rightarrow> False"
proof -
  let ?w = "example_world [failed_task]"
  have wf: "wf_world ?w" by code_simp
  have "\<not> isl (fst (Retry retry_registry 1 ?w))" "\<not> isl (fst (Retry retry_registry 1 (snd (Retry retry_registry 1 ?w))))"
    by code_simp+
  then obtain t t' where r: "fst (Retry retry_registry 1 ?w) = Inr t" "fst (Retry retry_registry 1 (snd (Retry retry_registry 1 ?w))) = Inr t'"
    by (metis sum.collapse(2))
  have "Retry retry_registry 1 ?w = (Inr t, snd (Retry retry_registry 1 ?w))" using r(1) by (metis prod.collapse)
  moreover have "Retry retry_registry 1 (snd (Retry retry_registry 1 ?w)) = (Inr t', snd (Retry retry_registry 1 (snd (Retry retry_registry 1 ?w))))"
    using r(2) by (metis prod.collapse)
  ultimately have "task_RetryOfTaskID t = Some 1 \<and> task_RetryOfTaskID t' = Some 1 \<and> task_ID t' = task_ID t"
    by (rule retry_is_idempotent [OF wf retry_registry_safe _ run_refl])
  then show ?thesis using r by (simp add: Let_def)
qed

section \<open>Properties of recurring tasks\<close>

text \<open>C23: a recurring task never overlaps itself: while the round at the head of a schedule is pending or
  running, dispatching the schedule changes nothing, in any environment.\<close>

theorem schedule_waits_for_its_head:
  assumes "find (\<lambda>s. sched_Key s = sd_Key def) (task_schedules (db w)) = Some s" "sched_LatestTaskID s = Some i"
    and "row_of i (db w) = Some r" "task_Status r = TaskStatusPending \<or> task_Status r = TaskStatusRunning"
  shows "db (snd (dispatch_schedule reg def w)) = db w"
proof -
  have "wpM (dispatch_schedule reg def) (\<lambda>_ w'. db w' = db w) (\<lambda>_ w'. db w' = db w) w"
    unfolding dispatch_schedule_def Schedule_GetForUpdate_def wp_bind
    by (rule wp_query)
      (use assms in \<open>auto simp: row_of_def GetByID_def intro!: wp_now wp_findTask\<close>)
  then show ?thesis by (simp add: wpM_same)
qed

theorem schedule_waits_for_its_head_witness:
  "let w0 = example_world [example_task];
       w = w0\<lparr>db := (db w0)\<lparr>task_schedules := [\<lparr>sched_Key = ''k'', sched_NextRunAt = 50, sched_LatestTaskID = Some 1, sched_Generation = 3\<rparr>]\<rparr>\<rparr>
   in db (snd (dispatch_schedule retry_registry \<lparr>sd_Key = ''k'', sd_Type = ''upload_plan'', sd_Interval = 60\<rparr> w)) = db w"
  unfolding Let_def
  by (rule schedule_waits_for_its_head [where i = 1 and r = example_task and
        s = "\<lparr>sched_Key = ''k'', sched_NextRunAt = 50, sched_LatestTaskID = Some 1, sched_Generation = 3\<rparr>"])
    (simp_all add: example_world_def row_of_def example_task_def)

end
