(* ===== verification/Task_Claims.thy ===== *)
theory Task_Claims
  imports Task_Runs
begin

text \<open>
  Claiming a task (\<open>ClaimNext\<close> of \<open>task_repo.go\<close>). The filtered claim finds its candidate with a
  skip scan over the task types and retries past locked rows; the theorems show that it chooses
  the same row as the plain ordered query, that its loop ends, and that a claim takes a round
  that is pending or whose lease has run out and gives it a new claim generation.
\<close>

section \<open>Least rows\<close>

lemma min_row_None [simp]: "min_row k rs = None \<longleftrightarrow> rs = []"
  by (cases rs) (auto split: option.splits)

lemma min_row_least: "min_row k rs = Some r \<Longrightarrow> q \<in> set rs \<Longrightarrow> k r \<le> k q"
proof (induction rs arbitrary: r)
  case (Cons a rs)
  show ?case
  proof (cases "min_row k rs")
    case (Some s)
    then have "q \<in> set rs \<Longrightarrow> k s \<le> k q" using Cons.IH by blast
    then show ?thesis using Cons.prems Some by (auto split: if_splits)
  qed (use Cons.prems in auto)
qed simp

lemma map_filter_mem: "h \<in> set (List.map_filter f xs) \<longleftrightarrow> (\<exists>x \<in> set xs. f x = Some h)"
  by (induction xs) (auto simp: List.map_filter_simps split: option.splits)

lemma min_row_eqI:
  assumes "r \<in> set rs" "\<And>q. q \<in> set rs \<Longrightarrow> k r \<le> k q" "inj_on k (set rs)"
  shows "min_row k rs = Some r"
proof (cases "min_row k rs")
  case (Some s)
  then have "s \<in> set rs" "k s \<le> k r" using assms(1) min_row_mem min_row_least by metis+
  then have "k s = k r" using assms(2) by (simp add: order_antisym)
  then show ?thesis using Some \<open>s \<in> set rs\<close> assms(1,3) by (simp add: inj_on_def)
qed (use assms(1) in auto)

text \<open>The least of the heads is the least of all rows, when every row has a head below it.\<close>

lemma min_row_cover:
  assumes "set hs \<subseteq> set rs" "\<And>r. r \<in> set rs \<Longrightarrow> \<exists>h \<in> set hs. k h \<le> k r" "inj_on k (set rs)"
  shows "min_row k hs = min_row k rs"
proof (cases "min_row k rs")
  case None
  then have "rs = []" by simp
  then have "hs = []" using assms(1) by simp
  then show ?thesis using \<open>rs = []\<close> by simp
next
  case (Some r)
  then have r: "r \<in> set rs" "\<And>q. q \<in> set rs \<Longrightarrow> k r \<le> k q"
    by (blast dest: min_row_mem min_row_least)+
  obtain h where h: "h \<in> set hs" "k h \<le> k r" using assms(2) [OF r(1)] by blast
  then have "h = r" using r assms(1) inj_onD [OF assms(3), of h r] by (auto simp: order_antisym)
  then have "min_row k hs = Some r"
    using h r assms(1) inj_on_subset [OF assms(3,1)] by (intro min_row_eqI) auto
  then show ?thesis using Some by simp
qed

lemma claim_key_inj: "distinct (map task_ID rows) \<Longrightarrow> inj_on (claim_key st) (set rows)"
  by (auto simp: inj_on_def claim_key_def distinct_map)

section \<open>The skip scan\<close>

lemma skip_scan_step:
  assumes "min_row (\<lambda>t. t) ts = Some t"
  shows "set ts = insert t (set (filter (\<lambda>x. t < x) ts))"
proof -
  have "t \<in> set ts" using assms by (rule min_row_mem)
  moreover have "t \<le> x" if "x \<in> set ts" for x using min_row_least [OF assms that] .
  ultimately show ?thesis by (auto simp: le_less)
qed

lemma skip_scan_set: "set (skip_scan ts) = set ts"
proof (induction ts rule: skip_scan.induct)
  case (1 ts)
  show ?case
  proof (cases "min_row (\<lambda>t. t) ts")
    case (Some t)
    have "skip_scan ts = t # skip_scan (filter (\<lambda>x. t < x) ts)" by (subst skip_scan.simps) (simp add: Some)
    then show ?thesis by (simp only: list.set(2) 1 [OF Some] skip_scan_step [OF Some, symmetric])
  next
    case None
    then have "ts = []" by simp
    moreover have "skip_scan [] = []" by (subst skip_scan.simps) simp
    ultimately show ?thesis by simp
  qed
qed

lemma filtered_candidate_is_first:
  assumes "distinct (map task_ID rows)"
  shows "filteredTaskCandidate st exT exI n rows =
    min_row (claim_key st) (filter (\<lambda>r. eligible st n r \<and> task_Type r \<notin> set exT \<and> task_ID r \<notin> set exI) rows)"
proof -
  let ?sel = "filter (\<lambda>r. eligible st n r \<and> task_Type r \<notin> set exT \<and> task_ID r \<notin> set exI) rows"
  let ?of = "\<lambda>t. filter (\<lambda>r. eligible st n r \<and> task_Type r = t \<and> task_ID r \<notin> set exI) rows"
  let ?types = "filter (\<lambda>t. t \<notin> set exT) (skip_scan (map task_Type (filter (\<lambda>r. task_Status r = st) rows)))"
  let ?heads = "List.map_filter (\<lambda>t. min_row (claim_key st) (?of t)) ?types"
  have "min_row (claim_key st) ?heads = min_row (claim_key st) ?sel"
  proof (rule min_row_cover)
    show "set ?heads \<subseteq> set ?sel"
    proof
      fix h assume "h \<in> set ?heads"
      then obtain t where t: "t \<in> set ?types" "min_row (claim_key st) (?of t) = Some h" unfolding map_filter_mem by blast
      show "h \<in> set ?sel" using min_row_mem [OF t(2)] t(1) by simp
    qed
    fix r assume "r \<in> set ?sel"
    then have r: "r \<in> set (?of (task_Type r))" and t: "task_Type r \<in> set ?types"
      by (auto simp: skip_scan_set eligible_def)
    have "?of (task_Type r) \<noteq> []" using r by (metis empty_iff list.set(1))
    then obtain h where h: "min_row (claim_key st) (?of (task_Type r)) = Some h" by (meson min_row_None option.exhaust)
    then have "h \<in> set ?heads" unfolding map_filter_mem using t by blast
    then show "\<exists>h \<in> set ?heads. claim_key st h \<le> claim_key st r" using min_row_least [OF h r] by blast
  next
    show "inj_on (claim_key st) (set ?sel)" using claim_key_inj [OF assms] by (rule inj_on_subset) auto
  qed
  then show ?thesis unfolding filteredTaskCandidate_def Let_def .
qed

section \<open>What a claim does\<close>

text \<open>The row \<open>r\<close> was taken: it was pending or expired at the selection time \<open>n\<close>, not excluded and
  not locked; it now carries the next claim generation and a lease from the claim time \<open>t\<close>.\<close>

definition claim_taken :: "duration \<Rightarrow> TaskClaimFilter \<Rightarrow> int list \<Rightarrow> 'd tables world \<Rightarrow> Task \<Rightarrow> 'd tables world \<Rightarrow> bool" where
  "claim_taken dur flt locked w r w' = (\<exists>r0 st n t. (st = TaskStatusRunning \<or> st = TaskStatusPending) \<and>
     row_of (task_ID r) (db w) = Some r0 \<and> clock w \<le> n \<and> n \<le> t \<and> t \<le> clock w' \<and> eligible st n r0 \<and>
     task_Type r0 \<notin> set (ExcludedTypes flt) \<and> task_ID r0 \<notin> set (ExcludedTaskIDs flt) \<and> task_ID r0 \<notin> set locked \<and>
     r = claim_update st (t + dur) t r0 \<and> row_of (task_ID r) (db w') = Some r \<and>
     (\<forall>j. j \<noteq> task_ID r \<longrightarrow> row_of j (db w') = row_of j (db w)))"

abbreviation claim_result :: "duration \<Rightarrow> TaskClaimFilter \<Rightarrow> int list \<Rightarrow> 'd tables world \<Rightarrow> Task option \<Rightarrow> 'd tables world \<Rightarrow> bool" where
  "claim_result dur flt locked w x w' \<equiv>
     (case x of None \<Rightarrow> db w' = db w \<and> later w w' | Some r \<Rightarrow> claim_taken dur flt locked w r w')"

lemma claim_update_id [simp]: "task_ID (claim_update st l t r) = task_ID r" "task_Type (claim_update st l t r) = task_Type r"
  by (simp_all add: claim_update_def)

lemma claim_takenI:
  assumes "tables_ok (db w0)" "r0 \<in> set (tasks (db w0))" "st = TaskStatusRunning \<or> st = TaskStatusPending"
    "clock w0 \<le> n" "n \<le> t" "t \<le> clock w'" "eligible st n r0" "task_Type r0 \<notin> set (ExcludedTypes flt)"
    "task_ID r0 \<notin> set (ExcludedTaskIDs flt)" "task_ID r0 \<notin> set locked"
    and P: "P r0" "\<And>q. P q \<Longrightarrow> task_ID q = task_ID r0"
    and w': "tasks (db w') = update_where P (claim_update st (t + dur) t) (tasks (db w0))"
    and "r = claim_update st (t + dur) t r0"
  shows "claim_taken dur flt locked w0 r w'"
proof -
  let ?f = "claim_update st (t + dur) t"
  have r0: "row_of (task_ID r0) (db w0) = Some r0" using assms(1,2) by (rule row_of_unique)
  have rows: "row_of j (db w') = map_option (\<lambda>q. if P q then ?f q else q) (row_of j (db w0))" for j
    using row_of_update [of ?f j P "db w0"] w' by (simp add: row_of_def)
  have "row_of j (db w') = row_of j (db w0)" if "j \<noteq> task_ID r0" for j
  proof (cases "row_of j (db w0)")
    case (Some q)
    then have "\<not> P q" using P(2) row_of_Some [OF Some] that by auto
    then show ?thesis using rows [of j] Some by simp
  qed (simp add: rows)
  then show ?thesis
    unfolding claim_taken_def assms(14) using assms(3-10) r0 rows [of "task_ID r0"] P(1)
    by (intro exI [of _ r0] exI [of _ st] exI [of _ n] exI [of _ t]) simp
qed

lemma claimTaskWithSQL_post:
  assumes "tables_ok (db w)" "db w0 = db w" "later w0 w" "st = TaskStatusRunning \<or> st = TaskStatusPending" "clock w0 \<le> n" "n \<le> clock w"
  shows "wpM (claimTaskWithSQL st n (n + dur) flt locked) (claim_result dur flt locked w0) (\<lambda>_ _. True) w"
  unfolding claimTaskWithSQL_def
proof (rule wp_stmtE, goal_cases)
  case (1 x d' fs)
  let ?sel = "filter (\<lambda>r. eligible st n r \<and> task_Type r \<notin> set (ExcludedTypes flt) \<and>
                     task_ID r \<notin> set (ExcludedTaskIDs flt) \<and> task_ID r \<notin> set locked) (tasks (db w))"
  show ?case
  proof (cases "min_row (claim_key st) ?sel")
    case None
    then show ?thesis using 1 assms(2,3) by simp
  next
    case (Some r0)
    then have r0: "r0 \<in> set ?sel" by (rule min_row_mem)
    have x: "x = Some (claim_update st (n + dur) n r0)"
      "tasks d' = update_where (\<lambda>x. task_ID x = task_ID r0 \<and> eligible st n x) (claim_update st (n + dur) n) (tasks (db w0))"
      using 1 Some assms(2) by (auto simp: update_result_Inr)
    have "claim_taken dur flt locked w0 (claim_update st (n + dur) n r0) (w\<lparr>db := d', faults := fs\<rparr>)"
      by (rule claim_takenI [where P = "\<lambda>x. task_ID x = task_ID r0 \<and> eligible st n x" and n = n and t = n and ?r0.0 = r0])
        (use assms r0 x(2) in auto)
    then show ?thesis using x(1) by simp
  qed
qed auto

lemma claimTaskCandidate_post:
  assumes "tables_ok (db w)" "db w0 = db w" "later w0 w" "st = TaskStatusRunning \<or> st = TaskStatusPending"
    and "clock w0 \<le> n" "n \<le> t" "t \<le> clock w" "task_Type c \<notin> set (ExcludedTypes flt)" "task_ID c \<notin> set (ExcludedTaskIDs flt)"
  shows "wpM (claimTaskCandidate st c (t + dur) t n locked) (claim_result dur flt locked w0) (\<lambda>_ _. True) w"
  unfolding claimTaskCandidate_def Let_def
proof (rule wp_stmtE, goal_cases)
  case (1 x d' fs)
  let ?P = "\<lambda>r. task_ID r = task_ID c \<and> task_Type r = task_Type c \<and> task_ClaimGeneration r = task_ClaimGeneration c \<and>
              ordering_time st r = ordering_time st c \<and> eligible st n r \<and> task_ID r \<notin> set locked"
  have x: "x = map_option (claim_update st (t + dur) t) (find ?P (tasks (db w)))"
    "d' = (db w)\<lparr>tasks := update_where ?P (claim_update st (t + dur) t) (tasks (db w))\<rparr>"
    using 1 by (auto simp: update_result_Inr)
  show ?case
  proof (cases "find ?P (tasks (db w))")
    case None
    then have "update_where ?P (claim_update st (t + dur) t) (tasks (db w)) = tasks (db w)"
      unfolding update_where_def find_None_iff by (intro map_idI) auto
    then show ?thesis using x None assms(2,3) by simp
  next
    case (Some r0)
    then have r0: "r0 \<in> set (tasks (db w))" "?P r0" by (auto simp: find_Some_iff)
    have "claim_taken dur flt locked w0 (claim_update st (t + dur) t r0) (w\<lparr>db := d', faults := fs\<rparr>)"
      by (rule claim_takenI [where P = ?P and n = n and t = t and ?r0.0 = r0]) (use assms r0 x(2) in auto)
    then show ?thesis using x(1) Some by simp
  qed
qed auto

lemma claimFilteredTask_loop_post:
  assumes "tables_ok (db w)" "db w0 = db w" "later w0 w" "st = TaskStatusRunning \<or> st = TaskStatusPending"
    and "clock w0 \<le> n" "n \<le> clock w" "set (ExcludedTaskIDs flt) \<subseteq> set ids"
  shows "wpM (claimFilteredTask_loop k dur (ExcludedTypes flt) ids locked n st) (claim_result dur flt locked w0) (\<lambda>_ _. True) w"
  using assms
proof (induction k arbitrary: ids w)
  case (Suc k)
  have cand: "task_Type c \<notin> set (ExcludedTypes flt)" "task_ID c \<notin> set (ExcludedTaskIDs flt)"
    if "filteredTaskCandidate st (ExcludedTypes flt) ids n (tasks (db w)) = Some c" for c
    using that Suc.prems(7) min_row_mem
    unfolding filtered_candidate_is_first [OF tables_okD(2) [OF Suc.prems(1)]] by fastforce+
  show ?case
    unfolding claimFilteredTask_loop.simps wp_bind
  proof (rule wp_ctx_done, unfold wp_if, simp, intro impI, rule wp_query, goal_cases)
    case (1 bs fs)
    show ?case
    proof (cases "filteredTaskCandidate st (ExcludedTypes flt) ids n (tasks (db w))")
      case None
      then show ?thesis using Suc.prems by simp
    next
      case (Some c)
      have step: "wpM (claimTaskCandidate st c (t + dur) t n locked)
         (\<lambda>x. wpM (case x of None \<Rightarrow> claimFilteredTask_loop k dur (ExcludedTypes flt) (ids @ [task_ID c]) locked n st | Some r \<Rightarrow> ret (Some r))
            (claim_result dur flt locked w0) (\<lambda>_ _. True)) (\<lambda>_ _. True) w'"
        if w': "db w' = db w" "later w w'" "t = clock w'" for w' t
      proof (rule wp_mono [OF wp_conj [OF claimTaskCandidate_post [where ?w0.0 = w0 and flt = flt]
              keeps_later [OF keeps_claimTaskCandidate [OF Suc.prems(4)]]]], goal_cases)
        case (10 x w'')
        show ?case
        proof (cases x)
          case None
          have "wpM (claimFilteredTask_loop k dur (ExcludedTypes flt) (ids @ [task_ID c]) locked n st)
              (claim_result dur flt locked w0) (\<lambda>_ _. True) w''"
            by (rule Suc.IH) (use Suc.prems w' 10 None in auto)
          then show ?thesis using None by simp
        qed (use 10 in simp)
      qed (use Suc.prems w' cand [OF Some] in auto)
      have same: "tasks (db (w\<lparr>ctx_script := bs'\<rparr>)) = tasks (db w)" for bs' by simp
      show ?thesis unfolding same Some option.case wp_bind
        by (rule wp_now, rule step) auto
    qed
  qed auto
qed simp

lemma claimFilteredTask_post:
  assumes "tables_ok (db w)" "db w0 = db w" "later w0 w" "st = TaskStatusRunning \<or> st = TaskStatusPending"
    and "clock w0 \<le> n" "n \<le> clock w"
  shows "wpM (claimFilteredTask dur flt locked n st) (\<lambda>x w'. claim_result dur flt locked w0 x w' \<and> later w w') (\<lambda>_ _. True) w"
  using wp_conj [OF claimFilteredTask_loop_post [OF assms, of flt "ExcludedTaskIDs flt" "Suc (length (tasks (db w)))" dur locked]
      keeps_later [OF keeps_claimFilteredTask_loop [OF assms(4)]]]
  by (auto simp: claimFilteredTask_def wpM_def split: prod.splits sum.splits)

lemma claimTaskWithSQL_later:
  assumes "tables_ok (db w)" "db w0 = db w" "later w0 w" "st = TaskStatusRunning \<or> st = TaskStatusPending" "clock w0 \<le> n" "n \<le> clock w"
  shows "wpM (claimTaskWithSQL st n (n + dur) flt locked) (\<lambda>x w'. claim_result dur flt locked w0 x w' \<and> later w w') (\<lambda>_ _. True) w"
  using wp_conj [OF claimTaskWithSQL_post [OF assms] keeps_later [OF keeps_claimTaskWithSQL [OF assms(4)]]]
  by (rule wp_mono) auto

text \<open>The two passes of a claim: expired leases first, then pending rounds.\<close>

lemma claim_two_passes:
  assumes "\<And>st w'. st = TaskStatusRunning \<or> st = TaskStatusPending \<Longrightarrow> db w' = db w \<Longrightarrow> later w w' \<Longrightarrow> n \<le> clock w' \<Longrightarrow>
      wpM (m st) (\<lambda>x w''. claim_result dur flt locked w x w'' \<and> later w' w'') (\<lambda>_ _. True) w'"
    and "db w1 = db w" "later w w1" "n \<le> clock w1"
  shows "wpM (bindM (m TaskStatusRunning) (\<lambda>t. case t of Some r \<Rightarrow> ret (Some r) | None \<Rightarrow> m TaskStatusPending))
      (claim_result dur flt locked w) (\<lambda>_ _. True) w1"
  unfolding wp_bind
proof (rule wp_mono [OF assms(1)], goal_cases)
  case (5 x w')
  have "wpM (m TaskStatusPending) (claim_result dur flt locked w) (\<lambda>_ _. True) w'" if "x = None"
    by (rule wp_mono [OF assms(1)]) (use 5 that assms(2-4) in auto)
  then show ?case using 5 by (cases x) auto
qed (use assms(2-4) in auto)

lemma claimNextPostgres_post:
  assumes "tables_ok (db w)"
  shows "wpM (claimNextPostgres dur flt locked) (claim_result dur flt locked w) (\<lambda>_ _. True) w"
proof -
  have "wpM (bindM (claimTaskWithSQL TaskStatusRunning t (t + dur) flt locked) (\<lambda>x.
      case x of Some r \<Rightarrow> ret (Some r) | None \<Rightarrow> claimTaskWithSQL TaskStatusPending t (t + dur) flt locked))
      (claim_result dur flt locked w) (\<lambda>_ _. True) (w\<lparr>clock := t, ticks := ts\<rparr>)" if "clock w \<le> t" for t ts
    by (rule claim_two_passes [where m = "\<lambda>st. claimTaskWithSQL st t (t + dur) flt locked" and n = t], rule claimTaskWithSQL_later)
      (use assms that in auto)
  then have "wpM (claimNextTask dur flt locked) (claim_result dur flt locked w) (\<lambda>_ _. True) w"
    unfolding claimNextTask_def Let_def by (subst wp_bind) (rule wp_now)
  moreover have "wpM (bindM (claimFilteredTask dur flt locked t TaskStatusRunning) (\<lambda>x.
      case x of Some r \<Rightarrow> ret (Some r) | None \<Rightarrow> claimFilteredTask dur flt locked t TaskStatusPending))
      (claim_result dur flt locked w) (\<lambda>_ _. True) (w\<lparr>clock := t, ticks := ts\<rparr>)" if "clock w \<le> t" for t ts
    by (rule claim_two_passes [where m = "\<lambda>st. claimFilteredTask dur flt locked t st" and n = t], rule claimFilteredTask_post)
      (use assms that in auto)
  then have "wpM (bindM now (\<lambda>n. bindM (claimFilteredTask dur flt locked n TaskStatusRunning) (\<lambda>t.
      case t of Some r \<Rightarrow> ret (Some r) | None \<Rightarrow> claimFilteredTask dur flt locked n TaskStatusPending)))
      (claim_result dur flt locked w) (\<lambda>_ _. True) w"
    by (subst wp_bind) (rule wp_now)
  ultimately show ?thesis unfolding claimNextPostgres_def by (simp only: wp_if split: if_split) blast
qed

lemma ClaimNext_post:
  assumes "tables_ok (db w)"
  shows "wpM (ClaimNext intx dur flt locked) (\<lambda>x w'. 0 < dur \<and> claim_result dur flt locked w x w') (\<lambda>_ _. True) w"
  using claimNextPostgres_post [OF assms, of dur flt locked]
  by (auto simp: ClaimNext_def elim: wp_mono)

section \<open>The retry loop of the filtered claim\<close>

definition first_free :: "TaskStatus \<Rightarrow> time \<Rightarrow> TaskClaimFilter \<Rightarrow> int list \<Rightarrow> Task list \<Rightarrow> Task option" where
  "first_free st n flt locked rows = min_row (claim_key st)
     (filter (\<lambda>r. eligible st n r \<and> task_Type r \<notin> set (ExcludedTypes flt) \<and>
        task_ID r \<notin> set (ExcludedTaskIDs flt) \<and> task_ID r \<notin> set locked) rows)"

abbreviation picked :: "TaskStatus \<Rightarrow> time \<Rightarrow> duration \<Rightarrow> TaskClaimFilter \<Rightarrow> int list \<Rightarrow> Task list \<Rightarrow> Task option \<Rightarrow> bool" where
  "picked st n dur flt locked rows x \<equiv> \<exists>t. x = map_option (claim_update st (t + dur) t) (first_free st n flt locked rows)"

lemma first_free_candidate:
  assumes "distinct (map task_ID rows)" "filteredTaskCandidate st (ExcludedTypes flt) ids n rows = c"
    and "set (ExcludedTaskIDs flt) \<subseteq> set ids" "set ids \<subseteq> set (ExcludedTaskIDs flt) \<union> set locked"
    and "\<And>r. c = Some r \<Longrightarrow> task_ID r \<notin> set locked"
  shows "first_free st n flt locked rows = c"
proof -
  let ?free = "filter (\<lambda>r. eligible st n r \<and> task_Type r \<notin> set (ExcludedTypes flt) \<and>
        task_ID r \<notin> set (ExcludedTaskIDs flt) \<and> task_ID r \<notin> set locked) rows"
  let ?cand = "filter (\<lambda>r. eligible st n r \<and> task_Type r \<notin> set (ExcludedTypes flt) \<and> task_ID r \<notin> set ids) rows"
  have c: "min_row (claim_key st) ?cand = c" using filtered_candidate_is_first [OF assms(1)] assms(2) by simp
  have sub: "set ?free \<subseteq> set ?cand" using assms(4) by auto
  have "min_row (claim_key st) ?free = min_row (claim_key st) ?cand"
  proof (cases c)
    case None
    then have "?cand = []" using c by simp
    moreover then have "?free = []" using sub by (metis (no_types, lifting) list.set(1) set_empty subset_empty)
    ultimately show ?thesis by simp
  next
    case (Some r)
    then have r: "r \<in> set ?cand" "\<And>q. q \<in> set ?cand \<Longrightarrow> claim_key st r \<le> claim_key st q"
      using c by (auto dest: min_row_mem min_row_least)
    then have "r \<in> set ?free" using assms(3,5) Some by auto
    then have "min_row (claim_key st) ?free = Some r"
      using r sub claim_key_inj [OF assms(1), of st] by (intro min_row_eqI) (auto intro: inj_on_subset)
    then show ?thesis using c Some by simp
  qed
  then show ?thesis using c by (simp add: first_free_def)
qed

lemma claimTaskCandidate_locked:
  assumes "task_ID c \<in> set locked" "\<And>w'. db w' = db w \<Longrightarrow> Q None w'" "\<And>e w'. E (ErrDb e) w'"
  shows "wpM (claimTaskCandidate st c l t n locked) Q E w"
  unfolding claimTaskCandidate_def Let_def
proof (rule wp_stmtE, goal_cases)
  case (1 x d' fs)
  let ?P = "\<lambda>r. task_ID r = task_ID c \<and> task_Type r = task_Type c \<and> task_ClaimGeneration r = task_ClaimGeneration c \<and>
              ordering_time st r = ordering_time st c \<and> eligible st n r \<and> task_ID r \<notin> set locked"
  have "find ?P (tasks (db w)) = None" using assms(1) by (auto simp: find_None_iff)
  moreover have "update_where ?P f (tasks (db w)) = tasks (db w)" for f
    using assms(1) unfolding update_where_def by (intro map_idI) auto
  ultimately show ?case using 1 assms(2) by (auto simp: update_result_Inr)
qed (use assms(3) in auto)

lemma claimTaskCandidate_free:
  assumes "tables_ok (db w)" "c \<in> set (tasks (db w))" "eligible st n c" "task_ID c \<notin> set locked"
    and "\<And>w'. Q (Some (claim_update st l t c)) w'" "\<And>e w'. E (ErrDb e) w'"
  shows "wpM (claimTaskCandidate st c l t n locked) Q E w"
  unfolding claimTaskCandidate_def Let_def
proof (rule wp_stmtE, goal_cases)
  case (1 x d' fs)
  let ?P = "\<lambda>r. task_ID r = task_ID c \<and> task_Type r = task_Type c \<and> task_ClaimGeneration r = task_ClaimGeneration c \<and>
              ordering_time st r = ordering_time st c \<and> eligible st n r \<and> task_ID r \<notin> set locked"
  have "find ?P (tasks (db w)) \<noteq> None" using assms(2-4) by (auto simp: find_None_iff)
  then obtain q where q: "find ?P (tasks (db w)) = Some q" by blast
  then have "q \<in> set (tasks (db w))" "task_ID q = task_ID c" by (auto simp: find_Some_iff)
  then have "q = c" using row_of_unique [OF assms(1)] assms(2) by (metis option.inject)
  then show ?case using 1 q assms(5) by (auto simp: update_result_Inr)
qed (use assms(6) in auto)

lemma claimFilteredTask_loop_picks:
  assumes "tables_ok (db w)" "set (ExcludedTaskIDs flt) \<subseteq> set ids" "set ids \<subseteq> set (ExcludedTaskIDs flt) \<union> set locked"
    and "length (filter (\<lambda>r. task_ID r \<notin> set ids) (tasks (db w))) < k"
  shows "wpM (claimFilteredTask_loop k dur (ExcludedTypes flt) ids locked n st)
    (\<lambda>x _. picked st n dur flt locked (tasks (db w)) x) (\<lambda>e _. e \<noteq> ErrText ''fuel'') w"
  using assms
proof (induction k arbitrary: ids w)
  case (Suc k)
  note dist = tables_okD(2) [OF Suc.prems(1)]
  let ?c = "filteredTaskCandidate st (ExcludedTypes flt) ids n (tasks (db w))"
  note first = first_free_candidate [OF dist _ Suc.prems(2,3), of st n ?c, OF refl]
  have claim: "wpM (claimTaskCandidate st c (t + dur) t n locked)
      (\<lambda>x. wpM (case x of None \<Rightarrow> claimFilteredTask_loop k dur (ExcludedTypes flt) (ids @ [task_ID c]) locked n st | Some r \<Rightarrow> ret (Some r))
        (\<lambda>x _. picked st n dur flt locked (tasks (db w)) x) (\<lambda>e _. e \<noteq> ErrText ''fuel'')) (\<lambda>e _. e \<noteq> ErrText ''fuel'') w'"
    if c: "?c = Some c" and w': "db w' = db w" for c t w'
  proof (cases "task_ID c \<in> set locked")
    have cmem: "c \<in> set (filter (\<lambda>r. eligible st n r \<and> task_Type r \<notin> set (ExcludedTypes flt) \<and> task_ID r \<notin> set ids) (tasks (db w)))"
      using c unfolding filtered_candidate_is_first [OF dist] by (rule min_row_mem)
    {
      case True
      have "length (filter (\<lambda>r. task_ID r \<notin> set (ids @ [task_ID c])) (tasks (db w))) < length (filter (\<lambda>r. task_ID r \<notin> set ids) (tasks (db w)))"
        using cmem length_filter_less [of c "filter (\<lambda>r. task_ID r \<notin> set ids) (tasks (db w))" "\<lambda>r. task_ID r \<noteq> task_ID c"]
        by (simp add: conj_commute)
      then have "wpM (claimFilteredTask_loop k dur (ExcludedTypes flt) (ids @ [task_ID c]) locked n st)
          (\<lambda>x _. picked st n dur flt locked (tasks (db w'')) x) (\<lambda>e _. e \<noteq> ErrText ''fuel'') w''" if "db w'' = db w" for w''
        using that Suc.prems True by (intro Suc.IH) auto
      then show ?thesis using True w' by (intro claimTaskCandidate_locked) auto
    next
      case False
      have "first_free st n flt locked (tasks (db w)) = Some c" using first c False by simp
      then show ?thesis using cmem False w' Suc.prems(1) by (intro claimTaskCandidate_free) auto
    }
  qed
  have same: "tasks (db (w\<lparr>ctx_script := bs\<rparr>)) = tasks (db w)" for bs by simp
  show ?case
    unfolding claimFilteredTask_loop.simps wp_bind
  proof (rule wp_ctx_done, unfold wp_if, simp, intro impI, rule wp_query, goal_cases)
    case (1 bs fs)
    show ?case
    proof (cases ?c)
      case None
      then show ?thesis using first by simp
    next
      case (Some c)
      show ?thesis unfolding same Some option.case wp_bind by (rule wp_now, rule claim [OF Some]) simp
    qed
  qed auto
qed simp

section \<open>Properties of claims\<close>

text \<open>Rows for the witnesses: a pending round and a round whose lease has run out.\<close>

definition pending_task :: Task where
  "pending_task = example_task\<lparr>task_ID := 2, task_Type := ''storage_store'', task_SubjectKey := ''8'',
     task_Status := TaskStatusPending, task_ClaimGeneration := 0, task_LeaseUntil := None\<rparr>"

definition expired_task :: Task where
  "expired_task = example_task\<lparr>task_ID := 3, task_SubjectKey := ''9'', task_LeaseUntil := Some 50\<rparr>"

definition type_filter :: TaskClaimFilter where
  "type_filter = \<lparr>ExcludedTypes = [''upload_plan''], ExcludedTaskIDs = []\<rparr>"

definition no_filter :: TaskClaimFilter where
  "no_filter = \<lparr>ExcludedTypes = [], ExcludedTaskIDs = []\<rparr>"

lemma example_rows_ok: "wf_world (example_world [example_task, pending_task, expired_task])"
  by code_simp

text \<open>C16: the candidate query of the filtered claim, which skips from type to type and compares the
  first eligible row of each allowed type, returns the row the plain ordered query over all
  eligible rows would return.\<close>

theorem filtered_query_equals_ordered_query:
  assumes "distinct (map task_ID rows)"
  shows "filteredTaskCandidate st exT exI n rows =
    min_row (claim_key st) (filter (\<lambda>r. eligible st n r \<and> task_Type r \<notin> set exT \<and> task_ID r \<notin> set exI) rows)"
  by (rule filtered_candidate_is_first [OF assms])

theorem filtered_query_equals_ordered_query_witness:
  "filteredTaskCandidate TaskStatusPending [''upload_plan''] [] 100 [example_task, pending_task, expired_task] =
    min_row (claim_key TaskStatusPending) (filter (\<lambda>r. eligible TaskStatusPending 100 r \<and> task_Type r \<notin> set [''upload_plan''] \<and> task_ID r \<notin> set [])
      [example_task, pending_task, expired_task])"
  by (rule filtered_query_equals_ordered_query) code_simp

text \<open>C15: the filtered claim returns. Its loop, which passes over rows other transactions have locked,
  ends within one pass per row and one more; unless the database or the caller's context stops it,
  it claims exactly the first eligible row that is neither excluded nor locked, or nothing when
  there is none.\<close>

theorem filtered_claim_takes_first_free:
  assumes "tables_ok (db w)"
  shows "case fst (claimFilteredTask dur flt locked n st w) of
      Inl e \<Rightarrow> e \<noteq> ErrText ''fuel''
    | Inr x \<Rightarrow> \<exists>t. x = map_option (claim_update st (t + dur) t) (first_free st n flt locked (tasks (db w)))"
proof -
  have "wpM (claimFilteredTask_loop (Suc (length (tasks (db w)))) dur (ExcludedTypes flt) (ExcludedTaskIDs flt) locked n st)
      (\<lambda>x _. picked st n dur flt locked (tasks (db w)) x) (\<lambda>e _. e \<noteq> ErrText ''fuel'') w"
    by (rule claimFilteredTask_loop_picks) (use assms in \<open>auto simp: le_imp_less_Suc\<close>)
  then show ?thesis unfolding wpM_def claimFilteredTask_def
    by (cases "fst (claimFilteredTask_loop (Suc (length (tasks (db w)))) dur (ExcludedTypes flt) (ExcludedTaskIDs flt) locked n st w)")
      (simp_all only: case_prod_beta sum.case not_False_eq_True)
qed

theorem filtered_claim_takes_first_free_witness:
  "let w = example_world [example_task, pending_task, pending_task\<lparr>task_ID := 4, task_SubjectKey := ''10''\<rparr>] in
   case fst (claimFilteredTask 30 type_filter [2] 100 TaskStatusPending w) of
      Inl e \<Rightarrow> e \<noteq> ErrText ''fuel''
    | Inr x \<Rightarrow> \<exists>t. x = map_option (claim_update TaskStatusPending (t + 30) t) (first_free TaskStatusPending 100 type_filter [2] (tasks (db w)))"
  unfolding Let_def by (rule filtered_claim_takes_first_free) code_simp



text \<open>C8: taking over a round disarms its previous claimant for good: after a claim, in every later
  state of every run, an operation under any older claim generation of that round is refused and
  changes nothing.\<close>

theorem reclaimed_claim_is_dead:
  assumes "wf_world w" "ClaimNext intx dur flt locked w = (Inr (Some r), w1)" "run redact w1 w2" "g < task_ClaimGeneration r"
  shows "isl (fst (exec_fenced redact intx' (task_ID r) g f w2)) \<and> db (snd (exec_fenced redact intx' (task_ID r) g f w2)) = db w2"
proof -
  have "wf_world w1" using world_step_wf [OF keeps_ClaimNext assms(1,2)] .
  moreover have "row_of (task_ID r) (db w1) = Some r"
    using ClaimNext_post [of w intx dur flt locked] assms(1,2) by (auto simp: wf_world_def wpM_def claim_taken_def)
  ultimately show ?thesis using assms(3,4) by (intro dead_token_refused) auto
qed

theorem reclaimed_claim_is_dead_witness:
  "let w = example_world [example_task, pending_task, expired_task]; w1 = snd (ClaimNext False 30 no_filter [] w)
   in isl (fst (exec_fenced (\<lambda>s. s) False 3 1 (OpSettle complete_transition) w1)) \<and>
      db (snd (exec_fenced (\<lambda>s. s) False 3 1 (OpSettle complete_transition) w1)) = db w1"
proof -
  let ?w = "example_world [example_task, pending_task, expired_task]"
  let ?r = "claim_update TaskStatusRunning 130 100 expired_task"
  have r: "task_ID ?r = 3" "1 < task_ClaimGeneration ?r" by code_simp+
  have "ClaimNext False 30 no_filter [] ?w = (Inr (Some ?r), snd (ClaimNext False 30 no_filter [] ?w))"
    by (rule prod_eqI) (simp, code_simp, simp)
  from reclaimed_claim_is_dead [OF example_rows_ok this run_refl r(2), unfolded r(1)]
  show ?thesis unfolding Let_def .
qed

end
