(* ===== verification/Worker_Engine.thy ===== *)
theory Worker_Engine
  imports Worker_Service Task_Claims
begin

text \<open>
  The execution engine, \<open>internal/worker/engine.go\<close>, and the execution view of \<open>contract.go\<close>.

  One engine claims tasks, runs their handlers and settles the results. Reads of the lease flag and
  checks of any context follow the scripts of the world, so every interleaving of a handler with
  lease renewal, cancellation and shutdown is a choice of the environment. \<open>eng_format\<close> and
  \<open>eng_redact\<close> stand for \<open>errtext.Format\<close> and \<open>errtext.Redact\<close>, whose rules depend on the configured
  secrets; \<open>rnd k\<close> is the jitter drawn in the k-th settlement attempt. The callback
  \<open>OnTaskSettled\<close> and logging have no effect on this state and are left out.
\<close>

section \<open>Configuration\<close>

record 'd Engine =
  eng_Concurrency :: int
  eng_PollInterval :: duration
  eng_LeaseDuration :: duration
  eng_SettlementRetryWait :: "(int \<Rightarrow> int \<Rightarrow> duration \<Rightarrow> ('d, unit) DB) option"
  eng_registry :: "'d Registry"
  eng_settlementRetryDelays :: "duration list"
  eng_renewalRetryDelays :: "duration list"
  eng_format :: "error \<Rightarrow> string"
  eng_redact :: "string \<Rightarrow> string"

definition NewEngine :: "int \<Rightarrow> duration \<Rightarrow> duration \<Rightarrow> (int \<Rightarrow> int \<Rightarrow> duration \<Rightarrow> ('d, unit) DB) option \<Rightarrow> 'd Registry \<Rightarrow>
    (error \<Rightarrow> string) \<Rightarrow> (string \<Rightarrow> string) \<Rightarrow> error + 'd Engine" where
  "NewEngine concurrency poll lease retryWait reg format redact =
     (if concurrency < 1 \<or> poll \<le> 0 \<or> lease \<le> poll then Inl (ErrText ''invalid task engine configuration'')
      else (case freeze reg of Inl e \<Rightarrow> Inl e
        | Inr frozen \<Rightarrow> Inr \<lparr>eng_Concurrency = concurrency, eng_PollInterval = poll, eng_LeaseDuration = lease,
            eng_SettlementRetryWait = retryWait, eng_registry = frozen,
            eng_settlementRetryDelays = [0, Second, 2 * Second, 4 * Second],
            eng_renewalRetryDelays = [0, Second, 2 * Second, 4 * Second],
            eng_format = format, eng_redact = redact\<rparr>))"

text \<open>\<open>sleepContext\<close>: either the context ends, or the time passes.\<close>

definition sleepContext :: "duration \<Rightarrow> ('d, bool) M" where
  "sleepContext d = bindM ctx_done (\<lambda>cancelled. if cancelled then ret False
     else (\<lambda>w. (Inr True, w\<lparr>clock := clock w + max 0 d\<rparr>)))"

definition textPointer :: "string \<Rightarrow> string option" where
  "textPointer s = (if s = '''' then None else Some s)"

definition errorPointer :: "(error \<Rightarrow> string) \<Rightarrow> error option \<Rightarrow> string option" where
  "errorPointer format e = map_option format e"

text \<open>\<open>errors.Join\<close> of two errors that may be nil.\<close>

definition join :: "error option \<Rightarrow> error option \<Rightarrow> error option" where
  "join a b = (case a of None \<Rightarrow> b | Some x \<Rightarrow> (case b of None \<Rightarrow> Some x | Some y \<Rightarrow> Some (ErrWrap x y)))"

definition invokeSettlement :: "'d Settlement \<Rightarrow> ('d, unit) DB" where
  "invokeSettlement s = (case s of None \<Rightarrow> ret () | Some m \<Rightarrow> m)"

section \<open>The execution view of a claim\<close>

definition exec_checkpoint :: "Task \<Rightarrow> raw option \<Rightarrow> 'd Settlement \<Rightarrow> bool \<Rightarrow> bool \<Rightarrow> ('d, unit) DB" where
  "exec_checkpoint claimed value settlement startWork obtainedEvidence =
     bindM (if obtainedEvidence then ret True else lease_safe) (\<lambda>safe.
     if \<not> safe then fail ErrTaskLeaseLost
     else (case value of None \<Rightarrow> fail (ErrText ''encoding checkpoint'')
      | Some checkpoint \<Rightarrow> WithTx (
          bindM (ValidateClaim (task_ID claimed) (task_ClaimGeneration claimed)) (\<lambda>_.
          bindM (invokeSettlement settlement) (\<lambda>_.
          bindM (WriteCheckpoint (task_ID claimed) (task_ClaimGeneration claimed) checkpoint) (\<lambda>_.
          if startWork then bindM now (\<lambda>n. MarkWorkStarted (task_ID claimed) (task_ClaimGeneration claimed) n)
          else ret ()))))))"

definition exec_admit :: "Task \<Rightarrow> string \<Rightarrow> raw option \<Rightarrow> 'd Settlement \<Rightarrow> ('d, unit) DB" where
  "exec_admit claimed key value settlement =
     bindM lease_safe (\<lambda>safe. if \<not> safe then fail ErrTaskLeaseLost
     else (case value of None \<Rightarrow> fail (ErrText ''encoding checkpoint'')
      | Some checkpoint \<Rightarrow> WithTx (
          bindM (AdmitEffect True (task_ID claimed) (task_ClaimGeneration claimed) key checkpoint) (\<lambda>_.
          invokeSettlement settlement))))"

definition exec_observe :: "Task \<Rightarrow> string \<Rightarrow> ('d, time) DB" where
  "exec_observe claimed key = WithTx (ObserveOperation True (task_ID claimed) (task_ClaimGeneration claimed) key)"

definition exec_resolve :: "Task \<Rightarrow> string \<Rightarrow> raw option \<Rightarrow> 'd Settlement \<Rightarrow> ('d, unit) DB" where
  "exec_resolve claimed key value settlement = (case value of None \<Rightarrow> fail (ErrText ''encoding checkpoint'')
     | Some checkpoint \<Rightarrow> WithTx (
         bindM (ResolveOperation True (task_ID claimed) (task_ClaimGeneration claimed) key) (\<lambda>_.
         bindM (WriteCheckpoint (task_ID claimed) (task_ClaimGeneration claimed) checkpoint) (\<lambda>_.
         invokeSettlement settlement))))"

definition WriteCheckpointWith :: "Task \<Rightarrow> raw option \<Rightarrow> 'd Settlement \<Rightarrow> ('d, unit) DB" where
  "WriteCheckpointWith claimed value settlement = exec_checkpoint claimed value settlement False False"

definition RecordEffectEvidence :: "Task \<Rightarrow> raw option \<Rightarrow> 'd Settlement \<Rightarrow> ('d, unit) DB" where
  "RecordEffectEvidence claimed value settlement = exec_checkpoint claimed value settlement False True"

text \<open>\<open>WithCheckpointedEffect\<close> returns whether the effect was attempted, and its error.\<close>

definition WithCheckpointedEffect ::
  "Task \<Rightarrow> string \<Rightarrow> raw option \<Rightarrow> 'd Settlement \<Rightarrow> ('d, unit) DB option \<Rightarrow> ('d, bool \<times> error option) DB" where
  "WithCheckpointedEffect claimed operationKey checkpoint settlement effect = (case effect of
      None \<Rightarrow> ret (False, Some (ErrText ''external effect is required''))
    | Some run_effect \<Rightarrow>
      if task_ResumeMode claimed \<noteq> TaskResumeModeExecute then ret (False, Some ErrEffectForbidden)
      else bindM ctx_done (\<lambda>cancelled. if cancelled then ret (False, Some ErrContext)
      else bindM (catchM (bindM (exec_admit claimed operationKey checkpoint settlement) (\<lambda>_. ret None)) (\<lambda>e. ret (Some e))) (\<lambda>refused.
        case refused of Some e \<Rightarrow> ret (False, Some e)
        | None \<Rightarrow> bindM (catchM (bindM run_effect (\<lambda>_. ret None)) (\<lambda>e. ret (Some e))) (\<lambda>failed. ret (True, failed)))))"

definition DecodeCheckpoint :: "(raw \<Rightarrow> error + 'a) \<Rightarrow> 'a \<Rightarrow> Task \<Rightarrow> 'a \<times> bool \<times> error option" where
  "DecodeCheckpoint decode zero claimed = (case task_Checkpoint claimed of RawEmpty \<Rightarrow> (zero, False, None)
     | raw \<Rightarrow> (case decode raw of Inl e \<Rightarrow> (zero, True, Some e) | Inr v \<Rightarrow> (v, True, None)))"

section \<open>Results and transitions\<close>

definition validateResult :: "'d Result \<Rightarrow> error option" where
  "validateResult result =
     (if r_diagnostic result \<noteq> None \<and> r_kind result \<noteq> resultWait then Some ErrInvalidResult
      else if (case r_observationWindow result of None \<Rightarrow> False
        | Some window \<Rightarrow> r_kind result \<noteq> resultWait \<or> \<not> r_observationWait result \<or> r_waitUntil result \<noteq> None \<or>
            TrimSpace (stageKey window) = '''' \<or> timeoutErr window = None \<or> \<not> known_mode (timeoutRetryMode window))
      then Some ErrInvalidResult
      else (case r_kind result of
          resultComplete \<Rightarrow> None
        | resultFail \<Rightarrow> if r_err result = None \<or> r_failureReason result = '''' then Some ErrInvalidResult else None
        | resultCancel \<Rightarrow> None
        | resultWait \<Rightarrow> if r_err result \<noteq> None \<or> r_waitUntil result = Some 0 \<or> \<not> known_mode (r_resumeMode result)
            then Some ErrInvalidResult else None
        | resultRetry \<Rightarrow> if r_err result = None \<or> r_failureReason result = '''' \<or> \<not> known_mode (r_resumeMode result)
            then Some ErrInvalidResult else None
        | resultInvalid \<Rightarrow> Some ErrInvalidResult))"

definition registered_policy :: "'d Registry \<Rightarrow> TaskType \<Rightarrow> ExecutionPolicy" where
  "registered_policy reg ty = (case registry_Definition reg ty of
      None \<Rightarrow> \<lparr>MaxAttempts = 0, DependencyRetries = 0,
        Backoff = \<lparr>InitialDelay = 0, Multiplier = Fin 0, MaximumDelay = 0, Jitter = Fin 0\<rparr>, ResendBackoff = None,
        InvocationTimeout = 0, ObservationWindow = 0, ObservationInterval = 0, WaitInterval = 0\<rparr>
    | Some d \<Rightarrow> def_Policy d)"

definition observationResult ::
  "'d Registry \<Rightarrow> Task \<Rightarrow> 'd Result \<Rightarrow> time \<Rightarrow> error + ('d Result \<times> TaskObservationPatch option)" where
  "observationResult reg current result n = (case r_observationWindow result of None \<Rightarrow> Inr (result, None)
   | Some window \<Rightarrow> (case decode_runtime (task_Runtime current) of None \<Rightarrow> Inl (ErrText ''decoding task observation'')
     | Some runtime \<Rightarrow>
       if (case rt_Observation runtime of None \<Rightarrow> False | Some st \<Rightarrow> obs_Key st = '''' \<or> obs_StartedAt st = 0)
       then Inl ErrInvalidInput
       else
         let fresh = \<lparr>obs_Key = stageKey window, obs_StartedAt = n\<rparr>;
             st = (case rt_Observation runtime of None \<Rightarrow> fresh | Some st \<Rightarrow> if obs_Key st \<noteq> stageKey window then fresh else st);
             policy = registered_policy reg (task_Type current);
             deadline = obs_StartedAt st + ObservationWindow policy
         in if deadline \<le> n
            then Inr (result\<lparr>r_kind := resultRetry, r_resumeMode := timeoutRetryMode window,
                   r_err := join (timeoutErr window) (r_diagnostic result), r_diagnostic := None,
                   r_failureReason := ''observation_window_expired'', r_waitReason := '''', r_message := '''',
                   r_observationWindow := None\<rparr>, None)
            else Inr (result\<lparr>r_waitUntil := Some (min deadline (n + ObservationInterval policy))\<rparr>, Some \<lparr>patch_State = Some st\<rparr>)))"

definition transitionFor :: "'d Engine \<Rightarrow> rat \<Rightarrow> time \<Rightarrow> Task \<Rightarrow> 'd Result \<Rightarrow> TaskTransition" where
  "transitionFor e rnd n claimed result =
     (let policy = registered_policy (eng_registry e) (task_Type claimed);
          base = \<lparr>tr_Observation = None, tr_WorkStartedAt = r_workStartedAt result, tr_ClearWorkStartedAt = False,
            tr_Status = TaskStatusOther '''', tr_ResumeMode = TaskResumeModeRecover, tr_AvailableAt = 0,
            tr_WaitReason = textPointer (r_waitReason result), tr_FailureReason = textPointer (r_failureReason result),
            tr_LastError = errorPointer (eng_format e) (r_err result), tr_StatusMessage = textPointer (r_message result),
            tr_IncrementRetry = False\<rparr>;
          tr = (case r_kind result of
              resultInvalid \<Rightarrow> base
            | resultComplete \<Rightarrow> base\<lparr>tr_Status := TaskStatusCompleted\<rparr>
            | resultWait \<Rightarrow>
                let interval = (if r_observationWait result then ObservationInterval policy
                      else if 0 < WaitInterval policy then WaitInterval policy else eng_PollInterval e)
                in base\<lparr>tr_Status := TaskStatusPending, tr_LastError := errorPointer (eng_format e) (r_diagnostic result),
                     tr_ResumeMode := r_resumeMode result,
                     tr_AvailableAt := (case r_waitUntil result of None \<Rightarrow> n + interval | Some t \<Rightarrow> if t < n then n else t)\<rparr>
            | resultRetry \<Rightarrow>
                if MaxAttempts policy - 1 \<le> task_RetryCount claimed
                then base\<lparr>tr_Status := TaskStatusFailed, tr_FailureReason := textPointer ''attempts_exhausted''\<rparr>
                else base\<lparr>tr_ResumeMode := r_resumeMode result, tr_IncrementRetry := True, tr_Status := TaskStatusPending,
                       tr_AvailableAt := n + delay (Backoff policy) rnd (task_RetryCount claimed)\<rparr>
            | resultFail \<Rightarrow> base\<lparr>tr_Status := TaskStatusFailed\<rparr>
            | resultCancel \<Rightarrow> base\<lparr>tr_Status := TaskStatusCancelled\<rparr>)
      in if r_kind result \<noteq> resultInvalid \<and> (tr_IncrementRetry tr \<or> tr_Status tr \<noteq> TaskStatusPending)
         then tr\<lparr>tr_Observation := Some \<lparr>patch_State = None\<rparr>\<rparr> else tr)"

section \<open>Settlement\<close>

text \<open>The transition a settlement attempt writes, with the observation patch of \<open>commitResult\<close>.\<close>

definition settlement_transition :: "'d Engine \<Rightarrow> rat \<Rightarrow> time \<Rightarrow> Task \<Rightarrow> 'd Result \<Rightarrow> TaskObservationPatch option \<Rightarrow> TaskTransition" where
  "settlement_transition e rnd n current effective observation =
     (let tr = transitionFor e rnd n current effective
      in if observation \<noteq> None \<and> tr_Observation tr = None then tr\<lparr>tr_Observation := observation\<rparr> else tr)"

definition retry_settlements :: "'d Result \<Rightarrow> TaskTransition \<Rightarrow> ('d, unit) DB" where
  "retry_settlements effective tr =
     (if r_kind effective \<noteq> resultRetry then ret ()
      else if tr_IncrementRetry tr then (case r_onRetry effective of None \<Rightarrow> ret () | Some f \<Rightarrow> f (tr_AvailableAt tr))
      else invokeSettlement (r_onExhausted effective))"

definition commit_tx :: "'d Engine \<Rightarrow> rat \<Rightarrow> Task \<Rightarrow> 'd Result \<Rightarrow> ('d, unit) DB" where
  "commit_tx e rnd claimed result =
     bindM (ValidateClaim (task_ID claimed) (task_ClaimGeneration claimed)) (\<lambda>_.
     bindM (GetForUpdate (task_ID claimed)) (\<lambda>row. case row of None \<Rightarrow> fail (ErrText ''nil pointer dereference'')
     | Some current \<Rightarrow>
       bindM now (\<lambda>n. case observationResult (eng_registry e) current result n of Inl err \<Rightarrow> fail err
       | Inr (effective, observation) \<Rightarrow>
         bindM now (\<lambda>m. let tr = settlement_transition e rnd m current effective observation in
         bindM (retry_settlements effective tr) (\<lambda>_.
         bindM (invokeSettlement (r_settlement effective)) (\<lambda>_.
         bindM (settleSchedule (eng_registry e) claimed tr) (\<lambda>_.
         Settle (eng_redact e) True (task_ID claimed) (task_ClaimGeneration claimed) tr)))))))"

text \<open>The waiting loop; with the lease at least three nanoseconds long every pass but the last sleeps a
  full interval, so \<open>delay div interval + 2\<close> passes are enough.\<close>

definition renewal_interval :: "'d Engine \<Rightarrow> duration" where
  "renewal_interval e = min (30 * Second) (eng_LeaseDuration e div 3)"

fun settlement_wait_loop :: "nat \<Rightarrow> 'd Engine \<Rightarrow> Task \<Rightarrow> time \<Rightarrow> ('d, unit) DB" where
  "settlement_wait_loop 0 e claimed deadline = fail (ErrText ''fuel'')"
| "settlement_wait_loop (Suc k) e claimed deadline =
     bindM now (\<lambda>n. let remaining = deadline - n in
     if remaining \<le> 0 then ret ()
     else let wait = min (renewal_interval e) remaining in
       bindM (sleepContext wait) (\<lambda>slept. if \<not> slept then fail ErrContext
       else if wait = remaining then ret ()
       else bindM (RenewLease (task_ID claimed) (task_ClaimGeneration claimed) (eng_LeaseDuration e)) (\<lambda>_.
         settlement_wait_loop k e claimed deadline)))"

definition waitSettlementRetry :: "'d Engine \<Rightarrow> Task \<Rightarrow> duration \<Rightarrow> ('d, unit) DB" where
  "waitSettlementRetry e claimed d =
     bindM (RenewLease (task_ID claimed) (task_ClaimGeneration claimed) (eng_LeaseDuration e)) (\<lambda>_.
     case eng_SettlementRetryWait e of Some f \<Rightarrow> f (task_ID claimed) (task_ClaimGeneration claimed) d
     | None \<Rightarrow> bindM now (\<lambda>n. settlement_wait_loop (nat (d div renewal_interval e) + 2) e claimed (n + d)))"

fun commit_loop :: "'d Engine \<Rightarrow> (nat \<Rightarrow> rat) \<Rightarrow> Task \<Rightarrow> 'd Result \<Rightarrow> error option \<Rightarrow> nat \<Rightarrow> duration list \<Rightarrow> ('d, unit) DB" where
  "commit_loop e rnd claimed result lastErr k [] = (case lastErr of None \<Rightarrow> ret () | Some err \<Rightarrow> fail err)"
| "commit_loop e rnd claimed result lastErr k (d # ds) =
     bindM (if 0 < d then waitSettlementRetry e claimed d else ret ()) (\<lambda>_.
     bindM (RenewLease (task_ID claimed) (task_ClaimGeneration claimed) (eng_LeaseDuration e)) (\<lambda>leaseUntil.
     bindM now (\<lambda>n. if leaseUntil - eng_LeaseDuration e div 3 \<le> n then fail ErrTaskLeaseLost
     else catchM (WithTx (commit_tx e (rnd k) claimed result))
       (\<lambda>err. if errors_is err ErrTaskLeaseLost then fail err
              else commit_loop e rnd claimed result (Some err) (Suc k) ds))))"

definition commitResult :: "'d Engine \<Rightarrow> (nat \<Rightarrow> rat) \<Rightarrow> Task \<Rightarrow> 'd Result \<Rightarrow> ('d, unit) DB" where
  "commitResult e rnd claimed result = commit_loop e rnd claimed result None 0 (eng_settlementRetryDelays e)"

definition failClaim :: "'d Engine \<Rightarrow> (nat \<Rightarrow> rat) \<Rightarrow> Task \<Rightarrow> string \<Rightarrow> error \<Rightarrow> ('d, unit) DB" where
  "failClaim e rnd claimed reason cause =
     commitResult e rnd claimed (Fail_result (Some cause) reason
       (case registry_Definition (eng_registry e) (task_Type claimed) of None \<Rightarrow> None
        | Some d \<Rightarrow> (case def_OnEngineFailure d of None \<Rightarrow> None | Some f \<Rightarrow> f claimed reason)))"

section \<open>Abandoned claims\<close>

type_synonym recoveryRequest = "int \<times> int"

text \<open>\<open>abandonClaim\<close> returns the request it queues for recovery, if any.\<close>

definition abandonClaim :: "'d Engine \<Rightarrow> Task \<Rightarrow> ('d, recoveryRequest option) DB" where
  "abandonClaim e claimed =
     catchM (bindM (ShortenLease (task_ID claimed) (task_ClaimGeneration claimed) (eng_PollInterval e)) (\<lambda>_. ret None))
       (\<lambda>err. if errors_is err ErrTaskLeaseLost then ret None else ret (Some (task_ID claimed, task_ClaimGeneration claimed)))"

definition enqueueRecovery :: "recoveryRequest \<Rightarrow> recoveryRequest list \<Rightarrow> recoveryRequest list" where
  "enqueueRecovery request q = (if request \<in> set q then q else q @ [request])"

text \<open>One turn of \<open>runRecoveryQueue\<close>: the map hands out any entry (the k-th), which is removed, and put
  back when shortening the lease fails for another reason than the lease being gone, unless the
  engine is shutting down.\<close>

definition nextRecovery :: "nat \<Rightarrow> recoveryRequest list \<Rightarrow> (recoveryRequest \<times> recoveryRequest list) option" where
  "nextRecovery k q = (if q = [] then None else let r = q ! (k mod length q) in Some (r, remove1 r q))"

definition recovery_turn :: "'d Engine \<Rightarrow> nat \<Rightarrow> recoveryRequest list \<Rightarrow> ('d, recoveryRequest list) DB" where
  "recovery_turn e k q = (case nextRecovery k q of None \<Rightarrow> ret q
     | Some (request, rest) \<Rightarrow>
       bindM (catchM (bindM (ShortenLease (fst request) (snd request) (eng_PollInterval e)) (\<lambda>_. ret None)) (\<lambda>err. ret (Some err))) (\<lambda>failed.
       case failed of None \<Rightarrow> ret rest
       | Some err \<Rightarrow> if errors_is err ErrTaskLeaseLost then ret rest
           else bindM (sleepContext (eng_PollInterval e)) (\<lambda>slept. ret (if slept then enqueueRecovery request rest else rest))))"

section \<open>Executing a claim\<close>

definition RecoverableEngineFailure :: "string \<Rightarrow> bool" where
  "RecoverableEngineFailure reason = (reason \<in> set [''handler_unavailable'', ''input_version_unsupported'', ''invalid_input'',
     ''input_codec_panic'', ''handler_panic'', ''invalid_result''])"

definition fail_or_abandon :: "'d Engine \<Rightarrow> (nat \<Rightarrow> rat) \<Rightarrow> Task \<Rightarrow> string \<Rightarrow> error \<Rightarrow> ('d, recoveryRequest option) DB" where
  "fail_or_abandon e rnd claimed reason cause =
     catchM (bindM (failClaim e rnd claimed reason cause) (\<lambda>_. ret None)) (\<lambda>_. abandonClaim e claimed)"

definition invokeHandler :: "'d Handler \<Rightarrow> Task \<Rightarrow> ExecutionPolicy \<Rightarrow> ('d, error + 'd Result) DB" where
  "invokeHandler handler claimed policy =
     catchM (bindM (if task_ResumeMode claimed = TaskResumeModeRecover then h_Recover handler claimed policy
                    else h_Execute handler claimed policy) (\<lambda>r. ret (Inr r)))
       (\<lambda>panicked. ret (Inl panicked))"

text \<open>The result after a handler returned: a wait (or no result) of an invocation whose context ended
  becomes a retry, and database contention becomes a wait.\<close>

definition timed_out_result :: "'d Result \<Rightarrow> 'd Result" where
  "timed_out_result result =
     WithContentionSettlement (r_contentionSettlement result) (WithRetrySettlements (r_onRetry result) (r_onExhausted result)
       (Retry_result (join (Some ErrContext) (r_diagnostic result)) ''invocation_timeout'' (r_settlement result)))"

definition contended_result :: "'d Result \<Rightarrow> 'd Result" where
  "contended_result result =
     (if (case r_err result of None \<Rightarrow> False | Some err \<Rightarrow> errors_is err ErrTaskIdentityContended \<or> errors_is err ErrRepositoryContended)
      then WithDiagnostic (r_err result) (Wait TaskResumeModeRecover ''database_contention'' ''Waiting to continue'' (r_contentionSettlement result))
      else result)"

definition result_error :: "ExecutionPolicy \<Rightarrow> 'd Result \<Rightarrow> error option" where
  "result_error policy result =
     (if r_observationWindow result \<noteq> None \<and> ObservationWindow policy \<le> 0 then Some ErrInvalidResult else validateResult result)"

definition settle_invocation :: "'d Engine \<Rightarrow> (nat \<Rightarrow> rat) \<Rightarrow> ExecutionPolicy \<Rightarrow> Task \<Rightarrow> error + 'd Result \<Rightarrow> ('d, recoveryRequest option) DB" where
  "settle_invocation e rnd policy claimed outcome = (case outcome of
      Inl panicked \<Rightarrow> fail_or_abandon e rnd claimed ''handler_panic'' panicked
    | Inr returned \<Rightarrow>
      bindM ctx_done (\<lambda>invocationDone. bindM ctx_done (\<lambda>parentDone. bindM lease_safe (\<lambda>safe.
      let result = (if invocationDone \<and> \<not> parentDone \<and> safe \<and> (r_kind returned = resultWait \<or> r_kind returned = resultInvalid)
            then timed_out_result returned else returned) in
      bindM ctx_done (\<lambda>parentDone. bindM lease_safe (\<lambda>safe.
      if parentDone \<or> \<not> safe then abandonClaim e claimed
      else let final = contended_result result in
        (case result_error policy final of
            Some err \<Rightarrow> fail_or_abandon e rnd claimed ''invalid_result'' err
          | None \<Rightarrow> catchM (bindM (commitResult e rnd claimed final) (\<lambda>_. ret None)) (\<lambda>_. abandonClaim e claimed))))))))"

definition work_start :: "WorkStartPolicy \<Rightarrow> Task \<Rightarrow> ('d, bool) DB" where
  "work_start policy claimed =
     (if policy \<noteq> WorkStartOnHandler then ret True
      else bindM lease_safe (\<lambda>safe. if \<not> safe then ret False
      else bindM now (\<lambda>n. catchM (bindM (MarkWorkStarted (task_ID claimed) (task_ClaimGeneration claimed) n) (\<lambda>_. ret True)) (\<lambda>_. ret False))))"

definition executeClaim :: "'d Engine \<Rightarrow> (nat \<Rightarrow> rat) \<Rightarrow> Task \<Rightarrow> ('d, recoveryRequest option) DB" where
  "executeClaim e rnd claimed = (case registry_Handler (eng_registry e) (task_Type claimed) of
      None \<Rightarrow> fail_or_abandon e rnd claimed ''handler_unavailable'' (ErrText ''no handler is registered for task type'')
    | Some handler \<Rightarrow> (case registry_Definition (eng_registry e) (task_Type claimed) of
      None \<Rightarrow> fail_or_abandon e rnd claimed ''handler_unavailable'' (ErrText ''no definition is registered for task type'')
    | Some def \<Rightarrow>
      if task_InputVersion claimed \<noteq> def_InputVersion def
      then fail_or_abandon e rnd claimed ''input_version_unsupported'' (ErrText ''task input version is unsupported'')
      else (case canonicalizeInput (def_Codec def) (task_Input claimed) of
          Inl err \<Rightarrow> fail_or_abandon e rnd claimed (if errors_is err ErrCodecPanic then ''input_codec_panic'' else ''invalid_input'') err
        | Inr canonical \<Rightarrow>
          let claimed = claimed\<lparr>task_Input := canonical\<rparr> in
          bindM (work_start (def_WorkStart def) claimed) (\<lambda>started.
          if \<not> started then abandonClaim e claimed
          else bindM (invokeHandler handler claimed (def_Policy def)) (settle_invocation e rnd (def_Policy def) claimed)))))"

section \<open>Lease renewal\<close>

text \<open>The renewal goroutine. \<open>sels\<close> says which channel each \<open>select\<close> takes: the context, the stop
  channel, or the timer. A retry waits only when the delay fits before the deadline.\<close>

datatype select = SelectDone | SelectStop | SelectTimer

datatype renewal = RenewedUntil time | RenewalStopped | RenewalLost

definition waitRenewalRetry :: "select \<Rightarrow> time \<Rightarrow> duration \<Rightarrow> ('d, bool \<times> bool) M" where
  "waitRenewalRetry sel deadline d = bindM now (\<lambda>n.
     let remaining = deadline - n in
     if remaining \<le> 0 \<or> remaining \<le> d then ret (False, False)
     else (case sel of SelectDone \<Rightarrow> ret (False, False) | SelectStop \<Rightarrow> ret (False, True)
        | SelectTimer \<Rightarrow> (\<lambda>w. (Inr (True, False), w\<lparr>clock := clock w + max 0 d\<rparr>))))"

fun renew_attempts :: "'d Engine \<Rightarrow> Task \<Rightarrow> time \<Rightarrow> (nat \<Rightarrow> select) \<Rightarrow> bool \<Rightarrow> time \<Rightarrow> nat \<Rightarrow> duration list \<Rightarrow> ('d, renewal) DB" where
  "renew_attempts e claimed deadline sels failed confirmedUntil attempt [] = ret (if failed then RenewalLost else RenewedUntil confirmedUntil)"
| "renew_attempts e claimed deadline sels failed confirmedUntil attempt (d # rest) =
     bindM (if 0 < attempt then waitRenewalRetry (sels attempt) deadline d else ret (True, False)) (\<lambda>(retry, stopped).
     if stopped then ret RenewalStopped
     else if \<not> retry then ret RenewalLost
     else bindM now (\<lambda>n. if deadline \<le> n then ret RenewalLost
       else bindM (catchM (bindM (RenewLease (task_ID claimed) (task_ClaimGeneration claimed) (eng_LeaseDuration e)) (\<lambda>t. ret (Inr t))) (\<lambda>err. ret (Inl err))) (\<lambda>outcome.
         case outcome of Inr t \<Rightarrow> ret (RenewedUntil t)
         | Inl err \<Rightarrow> if errors_is err ErrTaskLeaseLost then ret RenewalLost
             else renew_attempts e claimed deadline sels True confirmedUntil (Suc attempt) rest)))"

definition initial_confirmation :: "'d Engine \<Rightarrow> Task \<Rightarrow> time \<Rightarrow> time \<Rightarrow> time" where
  "initial_confirmation e claimed n m = (case task_LeaseUntil claimed of None \<Rightarrow> n + eng_LeaseDuration e
     | Some t \<Rightarrow> if m < t then t else n + eng_LeaseDuration e)"

text \<open>The loop, one element of \<open>rounds\<close> per turn: the choice of the outer \<open>select\<close> and those of the
  retries. \<open>Some safe\<close> is the lease flag when the goroutine has ended, \<open>None\<close> that it still runs.\<close>

fun renewal_loop :: "'d Engine \<Rightarrow> Task \<Rightarrow> time \<Rightarrow> (select \<times> (nat \<Rightarrow> select)) list \<Rightarrow> ('d, bool option) DB" where
  "renewal_loop e claimed confirmedUntil [] = ret None"
| "renewal_loop e claimed confirmedUntil ((outer, sels) # rounds) = (case outer of
      SelectDone \<Rightarrow> ret (Some False)
    | SelectStop \<Rightarrow> ret (Some True)
    | SelectTimer \<Rightarrow>
      bindM (\<lambda>w. (Inr (), w\<lparr>clock := clock w + max 0 (renewal_interval e)\<rparr>)) (\<lambda>_.
      bindM (renew_attempts e claimed (confirmedUntil - eng_LeaseDuration e div 3) sels False confirmedUntil 0 (eng_renewalRetryDelays e)) (\<lambda>r.
      case r of RenewedUntil t \<Rightarrow> renewal_loop e claimed t rounds
      | RenewalStopped \<Rightarrow> ret (Some True)
      | RenewalLost \<Rightarrow> ret (Some False))))"

definition renewLease :: "'d Engine \<Rightarrow> Task \<Rightarrow> (select \<times> (nat \<Rightarrow> select)) list \<Rightarrow> ('d, bool option) DB" where
  "renewLease e claimed rounds = bindM now (\<lambda>n. bindM now (\<lambda>m. renewal_loop e claimed (initial_confirmation e claimed n m) rounds))"

section \<open>The dispatcher\<close>

record dispatcher =
  disp_active :: "(int \<times> TaskType) list"
  disp_activeByType :: "(TaskType \<times> int) list"

definition lookup0 :: "'k \<Rightarrow> ('k \<times> int) list \<Rightarrow> int" where
  "lookup0 k m = (case map_of m k of None \<Rightarrow> 0 | Some c \<Rightarrow> c)"

definition release :: "int \<Rightarrow> dispatcher \<Rightarrow> dispatcher" where
  "release i d =
     (let taskType = (case map_of (disp_active d) i of None \<Rightarrow> '''' | Some ty \<Rightarrow> ty);
          c = lookup0 taskType (disp_activeByType d) - 1;
          counted = set_assoc taskType c (disp_activeByType d)
      in d\<lparr>disp_active := filter (\<lambda>(j, _). j \<noteq> i) (disp_active d),
           disp_activeByType := (if c = 0 then filter (\<lambda>(ty, _). ty \<noteq> taskType) counted else counted)\<rparr>)"

definition claim_filter :: "'d Registry \<Rightarrow> dispatcher \<Rightarrow> TaskClaimFilter" where
  "claim_filter reg d = \<lparr>
     ExcludedTypes = map fst (filter (\<lambda>(ty, count). case registry_Definition reg ty of None \<Rightarrow> False
        | Some def \<Rightarrow> 0 < def_MaxConcurrency def \<and> def_MaxConcurrency def \<le> count) (disp_activeByType d)),
     ExcludedTaskIDs = map fst (disp_active d)\<rparr>"

definition admit_claim :: "Task \<Rightarrow> dispatcher \<Rightarrow> dispatcher" where
  "admit_claim claimed d = d\<lparr>disp_active := set_assoc (task_ID claimed) (task_Type claimed) (disp_active d),
     disp_activeByType := set_assoc (task_Type claimed) (lookup0 (task_Type claimed) (disp_activeByType d) + 1) (disp_activeByType d)\<rparr>"

text \<open>One pass of the claiming loop of \<open>runDispatcher\<close>; \<open>None\<close> leaves the loop.\<close>

definition claim_one :: "'d Engine \<Rightarrow> int list \<Rightarrow> dispatcher \<Rightarrow> ('d, (Task \<times> dispatcher) option) DB" where
  "claim_one e locked d =
     (if eng_Concurrency e \<le> int (length (disp_active d)) then ret None
      else bindM ctx_done (\<lambda>cancelled. if cancelled then ret None
      else bindM (catchM (ClaimNext False (eng_LeaseDuration e) (claim_filter (eng_registry e) d) locked) (\<lambda>_. ret None)) (\<lambda>claimed.
        case claimed of None \<Rightarrow> ret None | Some c \<Rightarrow> ret (Some (c, admit_claim c d)))))"

text \<open>The dispatcher interleaved with everything else: it claims, it learns that one of its
  executions has ended, and the database moves on (its executions and every other process).\<close>

inductive dispatching :: "'d Engine \<Rightarrow> dispatcher \<Rightarrow> 'd tables world \<Rightarrow> bool" for e where
  dispatch_start: "wf_world w \<Longrightarrow> dispatching e \<lparr>disp_active = [], disp_activeByType = []\<rparr> w"
| dispatch_claim: "dispatching e d w \<Longrightarrow> claim_one e locked d w = (Inr (Some (c, d')), w') \<Longrightarrow> dispatching e d' w'"
| dispatch_idle: "dispatching e d w \<Longrightarrow> claim_one e locked d w = (Inr None, w') \<Longrightarrow> dispatching e d w'"
| dispatch_release: "dispatching e d w \<Longrightarrow> i \<in> fst ` set (disp_active d) \<Longrightarrow> dispatching e (release i d) w"
| dispatch_world: "dispatching e d w \<Longrightarrow> world_step w w' \<Longrightarrow> dispatching e d w'"

section \<open>The dispatcher keeps its limits\<close>

definition type_count :: "TaskType \<Rightarrow> dispatcher \<Rightarrow> int" where
  "type_count ty d = int (length (filter (\<lambda>(_, t). t = ty) (disp_active d)))"

definition dispatcher_ok :: "'d Engine \<Rightarrow> dispatcher \<Rightarrow> bool" where
  "dispatcher_ok e d = (distinct (map fst (disp_active d)) \<and> distinct (map fst (disp_activeByType d)) \<and>
     (\<forall>ty. lookup0 ty (disp_activeByType d) = type_count ty d) \<and> (\<forall>(ty, c) \<in> set (disp_activeByType d). c \<noteq> 0) \<and>
     int (length (disp_active d)) \<le> max 0 (eng_Concurrency e) \<and>
     (\<forall>ty def. registry_Definition (eng_registry e) ty = Some def \<longrightarrow> 0 < def_MaxConcurrency def \<longrightarrow> type_count ty d \<le> def_MaxConcurrency def))"

lemma map_of_set_assoc: "map_of (set_assoc k v xs) k' = (if k' = k then Some v else map_of xs k')"
proof (cases "k \<in> set (map fst xs)")
  case True
  have "map_of (map (\<lambda>(a, b). if a = k then (k, v) else (a, b)) xs) k' =
      (if k' = k then (if k \<in> fst ` set xs then Some v else None) else map_of xs k')"
    by (induction xs) (auto simp: rev_image_eqI)
  then show ?thesis using True by (simp add: set_assoc_def)
next
  case False
  then have "map_of xs k = None" by (simp add: map_of_eq_None_iff)
  then show ?thesis using False by (auto simp: set_assoc_def map_add_def map_of_append split: option.splits)
qed

lemma map_of_filter_key: "map_of (filter (\<lambda>(a, _). a \<noteq> k) xs) k' = (if k' = k then None else map_of xs k')"
  by (induction xs) auto

lemma lookup0_set_assoc [simp]: "lookup0 k' (set_assoc k v xs) = (if k' = k then v else lookup0 k' xs)"
  by (simp add: lookup0_def map_of_set_assoc)

lemma lookup0_filter_key [simp]: "lookup0 k' (filter (\<lambda>(a, _). a \<noteq> k) xs) = (if k' = k then 0 else lookup0 k' xs)"
  by (simp add: lookup0_def map_of_filter_key)

lemma lookup0_mem: "distinct (map fst xs) \<Longrightarrow> (k, c) \<in> set xs \<Longrightarrow> lookup0 k xs = c"
  by (simp add: lookup0_def)

lemma count_remove_key:
  assumes "distinct (map fst xs)" "map_of xs i = Some ty"
  shows "int (length (filter (\<lambda>(_, t). t = u) (filter (\<lambda>(j, _). j \<noteq> i) xs)))
    = int (length (filter (\<lambda>(_, t). t = u) xs)) - (if u = ty then 1 else 0)"
  using assms
proof (induction xs)
  case (Cons x xs)
  obtain j t where x: "x = (j, t)" by (cases x)
  have "filter (\<lambda>(j, _). j \<noteq> i) xs = xs" if "j = i" using Cons.prems(1) that x by (force simp: filter_id_conv)
  then show ?case using Cons x by (cases "j = i") auto
qed simp

lemma release_ok:
  assumes "dispatcher_ok e d" "i \<in> fst ` set (disp_active d)"
  shows "dispatcher_ok e (release i d)"
proof -
  note ok = assms(1) [unfolded dispatcher_ok_def]
  obtain ty where ty: "map_of (disp_active d) i = Some ty"
    using assms(2) by (metis map_of_eq_None_iff not_Some_eq)
  have tc: "type_count u (release i d) = type_count u d - (if u = ty then 1 else 0)" for u
    using count_remove_key [of "disp_active d" i ty u] ok ty by (simp add: type_count_def release_def Let_def)
  have c: "lookup0 u (disp_activeByType (release i d)) = type_count u (release i d)" for u
    using ok tc by (auto simp: release_def Let_def ty)
  have dist: "distinct (map fst (set_assoc ty v (disp_activeByType d)))" for v
    using ok by (simp add: set_assoc_keys)
  have "c \<noteq> 0" if "(u, c) \<in> set (disp_activeByType (release i d))" for u c
    using that ok dist by (fastforce simp: release_def Let_def ty set_assoc_def split: if_splits)
  moreover have "distinct (map fst (disp_activeByType (release i d)))"
    using dist by (auto simp: release_def Let_def ty intro: distinct_map_filter)
  moreover have "distinct (map fst (disp_active (release i d)))" "length (disp_active (release i d)) \<le> length (disp_active d)"
    using ok by (auto simp: release_def Let_def intro: distinct_map_filter)
  moreover have "type_count u (release i d) \<le> def_MaxConcurrency def"
    if "registry_Definition (eng_registry e) u = Some def" "0 < def_MaxConcurrency def" for u def
    using tc [of u] ok that by (smt (verit))
  ultimately show ?thesis unfolding dispatcher_ok_def using c ok by auto
qed

lemma dispatcher_okD:
  assumes "dispatcher_ok e d"
  shows "distinct (map fst (disp_active d))" "distinct (map fst (disp_activeByType d))"
    "lookup0 ty (disp_activeByType d) = type_count ty d" "(ty, c) \<in> set (disp_activeByType d) \<Longrightarrow> c \<noteq> 0"
    "int (length (disp_active d)) \<le> max 0 (eng_Concurrency e)"
    "registry_Definition (eng_registry e) ty = Some def \<Longrightarrow> 0 < def_MaxConcurrency def \<Longrightarrow> type_count ty d \<le> def_MaxConcurrency def"
  using assms unfolding dispatcher_ok_def by blast+

lemma set_assoc_subset: "set (set_assoc k v xs) \<subseteq> insert (k, v) (set xs)"
  by (auto simp: set_assoc_def split: if_splits)

lemma admit_claim_ok:
  assumes "dispatcher_ok e d" "task_ID c \<notin> fst ` set (disp_active d)" "int (length (disp_active d)) < eng_Concurrency e"
    and "\<And>def. registry_Definition (eng_registry e) (task_Type c) = Some def \<Longrightarrow> 0 < def_MaxConcurrency def \<Longrightarrow> type_count (task_Type c) d < def_MaxConcurrency def"
  shows "dispatcher_ok e (admit_claim c d)"
proof -
  note ok = dispatcher_okD [OF assms(1)]
  have new: "disp_active (admit_claim c d) = disp_active d @ [(task_ID c, task_Type c)]"
    using assms(2) by (auto simp: admit_claim_def set_assoc_def)
  have tc: "type_count u (admit_claim c d) = type_count u d + (if u = task_Type c then 1 else 0)" for u
    by (simp add: type_count_def new)
  have cnt: "lookup0 u (disp_activeByType (admit_claim c d)) = type_count u (admit_claim c d)" for u
    unfolding tc using ok(3) by (simp add: admit_claim_def)
  have pos: "lookup0 (task_Type c) (disp_activeByType d) + 1 \<noteq> 0" unfolding ok(3) by (simp add: type_count_def)
  have n: "n \<noteq> 0" if "(u, n) \<in> set (disp_activeByType (admit_claim c d))" for u n
  proof -
    have "(u, n) \<in> insert (task_Type c, lookup0 (task_Type c) (disp_activeByType d) + 1) (set (disp_activeByType d))"
      using that set_assoc_subset unfolding admit_claim_def by fastforce
    then show ?thesis using pos ok(4) [of u n] by auto
  qed
  moreover have "distinct (map fst (disp_activeByType (admit_claim c d)))"
    using ok(2) by (simp add: admit_claim_def set_assoc_keys)
  moreover have "type_count u (admit_claim c d) \<le> def_MaxConcurrency def"
    if "registry_Definition (eng_registry e) u = Some def" "0 < def_MaxConcurrency def" for u def
  proof (cases "u = task_Type c")
    case True
    then show ?thesis using tc [of u] assms(4) [of def] that by simp
  next
    case False
    then show ?thesis using tc [of u] ok(6) that by simp
  qed
  moreover have "distinct (map fst (disp_active (admit_claim c d)))" "int (length (disp_active (admit_claim c d))) \<le> max 0 (eng_Concurrency e)"
    using ok(1) assms(2,3) by (simp_all add: new)
  ultimately show ?thesis unfolding dispatcher_ok_def using cnt by blast
qed

lemma claim_one_post:
  assumes "wf_world w" "claim_one e locked d w = (Inr (Some (c, d')), w')"
  shows "d' = admit_claim c d" "int (length (disp_active d)) < eng_Concurrency e"
    "claim_taken (eng_LeaseDuration e) (claim_filter (eng_registry e) d) locked w c w'"
proof -
  let ?flt = "claim_filter (eng_registry e) d"
  have "wpM (claim_one e locked d) (\<lambda>x w'. \<forall>c d'. x = Some (c, d') \<longrightarrow> d' = admit_claim c d \<and>
      int (length (disp_active d)) < eng_Concurrency e \<and> claim_taken (eng_LeaseDuration e) ?flt locked w c w') (\<lambda>_ _. True) w"
    unfolding claim_one_def
  proof (simp, intro impI wp_ctx_done, simp, intro impI, goal_cases)
    case (1 b bs)
    have "wpM (ClaimNext False (eng_LeaseDuration e) ?flt locked) (\<lambda>x w'. 0 < eng_LeaseDuration e \<and>
        claim_result (eng_LeaseDuration e) ?flt locked (w\<lparr>ctx_script := bs\<rparr>) x w') (\<lambda>_ _. True) (w\<lparr>ctx_script := bs\<rparr>)"
      using assms(1) by (intro ClaimNext_post) (simp add: wf_world_def)
    then show ?case by (rule wp_mono) (use 1 in \<open>auto simp: claim_taken_def split: option.splits\<close>)
  qed
  then show "d' = admit_claim c d" "int (length (disp_active d)) < eng_Concurrency e"
    "claim_taken (eng_LeaseDuration e) ?flt locked w c w'"
    using assms(2) by (auto simp: wpM_def)
qed

lemma keeps_claim_one [keep]: "keeps world_step (claim_one e locked d)"
  unfolding claim_one_def by (intro keep)

lemma dispatching_ok: "dispatching e d w \<Longrightarrow> dispatcher_ok e d \<and> wf_world w"
proof (induction rule: dispatching.induct)
  case (dispatch_start w)
  then show ?case by (auto simp: dispatcher_ok_def type_count_def lookup0_def)
next
  case (dispatch_claim d w locked c d' w')
  note p = claim_one_post [OF conjunct2 [OF dispatch_claim.IH] dispatch_claim.hyps(2)]
  have r0: "task_Type c \<notin> set (ExcludedTypes (claim_filter (eng_registry e) d))" "task_ID c \<notin> set (ExcludedTaskIDs (claim_filter (eng_registry e) d))"
    using p(3) by (auto simp: claim_taken_def)
  have "type_count (task_Type c) d < def_MaxConcurrency def"
    if def: "registry_Definition (eng_registry e) (task_Type c) = Some def" "0 < def_MaxConcurrency def" for def
  proof (rule ccontr)
    assume over: "\<not> type_count (task_Type c) d < def_MaxConcurrency def"
    have "lookup0 (task_Type c) (disp_activeByType d) = type_count (task_Type c) d"
      using dispatch_claim.IH by (simp add: dispatcher_ok_def)
    then have "(task_Type c, type_count (task_Type c) d) \<in> set (disp_activeByType d)"
      using over def(2) by (auto simp: lookup0_def map_of_SomeD split: option.splits)
    then have "task_Type c \<in> set (ExcludedTypes (claim_filter (eng_registry e) d))"
      using def over by (force simp: claim_filter_def)
    then show False using r0 by simp
  qed
  then have "dispatcher_ok e d'" using p(1,2) r0(2) dispatch_claim.IH by (simp add: admit_claim_ok claim_filter_def)
  moreover have "world_step w w'" using keepsD [OF keeps_claim_one, of w e locked d] dispatch_claim.hyps(2) by simp
  ultimately show ?case using dispatch_claim.IH world_step_wfD by blast
next
  case (dispatch_idle d w locked w')
  have "world_step w w'" using keepsD [OF keeps_claim_one, of w e locked d] dispatch_idle.hyps(2) by simp
  then show ?case using dispatch_idle.IH world_step_wfD by blast
qed (auto intro: release_ok world_step_wfD)


definition example_engine :: "unit Engine" where
  "example_engine = \<lparr>eng_Concurrency = 2, eng_PollInterval = 5, eng_LeaseDuration = 30, eng_SettlementRetryWait = None,
     eng_registry = retry_registry, eng_settlementRetryDelays = [0, Second, 2 * Second, 4 * Second],
     eng_renewalRetryDelays = [0, Second, 2 * Second, 4 * Second], eng_format = (\<lambda>_. ''failed''), eng_redact = (\<lambda>s. s)\<rparr>"


section \<open>A finished execution gives its claim up\<close>

lemma fenced_out_mono: "fenced_out i g n d \<Longrightarrow> n \<le> n' \<Longrightarrow> fenced_out i g n' d"
  by (fastforce simp: fenced_out_def list_all_iff split: option.splits)

lemma fenced_out_tasks: "tasks d' = tasks d \<Longrightarrow> fenced_out i g n d' = fenced_out i g n d"
  by (simp add: fenced_out_def)

text \<open>Updating the rows of a live claim leaves no row of that claim with a lease beyond \<open>m\<close>, when the
  update itself does not.\<close>

lemma update_live_fenced:
  assumes "n \<le> m" "\<And>r. live_claim i g n r \<Longrightarrow> task_Status (f r) = TaskStatusRunning \<Longrightarrow> (case task_LeaseUntil (f r) of None \<Rightarrow> True | Some l \<Rightarrow> l \<le> m)"
  shows "fenced_out i g m (d\<lparr>tasks := update_where (live_claim i g n) f (tasks d)\<rparr>)"
  unfolding fenced_out_def list_all_iff update_where_def
proof (intro ballI impI)
  fix r' assume "r' \<in> set (tasks (d\<lparr>tasks := map (\<lambda>r. if live_claim i g n r then f r else r) (tasks d)\<rparr>))"
    and held: "task_ID r' = i \<and> task_Status r' = TaskStatusRunning \<and> task_ClaimGeneration r' = g"
  then have "r' \<in> (\<lambda>r. if live_claim i g n r then f r else r) ` set (tasks d)" by simp
  then obtain r where r: "r' = (if live_claim i g n r then f r else r)" by blast
  show "case task_LeaseUntil r' of None \<Rightarrow> True | Some l \<Rightarrow> l \<le> m"
  proof (cases "live_claim i g n r")
    case True
    then show ?thesis using r held assms(2) [OF True] by simp
  next
    case False
    then show ?thesis using r held assms(1) by (auto simp: live_claim_def split: option.splits)
  qed
qed

lemma wp_AppendEvent_fenced:
  assumes "fenced_out i g (clock w) (db w)"
  shows "post (AppendEvent j ty c) (\<lambda>_ w'. fenced_out i g (clock w') (db w')) w"
  by (rule wp_AppendEvent) (use assms fenced_out_tasks fenced_out_mono in blast)

lemma Settle_body_ends_claim:
  assumes "validTaskTransition tr"
  shows "post (Settle_body redact i g tr) (\<lambda>_ w'. fenced_out i g (clock w') (db w')) w"
  unfolding Settle_body_def GetForUpdate_def wp_bind
proof (rule wp_findTask, rule wp_now, goal_cases)
  case (1 fs t ts)

  have "fenced_out i g t (d\<lparr>tasks := update_where (live_claim i g t) (settled_row redact t tr rt) (tasks d)\<rparr>)" for rt d
    by (rule update_live_fenced) (use valid_transition_not_running [OF assms] in \<open>auto simp: settled_row_def\<close>)
  then show ?case
    by (cases "find (\<lambda>r. task_ID r = i) (tasks (db w))")
      (auto simp: Let_def split: option.splits intro!: wp_update_tasks wp_AppendEvent_fenced)
qed auto

lemma Settle_ends_claim: "post (Settle redact True i g tr) (\<lambda>_ w'. fenced_out i g (clock w') (db w')) w"
  using Settle_body_ends_claim by (auto simp: Settle_def runMaybeTx_def)

lemma commit_tx_ends_claim:
  "post (commit_tx e r claimed result) (\<lambda>_ w'. fenced_out (task_ID claimed) (task_ClaimGeneration claimed) (clock w') (db w')) w"
  unfolding commit_tx_def Let_def
  by (intro post_seq) (auto split: option.splits sum.splits simp del: wp_bind intro!: post_seq Settle_ends_claim)

lemma WithTx_outcome:
  "wpM (WithTx m) (\<lambda>x w'. \<exists>w1. db w1 = db w \<and> m w1 = (Inr x, w')) (\<lambda>_ w'. db w' = db w) w"
proof -
  have exact: "wpM m (\<lambda>x w'. m v = (Inr x, w')) (\<lambda>_ _. True) v" for v
    by (auto simp: wpM_def split: prod.splits sum.splits)
  have "wpM (runRepositoryTx_loop n m) (\<lambda>x w'. \<exists>w1. db w1 = db w \<and> m w1 = (Inr x, w')) (\<lambda>_ w'. db w' = db w) v" if "db v = db w" for n v
    using that
  proof (induction n arbitrary: v)
    case 0
    show ?case by (subst runRepositoryTx_loop.simps, simp, rule wp_mono [OF exact]) (use 0 in auto)
  next
    case (Suc n)
    show ?case
      by (subst runRepositoryTx_loop.simps, simp del: runRepositoryTx_loop.simps, rule wp_mono [OF exact])
        (use Suc in \<open>auto intro!: wp_ctx_done Suc.IH simp del: runRepositoryTx_loop.simps\<close>)
  qed
  then show ?thesis by (simp add: WithTx_def)
qed

lemma post_WithTx_any: "(\<And>w'. post m Q w') \<Longrightarrow> post (WithTx m) Q w"
  by (rule wp_mono [OF WithTx_outcome]) (fastforce simp: wpM_def split: prod.splits sum.splits)+

lemma commit_ends_claim:
  "ds \<noteq> [] \<or> lastErr \<noteq> None \<Longrightarrow>
   post (commit_loop e rnd claimed result lastErr k ds) (\<lambda>_ w'. fenced_out (task_ID claimed) (task_ClaimGeneration claimed) (clock w') (db w')) w"
proof (induction ds arbitrary: w lastErr k)
  case (Cons d ds)
  let ?Q = "\<lambda>_ w'. fenced_out (task_ID claimed) (task_ClaimGeneration claimed) (clock w') (db w')"
  have tx: "wpM (WithTx (commit_tx e r claimed result)) ?Q E w'" if "\<And>err w''. E err w''" for r E w'
    by (rule wp_mono [OF post_WithTx_any [OF commit_tx_ends_claim]]) (use that in auto)
  show ?case
    by (simp only: commit_loop.simps, intro post_seq) (auto intro!: tx Cons.IH)
qed (auto split: option.splits)

lemma ShortenLease_outcome:
  assumes "0 < p"
  shows "wpM (ShortenLease i g p) (\<lambda>_ w'. fenced_out i g (clock w' + p) (db w'))
    (\<lambda>err w'. ctx_script w' = ctx_script w \<and> (errors_is err ErrTaskLeaseLost \<longrightarrow> fenced_out i g (clock w' + p) (db w'))) w"
proof -
  have "fenced_out i g (n + p) (d\<lparr>tasks := update_where (live_claim i g n)
      (\<lambda>r. r\<lparr>task_ResumeMode := TaskResumeModeRecover, task_LeaseUntil := (case task_LeaseUntil r of None \<Rightarrow> Some (n + p)
         | Some l \<Rightarrow> Some (if l < n + p then l else n + p)), task_UpdatedAt := n\<rparr>) (tasks d)\<rparr>)" for n and d :: "'a tables"
    by (rule update_live_fenced) (use assms in \<open>auto split: option.splits\<close>)
  then show ?thesis unfolding ShortenLease_def using assms by (auto simp: Let_def intro!: wp_now wp_update_tasks)
qed

lemma abandonClaim_ends_claim:
  "wpM (abandonClaim e claimed) (\<lambda>req w'. req = None \<longrightarrow> fenced_out (task_ID claimed) (task_ClaimGeneration claimed) (clock w' + eng_PollInterval e) (db w'))
     (\<lambda>_ _. False) w"
proof -
  show ?thesis
  proof (cases "0 < eng_PollInterval e")
    case True
    show ?thesis unfolding abandonClaim_def wp_catch wp_bind
      by (rule wp_mono [OF ShortenLease_outcome [OF True]]) auto
  qed (simp add: abandonClaim_def ShortenLease_def)
qed

definition released_or_queued :: "'d Engine \<Rightarrow> Task \<Rightarrow> recoveryRequest option \<Rightarrow> 'd tables world \<Rightarrow> bool" where
  "released_or_queued e claimed req w = (req = Some (task_ID claimed, task_ClaimGeneration claimed) \<or>
     req = None \<and> fenced_out (task_ID claimed) (task_ClaimGeneration claimed) (clock w + eng_PollInterval e) (db w))"

lemma abandonClaim_released: "wpM (abandonClaim e claimed) (released_or_queued e claimed) (\<lambda>_ _. False) w"
proof -
  have "wpM (abandonClaim e claimed) (\<lambda>req _. req = None \<or> req = Some (task_ID claimed, task_ClaimGeneration claimed)) (\<lambda>_ _. True) w"
    unfolding abandonClaim_def by (simp, rule wp_any) auto
  from wp_conj [OF this abandonClaim_ends_claim] show ?thesis by (rule wp_mono) (auto simp: released_or_queued_def)
qed

lemma commit_or_abandon_released:
  assumes "0 \<le> eng_PollInterval e" "eng_settlementRetryDelays e \<noteq> []"
  shows "wpM (catchM (bindM (commitResult e rnd claimed result) (\<lambda>_. ret None)) (\<lambda>_. abandonClaim e claimed)) (released_or_queued e claimed) (\<lambda>_ _. False) w"
proof -
  have "released_or_queued e claimed None w'" if "fenced_out (task_ID claimed) (task_ClaimGeneration claimed) (clock w') (db w')" for w'
    using fenced_out_mono [OF that, of "clock w' + eng_PollInterval e"] assms(1) by (simp add: released_or_queued_def)
  then show ?thesis unfolding wp_catch wp_bind wp_ret commitResult_def
    by (intro wp_mono [OF commit_ends_claim]) (use assms(2) abandonClaim_released in auto)
qed

lemma fail_or_abandon_released:
  assumes "0 \<le> eng_PollInterval e" "eng_settlementRetryDelays e \<noteq> []"
  shows "wpM (fail_or_abandon e rnd claimed reason cause) (released_or_queued e claimed) (\<lambda>_ _. False) w"
  unfolding fail_or_abandon_def failClaim_def by (rule commit_or_abandon_released [OF assms])

lemma settle_invocation_released:
  assumes "0 \<le> eng_PollInterval e" "eng_settlementRetryDelays e \<noteq> []"
  shows "wpM (settle_invocation e rnd policy claimed outcome) (released_or_queued e claimed) (\<lambda>_ _. False) w"
proof (cases outcome)
  case (Inr returned)
  note rules = abandonClaim_released fail_or_abandon_released [OF assms] commit_or_abandon_released [OF assms]
  show ?thesis unfolding settle_invocation_def Inr sum.case Let_def wp_bind
    by (intro wp_ctx_done wp_lease_safe)
      (auto split: option.splits simp del: wp_catch wp_bind intro!: rules)
qed (simp add: settle_invocation_def fail_or_abandon_released [OF assms])

lemma wp_attempt: "(\<And>w'. Q a w') \<Longrightarrow> (\<And>w'. Q b w') \<Longrightarrow> wpM (catchM (bindM m (\<lambda>_. ret a)) (\<lambda>_. ret b)) Q E w"
  unfolding wp_catch wp_bind wp_ret by (rule wp_any)

lemma executeClaim_released:
  assumes "0 \<le> eng_PollInterval e" "eng_settlementRetryDelays e \<noteq> []"
  shows "wpM (executeClaim e rnd claimed) (released_or_queued e claimed) (\<lambda>_ _. False) w"
proof -
  note rules = abandonClaim_released fail_or_abandon_released [OF assms] settle_invocation_released [OF assms]
  have input: "released_or_queued e (claimed\<lparr>task_Input := c\<rparr>) = released_or_queued e claimed" for c
    by (simp add: released_or_queued_def fun_eq_iff)
  have start: "wpM (work_start p c) Q (\<lambda>_ _. False) w'" if "\<And>b w''. Q b w''" for p Q w' and c
    unfolding work_start_def wp_if wp_bind wp_ret by (auto simp: that simp del: wp_catch intro!: wp_lease_safe wp_now wp_attempt)
  have handler: "wpM (invokeHandler h c p) Q (\<lambda>_ _. False) w'" if "\<And>b w''. Q b w''" for h p Q w' and c
    unfolding invokeHandler_def wp_catch wp_bind wp_ret by (rule wp_any) (auto simp: that)
  have "wpM (bindM (work_start p c) (\<lambda>started. if \<not> started then abandonClaim e c
      else bindM (invokeHandler h c q) (settle_invocation e rnd q c))) (released_or_queued e c) (\<lambda>_ _. False) w'" for p h q c w'
    unfolding wp_bind by (rule start) (auto intro!: handler rules simp del: wp_bind simp: wp_bind)
  note run = this [of _ "claimed\<lparr>task_Input := c\<rparr>" for c, unfolded input]
  show ?thesis unfolding executeClaim_def Let_def
    by (auto split: option.splits sum.splits simp del: wp_bind intro!: rules run)
qed


definition example_handler :: "unit Handler" where
  "example_handler = NewFuncHandler example_definition
     (Some (\<lambda>task policy. ret (Retry_result (Some (ErrText ''provider is busy'')) ''provider_busy'' None))) None"

definition handler_registry :: "unit Registry" where
  "handler_registry = (case Register (Some example_handler) NewRegistry of Inr r \<Rightarrow> r | Inl _ \<Rightarrow> NewRegistry)"


text \<open>C22: a request handed out by the recovery queue is lost only when its claim is dead within a poll
  interval: while the engine is not shutting down, every queued request is still queued after a turn,
  or its claim has been given up.\<close>

theorem recovery_keeps_requests:
  assumes "0 < eng_PollInterval e" "ctx_script w = []" "recovery_turn e k q w = (Inr q', w')" "request \<in> set q"
  shows "request \<in> set q' \<or> fenced_out (fst request) (snd request) (clock w' + eng_PollInterval e) (db w')"
proof -
  let ?given_up = "\<lambda>r w'. fenced_out (fst r) (snd r) (clock w' + eng_PollInterval e) (db w')"
  have "q \<noteq> []" using assms(4) by auto
  moreover have "set q \<subseteq> insert r (set (remove1 r q))" for r using in_set_remove1 by fastforce
  ultimately obtain r rest where nr: "nextRecovery k q = Some (r, rest)" "set q \<subseteq> insert r (set rest)"
    by (auto simp: nextRecovery_def Let_def)
  have "wpM (recovery_turn e k q) (\<lambda>q' w'. set rest \<subseteq> set q' \<and> (r \<in> set q' \<or> ?given_up r w')) (\<lambda>_ _. True) w"
    unfolding recovery_turn_def nr option.case prod.case wp_bind wp_catch wp_ret
  proof (rule wp_mono [OF ShortenLease_outcome [OF assms(1)]], goal_cases)
    case (2 err w1)
    then show ?case using assms(2) by (auto simp: sleepContext_def wpM_def bindM_def ctx_done_def ret_def enqueueRecovery_def)
  qed simp
  then show ?thesis using assms(3,4) nr(2) by (auto simp: wpM_def)
qed

theorem recovery_keeps_requests_witness:
  "let r = recovery_turn example_engine 0 [(1, 1)] (example_world [example_task]) in
   fst r = Inr [] \<and> fenced_out 1 1 (clock (snd r) + eng_PollInterval example_engine) (db (snd r))"
proof -
  let ?r = "recovery_turn example_engine 0 [(1, 1)] (example_world [example_task])"
  have r: "fst ?r = Inr []" by code_simp
  then have "?r = (Inr [], snd ?r)" by (metis prod.collapse)
  then have "(1, 1) \<in> set [] \<or> fenced_out (fst (1, 1 :: int)) (snd (1 :: int, 1)) (clock (snd ?r) + eng_PollInterval example_engine) (db (snd ?r))"
    using recovery_keeps_requests [of example_engine "example_world [example_task]" 0 "[(1, 1)]" "[]" "snd ?r" "(1, 1)"]
    by (simp add: example_world_def example_engine_def)
  then show ?thesis by (simp add: r Let_def)
qed

section \<open>Settlement is all or nothing\<close>

text \<open>Two states of the tables that differ at most in the lease of task \<open>i\<close>.\<close>

definition lease_only :: "int \<Rightarrow> 'd tables \<Rightarrow> 'd tables \<Rightarrow> bool" where
  "lease_only i d d' = (d' = d\<lparr>tasks := tasks d'\<rparr> \<and>
     list_all2 (\<lambda>r r'. if task_ID r = i then r' = r\<lparr>task_LeaseUntil := task_LeaseUntil r', task_UpdatedAt := task_UpdatedAt r'\<rparr> else r' = r)
       (tasks d) (tasks d'))"

definition lease_step :: "int \<Rightarrow> 'd tables world \<Rightarrow> 'd tables world \<Rightarrow> bool" where
  "lease_step i w w' = lease_only i (db w) (db w')"

lemma lease_only_refl [simp]: "lease_only i d d"
  by (simp add: lease_only_def list_all2_same)

lemma lease_only_trans:
  assumes "lease_only i a b" "lease_only i b c"
  shows "lease_only i a c"
proof -
  let ?P = "\<lambda>r r'. if task_ID r = i then r' = r\<lparr>task_LeaseUntil := task_LeaseUntil r', task_UpdatedAt := task_UpdatedAt r'\<rparr> else r' = r"
  have "?P r t" if "?P r s" "?P s t" for r s t :: Task
    using that by (cases r; cases s; cases t) (auto split: if_splits)
  then have "list_all2 ?P (tasks a) (tasks c)"
    using assms list_all2_trans [of ?P ?P ?P "tasks a" "tasks b" "tasks c"] unfolding lease_only_def by blast
  moreover have "c = a\<lparr>tasks := tasks c\<rparr>"
    using assms unfolding lease_only_def by (cases a; cases b; cases c) auto
  ultimately show ?thesis by (simp add: lease_only_def)
qed

interpretation leases: kept_relation "lease_step i" for i
  by unfold_locales (auto simp: lease_step_def intro: lease_only_trans)

lemma keeps_lease_RenewLease: "keeps (lease_step i) (RenewLease i g dur)"
proof -
  have "lease_only i d (d\<lparr>tasks := update_where (live_claim i g n) (\<lambda>r. r\<lparr>task_LeaseUntil := l, task_UpdatedAt := n\<rparr>) (tasks d)\<rparr>)" for n l and d :: "'a tables"
    by (auto simp: lease_only_def update_where_def list_all2_map2 list_all2_same live_claim_def intro!: list.rel_refl_strong)
  then have "keeps (lease_step i) (update_tasks (live_claim i g n) (\<lambda>r. r\<lparr>task_LeaseUntil := l, task_UpdatedAt := n\<rparr>) :: ('a, nat) DB)" for n l
    unfolding update_tasks_def
    by (intro leases.keeps_stmtE) (auto simp: update_result_def lease_step_def split: if_splits)
  then show ?thesis unfolding RenewLease_def Let_def
    by (intro leases.keeps_bind leases.keeps_now keeps_if leases.keeps_fail leases.keeps_ret)
qed

lemma keeps_lease_sleep: "keeps (lease_step i) (sleepContext d)"
  unfolding sleepContext_def
  by (intro leases.keeps_bind leases.keeps_ctx_done keeps_if leases.keeps_ret) (auto simp: keeps_def lease_step_def)

lemma keeps_lease_wait_loop: "keeps (lease_step (task_ID claimed)) (settlement_wait_loop k e claimed deadline)"
proof (induction k)
  case (Suc k)
  show ?case unfolding settlement_wait_loop.simps Let_def
    by (intro leases.keeps_bind leases.keeps_now keeps_if leases.keeps_fail leases.keeps_ret keeps_lease_sleep keeps_lease_RenewLease Suc)
qed (simp add: leases.keeps_fail)

lemma keeps_lease_wait:
  assumes "eng_SettlementRetryWait e = None"
  shows "keeps (lease_step (task_ID claimed)) (waitSettlementRetry e claimed d)"
  unfolding waitSettlementRetry_def assms option.case
  by (intro leases.keeps_bind leases.keeps_now keeps_lease_wait_loop keeps_lease_RenewLease)

lemma wp_keeps: "keeps R m \<Longrightarrow> (\<And>x w'. R w w' \<Longrightarrow> Q x w') \<Longrightarrow> (\<And>e w'. R w w' \<Longrightarrow> E e w') \<Longrightarrow> wpM m Q E w"
  by (auto simp: wpM_def keeps_def split: prod.splits sum.splits) (metis snd_conv)+

text \<open>The transaction of one settlement attempt ran to its end, from tables that differ from the first
  ones only in the lease of the claimed task.\<close>

definition committed :: "'d Engine \<Rightarrow> (nat \<Rightarrow> rat) \<Rightarrow> Task \<Rightarrow> 'd Result \<Rightarrow> 'd tables world \<Rightarrow> 'd tables world \<Rightarrow> bool" where
  "committed e rnd claimed result w w' =
     (\<exists>k w1. lease_only (task_ID claimed) (db w) (db w1) \<and> commit_tx e (rnd k) claimed result w1 = (Inr (), w'))"

lemma commit_loop_outcome:
  assumes "eng_SettlementRetryWait e = None" "ds \<noteq> [] \<or> lastErr \<noteq> None" "lease_only (task_ID claimed) (db w0) (db w)"
  shows "wpM (commit_loop e rnd claimed result lastErr k ds) (\<lambda>_. committed e rnd claimed result w0)
    (\<lambda>_ w'. lease_only (task_ID claimed) (db w0) (db w')) w"
  using assms(2,3)
proof (induction ds arbitrary: w lastErr k)
  case (Cons d ds)
  let ?i = "task_ID claimed"
  have renew: "wpM (if 0 < d then waitSettlementRetry e claimed d else ret ()) Q E w"
    if "\<And>x w'. lease_only ?i (db w0) (db w') \<Longrightarrow> Q x w'" "\<And>x w'. lease_only ?i (db w0) (db w') \<Longrightarrow> E x w'" for Q E
  proof (cases "0 < d")
    case True
    have "wpM (waitSettlementRetry e claimed d) Q E w"
      by (rule wp_keeps [OF keeps_lease_wait [OF assms(1)]])
        (use that Cons.prems(2) lease_only_trans in \<open>unfold lease_step_def, blast+\<close>)
    then show ?thesis using True by simp
  qed (use that Cons.prems(2) in simp)
  have lease: "wpM (RenewLease ?i g dur) Q E w'" if "lease_only ?i (db w0) (db w')"
    "\<And>x w'. lease_only ?i (db w0) (db w') \<Longrightarrow> Q x w'" "\<And>x w'. lease_only ?i (db w0) (db w') \<Longrightarrow> E x w'" for Q E w' g dur
    by (rule wp_keeps [OF keeps_lease_RenewLease]) (use that lease_only_trans in \<open>unfold lease_step_def, blast+\<close>)
  have tx: "wpM (WithTx (commit_tx e (rnd k) claimed result)) (\<lambda>_. committed e rnd claimed result w0) E w'"
    if "lease_only ?i (db w0) (db w')" "\<And>x w'. lease_only ?i (db w0) (db w') \<Longrightarrow> E x w'" for E w'
    by (rule wp_mono [OF WithTx_outcome]) (use that in \<open>simp_all add: committed_def, metis old.unit.exhaust\<close>)
  show ?case unfolding commit_loop.simps wp_bind
    by (rule renew) (auto intro!: lease wp_now tx Cons.IH)
qed (auto split: option.splits)

text \<open>C4: settling a result is all or nothing, whatever the result's settlement functions do: when it
  fails, nothing in the database has changed except the lease of the claimed task; when it succeeds,
  the settlement transaction ran exactly once from such a state, and the claim is over.\<close>

theorem settlement_is_all_or_nothing:
  assumes "eng_SettlementRetryWait e = None" "eng_settlementRetryDelays e \<noteq> []"
  shows "case commitResult e rnd claimed result w of
      (Inl err, w') \<Rightarrow> lease_only (task_ID claimed) (db w) (db w')
    | (Inr _, w') \<Rightarrow> committed e rnd claimed result w w' \<and> fenced_out (task_ID claimed) (task_ClaimGeneration claimed) (clock w') (db w')"
proof -
  have "wpM (commitResult e rnd claimed result) (\<lambda>_ w'. committed e rnd claimed result w w' \<and> fenced_out (task_ID claimed) (task_ClaimGeneration claimed) (clock w') (db w'))
     (\<lambda>_ w'. lease_only (task_ID claimed) (db w) (db w')) w"
    unfolding commitResult_def
    by (rule wp_mono [OF wp_conj [OF commit_loop_outcome [OF assms(1)] commit_ends_claim]]) (use assms(2) in auto)
  then show ?thesis by (simp add: wpM_def)
qed

theorem settlement_is_all_or_nothing_witness:
  "let result = Complete ''done'' (Some (fail (ErrText ''row moved'')));
       w = example_world [example_task]; r = commitResult (example_engine\<lparr>eng_LeaseDuration := 30 * Second\<rparr>) (\<lambda>_. 1 / 2) example_task result w
   in isl (fst r) \<and> lease_only 1 (db w) (db (snd r))"
proof -
  let ?e = "example_engine\<lparr>eng_LeaseDuration := 30 * Second\<rparr>" and ?w = "example_world [example_task]"
  let ?result = "Complete ''done'' (Some (fail (ErrText ''row moved'')))"
  have l: "isl (fst (commitResult ?e (\<lambda>_. 1 / 2) example_task ?result ?w))" by code_simp
  moreover have "eng_SettlementRetryWait ?e = None" "eng_settlementRetryDelays ?e \<noteq> []" "task_ID example_task = 1"
    by (simp_all add: example_engine_def example_task_def)
  ultimately show ?thesis
    using settlement_is_all_or_nothing [where e = ?e and rnd = "\<lambda>_. 1 / 2" and claimed = example_task and result = ?result and w = ?w]
    by (auto simp: Let_def split: prod.splits sum.splits)
qed

section \<open>Settlements are well formed\<close>

text \<open>What \<open>validateResult\<close> and \<open>observationResult\<close> guarantee of the result that reaches the transition.\<close>

definition settleable :: "'d Result \<Rightarrow> bool" where
  "settleable r = (case r_kind r of resultInvalid \<Rightarrow> False | resultComplete \<Rightarrow> True | resultCancel \<Rightarrow> True
     | resultFail \<Rightarrow> r_failureReason r \<noteq> '''' | resultWait \<Rightarrow> known_mode (r_resumeMode r) | resultRetry \<Rightarrow> known_mode (r_resumeMode r))"

lemma observationResult_settleable:
  assumes "validateResult result = None" "observationResult reg current result n = Inr (eff, ob)"
  shows "settleable eff"
  using assms
  by (auto simp: validateResult_def observationResult_def settleable_def Let_def split: option.splits if_splits ResultKind.splits)

definition patch_ok :: "TaskObservationPatch option \<Rightarrow> bool" where
  "patch_ok p = (case p of None \<Rightarrow> True | Some q \<Rightarrow> (case patch_State q of None \<Rightarrow> True
     | Some ob \<Rightarrow> TrimSpace (obs_Key ob) \<noteq> '''' \<and> obs_StartedAt ob \<noteq> 0))"

lemma observationResult_patch:
  assumes "validateResult result = None" "observationResult reg current result n = Inr (eff, ob)" "0 < n"
  shows "patch_ok ob"
  using assms
  by (auto simp: validateResult_def observationResult_def patch_ok_def Let_def split: option.splits if_splits)

lemma transitionFor_available:
  assumes "settleable r" "0 < m" "0 \<le> rnd" "rnd < 1" "0 \<le> task_RetryCount current" "0 \<le> eng_PollInterval e"
    and "registry_Definition (eng_registry e) (task_Type current) = Some def" "validate_policy (def_Policy def) = None"
    and "tr_Status (transitionFor e rnd m current r) = TaskStatusPending"
  shows "m \<le> tr_AvailableAt (transitionFor e rnd m current r)"
proof -
  have pol: "registered_policy (eng_registry e) (task_Type current) = def_Policy def" by (simp add: registered_policy_def assms(7))
  have vb: "valid_backoff (Backoff (def_Policy def))" "0 \<le> ObservationInterval (def_Policy def)" "0 \<le> WaitInterval (def_Policy def)"
    using assms(8) by (auto simp: validate_policy_def split: if_splits)
  have "0 \<le> delay (Backoff (def_Policy def)) rnd (task_RetryCount current)" by (rule delay_bounds(2) [OF vb(1) assms(5,3,4)])
  then show ?thesis using assms(1,6,9) vb
    by (auto simp: transitionFor_def pol Let_def settleable_def split: ResultKind.splits if_splits option.splits)
qed

lemma transitionFor_shape:
  assumes "settleable r"
  shows "known_mode (tr_ResumeMode (transitionFor e rnd m current r))"
    "tr_Status (transitionFor e rnd m current r) \<in> {TaskStatusPending, TaskStatusCompleted, TaskStatusFailed, TaskStatusCancelled}"
    "patch_ok (tr_Observation (transitionFor e rnd m current r))"
    "tr_WaitReason (transitionFor e rnd m current r) \<noteq> Some ''''" "tr_FailureReason (transitionFor e rnd m current r) \<noteq> Some ''''"
    "tr_Status (transitionFor e rnd m current r) = TaskStatusFailed \<Longrightarrow> tr_FailureReason (transitionFor e rnd m current r) \<noteq> None"
    "tr_IncrementRetry (transitionFor e rnd m current r) \<Longrightarrow>
       task_RetryCount current + 1 < MaxAttempts (registered_policy (eng_registry e) (task_Type current)) \<and> r_kind r = resultRetry"
  using assms
  by (auto simp: transitionFor_def Let_def settleable_def textPointer_def patch_ok_def known_mode_def split: ResultKind.splits if_splits)

lemma settlement_transition_fields:
  "tr_Status (settlement_transition e rnd m c r ob) = tr_Status (transitionFor e rnd m c r)"
  "tr_ResumeMode (settlement_transition e rnd m c r ob) = tr_ResumeMode (transitionFor e rnd m c r)"
  "tr_AvailableAt (settlement_transition e rnd m c r ob) = tr_AvailableAt (transitionFor e rnd m c r)"
  "tr_WaitReason (settlement_transition e rnd m c r ob) = tr_WaitReason (transitionFor e rnd m c r)"
  "tr_FailureReason (settlement_transition e rnd m c r ob) = tr_FailureReason (transitionFor e rnd m c r)"
  "tr_IncrementRetry (settlement_transition e rnd m c r ob) = tr_IncrementRetry (transitionFor e rnd m c r)"
  "tr_Observation (settlement_transition e rnd m c r ob) \<in> {tr_Observation (transitionFor e rnd m c r), ob}"
  by (auto simp: settlement_transition_def Let_def)

text \<open>C10: a result that passed validation always yields a transition the repository accepts: a known
  target status, a known resume mode, a time not before the settlement for a task that stays pending,
  a usable observation record, and no empty reason; a failure always carries a reason, and a retry is
  scheduled only while the policy's attempts last.\<close>

theorem validated_results_settle:
  assumes "validateResult result = None" "observationResult (eng_registry e) current result n = Inr (eff, ob)"
    and "0 < n" "n \<le> m" "0 \<le> rnd" "rnd < 1" "0 \<le> task_RetryCount current" "0 \<le> eng_PollInterval e"
    and "registry_Definition (eng_registry e) (task_Type current) = Some def" "validate_policy (def_Policy def) = None"
    and "tr = settlement_transition e rnd m current eff ob"
  shows "validTaskTransition tr \<and> tr_WaitReason tr \<noteq> Some '''' \<and> tr_FailureReason tr \<noteq> Some '''' \<and>
    (tr_Status tr = TaskStatusPending \<longrightarrow> m \<le> tr_AvailableAt tr) \<and>
    (tr_Status tr = TaskStatusFailed \<longrightarrow> tr_FailureReason tr \<noteq> None) \<and>
    (tr_IncrementRetry tr \<longrightarrow> task_RetryCount current + 1 < MaxAttempts (def_Policy def))"
proof -
  note s = observationResult_settleable [OF assms(1,2)]
  note shape = transitionFor_shape [OF s, of e rnd m current] and fields = settlement_transition_fields [of e rnd m current eff ob]
  have pol: "registered_policy (eng_registry e) (task_Type current) = def_Policy def" by (simp add: registered_policy_def assms(9))
  have av: "m \<le> tr_AvailableAt tr" if "tr_Status tr = TaskStatusPending"
    using transitionFor_available [OF s _ assms(5,6,7,8,9,10), of m] that assms(3,4,11) fields by simp
  have "patch_ok (tr_Observation tr)"
    using fields(7) shape(3) observationResult_patch [OF assms(1,2,3)] assms(11) by auto
  then have "validTaskTransition tr"
    using shape(1,2) av assms(3,4) fields(1,2,3) unfolding assms(11)
    by (auto simp: validTaskTransition_def patch_ok_def split: option.splits TaskStatus.splits)
  then show ?thesis using av shape fields pol assms(11) by auto
qed

theorem validated_results_settle_witness:
  "let result = Retry_result (Some (ErrText ''provider is busy'')) ''provider_busy'' None;
       tr = settlement_transition example_engine (1 / 2) 101 example_task result None
   in validTaskTransition tr \<and> tr_WaitReason tr \<noteq> Some '''' \<and> tr_FailureReason tr \<noteq> Some '''' \<and>
      (tr_Status tr = TaskStatusPending \<longrightarrow> 101 \<le> tr_AvailableAt tr) \<and>
      (tr_Status tr = TaskStatusFailed \<longrightarrow> tr_FailureReason tr \<noteq> None) \<and>
      (tr_IncrementRetry tr \<longrightarrow> task_RetryCount example_task + 1 < MaxAttempts (def_Policy example_definition))"
  unfolding Let_def
  by (rule validated_results_settle [where n = 100 and result = "Retry_result (Some (ErrText ''provider is busy'')) ''provider_busy'' None"])
    (simp_all add: validateResult_def Retry_result_def zero_result_def known_mode_def observationResult_def example_task_def
      example_engine_def retry_registry_def registry_Definition_def example_definition_def NewRegistry_def example_policy_def
      validate_policy_def valid_backoff_def DefaultBackoffPolicy_def IsNaN_def IsInf_def float_ge_def float_le_def Second_def Minute_def)

section \<open>The settlement wait ends\<close>

lemma RenewLease_errors: "wpM (RenewLease i g dur) (\<lambda>_ w'. clock w \<le> clock w') (\<lambda>err _. err \<noteq> ErrText s) w"
  unfolding RenewLease_def by (auto simp: Let_def intro!: wp_now wp_update_tasks)

lemma settlement_wait_loop_ends:
  assumes "0 < renewal_interval e"
  shows "deadline - clock w < int k * renewal_interval e \<Longrightarrow> 0 < k \<Longrightarrow>
    wpM (settlement_wait_loop k e claimed deadline) (\<lambda>_ _. True) (\<lambda>err _. err \<noteq> ErrText ''fuel'') w"
proof (induction k arbitrary: w)
  case (Suc k)
  show ?case unfolding settlement_wait_loop.simps Let_def wp_bind
  proof (rule wp_now, goal_cases)
    case (1 n ts)
    let ?w = "w\<lparr>clock := n, ticks := ts\<rparr>" and ?wait = "min (renewal_interval e) (deadline - n)"
    have again: "wpM (settlement_wait_loop k e claimed deadline) (\<lambda>_ _. True) (\<lambda>err _. err \<noteq> ErrText ''fuel'') w'"
      if "?wait \<noteq> deadline - n" "n + renewal_interval e \<le> clock w'" for w'
    proof (rule Suc.IH)
      have "renewal_interval e < deadline - n" using that(1) by (simp add: min_def split: if_splits)
      then show "0 < k" using Suc.prems(1) 1 by (cases k) auto
      show "deadline - clock w' < int k * renewal_interval e" using Suc.prems(1) 1 that(2) by (simp add: algebra_simps)
    qed
    have renewed: "wpM (RenewLease (task_ID claimed) (task_ClaimGeneration claimed) (eng_LeaseDuration e))
        (\<lambda>_. wpM (settlement_wait_loop k e claimed deadline) (\<lambda>_ _. True) (\<lambda>err _. err \<noteq> ErrText ''fuel'')) (\<lambda>err _. err \<noteq> ErrText ''fuel'') w'"
      if "?wait \<noteq> deadline - n" "n + renewal_interval e \<le> clock w'" for w'
      by (rule wp_mono [OF RenewLease_errors]) (use that again in auto)
    show ?case unfolding sleepContext_def
      by (auto intro!: wp_ctx_done split: if_splits simp: wpM_def [of "\<lambda>w. (Inr True, _ w)"])
        (rule renewed; auto simp: min_def split: if_splits)
  qed
qed simp

text \<open>C24: waiting before another settlement attempt always comes to an end: with a lease of at least three
  nanoseconds the loop never runs more often than the delay has renewal intervals, and two more.\<close>

theorem settlement_wait_ends:
  assumes "eng_SettlementRetryWait e = None" "3 \<le> eng_LeaseDuration e" "0 \<le> d"
  shows "fst (waitSettlementRetry e claimed d w) \<noteq> Inl (ErrText ''fuel'')"
proof -
  have pos: "0 < renewal_interval e" using assms(2) by (simp add: renewal_interval_def Second_def)
  have fuel: "d < int (nat (d div renewal_interval e) + 2) * renewal_interval e"
  proof -
    let ?i = "renewal_interval e"
    have "d mod ?i < ?i" "0 \<le> d div ?i" "?i * (d div ?i) + d mod ?i = d"
      using pos assms(3) by (simp_all add: pos_imp_zdiv_nonneg_iff)
    then have "d < ?i * 2 + ?i * (d div ?i)" using pos by linarith
    then show ?thesis using \<open>0 \<le> d div ?i\<close> by (simp add: algebra_simps)
  qed
  have "wpM (waitSettlementRetry e claimed d) (\<lambda>_ _. True) (\<lambda>err _. err \<noteq> ErrText ''fuel'') w"
    unfolding waitSettlementRetry_def assms(1) option.case wp_bind
    by (rule wp_mono [OF RenewLease_errors], rule wp_now, rule settlement_wait_loop_ends [OF pos])
      (use fuel in auto)
  then show ?thesis by (auto simp: wpM_def split: prod.splits sum.splits)
qed

theorem settlement_wait_ends_witness:
  "fst (waitSettlementRetry (example_engine\<lparr>eng_LeaseDuration := 30 * Second\<rparr>) example_task (2 * Second) (example_world [example_task])) \<noteq> Inl (ErrText ''fuel'')"
  by (rule settlement_wait_ends) (simp_all add: example_engine_def Second_def)

end
