(* ===== verification/Storage_Model.thy ===== *)
theory Storage_Model
  imports Task_Invariants
begin

text \<open>
  The storage side of the schema: buckets and their replica slots, objects and object versions,
  contents, data sets, copies, commit requests, pull attempts, the cache index, the deletion
  ledger and the multipart tables of \<open>internal/db/migrations\<close>, with the row types of
  \<open>internal/model\<close>, \<open>internal/storagecommit\<close> and \<open>internal/storagepull\<close>. They fill the
  \<open>domain\<close> component of the task tables.

  Every write statement goes through \<open>swrite\<close>, which refuses a change that leaves a CHECK, a
  UNIQUE or a FOREIGN KEY constraint of these tables violated: PostgreSQL checks them at the end
  of each statement. On-chain identifiers are their text. An enumeration column has the constants
  of its Go type; a column whose Go value may be another string has an \<open>Other\<close> constructor.
\<close>

section \<open>Rows\<close>

datatype BucketStatus = BucketStatusProvisioning | BucketStatusReady | BucketStatusOther string

record Bucket =
  bkt_ID :: int
  bkt_Name :: string
  bkt_ACL :: "string option"
  bkt_OwnerAccessKey :: "string option"
  bkt_DefaultCopies :: int
  bkt_MinimumDurableCopies :: int
  bkt_DurabilityGeneration :: int
  bkt_DurabilityTaskID :: "int option"
  bkt_Status :: BucketStatus
  bkt_CreatedAt :: time
  bkt_UpdatedAt :: time
  bkt_ProviderSelectionStrategy :: string

datatype BucketReplicaSlotStatus = BucketReplicaSlotStatusActive | BucketReplicaSlotStatusDecommissioned

record BucketReplicaSlot =
  slot_ID :: int
  slot_BucketID :: int
  slot_CopyIndex :: int
  slot_Status :: BucketReplicaSlotStatus
  slot_CreatedAt :: time
  slot_UpdatedAt :: time

record Object =
  obj_ID :: int
  obj_BucketID :: int
  obj_Key :: string
  obj_CurrentVersionID :: "string option"
  obj_CreatedAt :: time
  obj_UpdatedAt :: time

record ObjectSystemMetadata =
  CacheControl :: string
  ContentDisposition :: string
  ContentEncoding :: string
  ContentLanguage :: string
  Expires :: string

text \<open>The stored columns of a version, and the version as reads return it: with the columns that
  are projected from the object, its content, its cache entry and its copies.\<close>

record ObjectVersion =
  ver_VersionID :: string
  ver_ObjectID :: int
  ver_BucketID :: int
  ver_Key :: string
  ver_ContentID :: "int option"
  ver_Size :: int
  ver_ETag :: string
  ver_ContentType :: string
  ver_Metadata :: "(string \<times> string) list"
  ver_SystemMetadata :: ObjectSystemMetadata
  ver_MultipartUploadID :: "string option"
  ver_IsDeleteMarker :: bool
  ver_CreatedAt :: time
  ver_UpdatedAt :: time

datatype ObjectState = ObjectStateCached | ObjectStateUploading | ObjectStateCommitting
  | ObjectStateReplicating | ObjectStateStored | ObjectStateFailed

record VersionView = ObjectVersion +
  ver_IsCurrent :: bool
  ver_Checksum :: string
  ver_PieceCID :: "string option"
  ver_InCache :: bool
  ver_CacheAccessedAt :: "time option"
  ver_InFilecoin :: bool
  ver_State :: ObjectState

datatype MultipartStatus = MultipartStatusInitiated | MultipartStatusCompleting
  | MultipartStatusCompleted | MultipartStatusAborted

record MultipartUpload =
  mpu_UploadID :: string
  mpu_BucketID :: int
  mpu_Key :: string
  mpu_ContentType :: string
  mpu_Metadata :: "(string \<times> string) list"
  mpu_SystemMetadata :: ObjectSystemMetadata
  mpu_Status :: MultipartStatus
  mpu_CreatedAt :: time
  mpu_UpdatedAt :: time

record MultipartPart =
  part_ID :: int
  part_UploadID :: string
  part_PartNumber :: int
  part_Size :: int
  part_ETag :: string
  part_Checksum :: "string option"
  part_CreatedAt :: time

record StorageContent =
  cnt_ID :: int
  cnt_BucketID :: int
  cnt_Checksum :: string
  cnt_ContentSize :: int
  cnt_PieceCID :: "string option"
  cnt_RequestedCopies :: int
  cnt_ErrorMessage :: "string option"
  cnt_AcceptedAt :: "time option"
  cnt_CleanupGeneration :: int
  cnt_CleanupTaskID :: "int option"
  cnt_CreatedAt :: time
  cnt_UpdatedAt :: time

datatype StorageDataSetStatus = StorageDataSetStatusPending | StorageDataSetStatusCreating
  | StorageDataSetStatusReady | StorageDataSetStatusDraining | StorageDataSetStatusRetired

record StorageDataSet =
  sds_ID :: int
  sds_BucketID :: int
  sds_ProviderID :: string
  sds_CopyIndex :: int
  sds_Generation :: int
  sds_IsCurrent :: bool
  sds_DataSetID :: "string option"
  sds_ClientDataSetID :: "string option"
  sds_Status :: StorageDataSetStatus
  sds_TxHash :: "string option"
  sds_ConfirmedTxHash :: "string option"
  sds_CreateStatusURL :: "string option"
  sds_CreatedByContentID :: "int option"
  sds_LastError :: "string option"
  sds_EnsureTaskID :: "int option"
  sds_RetirementGeneration :: int
  sds_RetirementTaskID :: "int option"
  sds_CreatedAt :: time
  sds_UpdatedAt :: time
  sds_CreationRejection :: raw

datatype RequestStatus = RequestStatusCollecting | RequestStatusReady | RequestStatusSubmitted
  | RequestStatusConfirmed | RequestStatusAbandoned

record CommitRequest =
  req_RequestID :: string
  req_StorageDataSetID :: int
  req_Status :: RequestStatus
  req_TaskID :: "int option"
  req_PieceCount :: int
  req_ExtraDataHex :: "string option"
  req_SealedAt :: "time option"
  req_FirstSentAt :: "time option"
  req_Sends :: int
  req_SubmittedAt :: "time option"
  req_LastSentAt :: "time option"
  req_TxHash :: "string option"
  req_StatusURL :: "string option"
  req_SubmitError :: "string option"
  req_Refusals :: int
  req_RetryAt :: "time option"
  req_FirstPieceID :: "string option"
  req_ConfirmedTxHash :: "string option"
  req_ConfirmedAt :: "time option"
  req_LastError :: "string option"
  req_AttentionCode :: "string option"
  req_AttentionAt :: "time option"
  req_CreatedAt :: time
  req_UpdatedAt :: time
  req_SealRequestedAt :: "time option"

record CommitPiece =
  piece_RequestID :: string
  piece_Position :: int
  piece_ContentID :: int
  piece_StorageDataSetID :: int
  piece_PieceCID :: string
  piece_CreatedAt :: time

datatype StorageCopyTransferMethod = StorageCopyTransferMethodIngress | StorageCopyTransferMethodPeerPull
  | StorageCopyTransferMethodCacheRestore

datatype StorageCopyStatus = StorageCopyStatusPending | StorageCopyStatusPieceReady | StorageCopyStatusCommitting
  | StorageCopyStatusCommitted | StorageCopyStatusFailed

record StorageCopy =
  cpy_ID :: int
  cpy_ContentID :: int
  cpy_BucketID :: int
  cpy_ContentSize :: int
  cpy_StorageDataSetID :: int
  cpy_CopyIndex :: int
  cpy_ProviderID :: string
  cpy_PieceID :: "string option"
  cpy_TransferMethod :: StorageCopyTransferMethod
  cpy_Status :: StorageCopyStatus
  cpy_RetrievalURL :: "string option"
  cpy_CommitReadyAt :: "time option"
  cpy_CommitRequestID :: "string option"
  cpy_CommitPosition :: "int option"
  cpy_CommitRequestStatus :: "RequestStatus option"
  cpy_IngressBytesTransferred :: int
  cpy_IngressStoreAttempt :: int
  cpy_ProgressUpdatedAt :: "time option"
  cpy_WorkGeneration :: int
  cpy_ActiveTaskID :: "int option"
  cpy_LastError :: "string option"
  cpy_CreatedAt :: time
  cpy_UpdatedAt :: time

datatype PullAttemptStatus = PullAttempted | PullAbandoned

record PullAttempt =
  pull_AttemptID :: string
  pull_ContentID :: int
  pull_StorageDataSetID :: int
  pull_Status :: PullAttemptStatus
  pull_LastError :: "string option"
  pull_AttemptedAt :: time
  pull_ResolvedAt :: "time option"
  pull_CreatedAt :: time
  pull_UpdatedAt :: time

record ObjectCache =
  oc_ContentID :: int
  oc_InCache :: bool
  oc_CacheAccessedAt :: "time option"
  oc_CachePresenceGeneration :: int
  oc_CacheOperationGeneration :: int
  oc_CacheActiveTaskID :: "int option"
  oc_CreatedAt :: time
  oc_UpdatedAt :: time

record ObjectDeletion =
  del_ID :: int
  del_BucketID :: int
  del_ObjectID :: int
  del_Key :: string
  del_VersionID :: string
  del_ContentID :: "int option"
  del_Size :: int
  del_DeletedAt :: time

datatype StorageCleanupCopyStatus = StorageCleanupCopyStatusPending | StorageCleanupCopyStatusDeleteScheduled
  | StorageCleanupCopyStatusRemoved | StorageCleanupCopyStatusFailed | StorageCleanupCopyStatusUnsupported

record StorageCleanupCopy =
  ccp_ID :: int
  ccp_ContentID :: int
  ccp_BucketID :: int
  ccp_CopyIndex :: int
  ccp_ProviderID :: string
  ccp_StorageDataSetID :: int
  ccp_DataSetID :: "string option"
  ccp_ClientDataSetID :: "string option"
  ccp_PieceID :: string
  ccp_PieceCID :: string
  ccp_Checksum :: string
  ccp_RetrievalURL :: "string option"
  ccp_Status :: StorageCleanupCopyStatus
  ccp_DeleteTxHash :: "string option"
  ccp_LastError :: "string option"
  ccp_ScheduledAt :: "time option"
  ccp_RemovedAt :: "time option"
  ccp_CreatedAt :: time
  ccp_UpdatedAt :: time

record storage_db =
  s3_accounts :: "string list"
  buckets :: "Bucket list"
  bucket_replica_slots :: "BucketReplicaSlot list"
  objects :: "Object list"
  object_versions :: "ObjectVersion list"
  multipart_uploads :: "MultipartUpload list"
  multipart_parts :: "MultipartPart list"
  storage_contents :: "StorageContent list"
  storage_data_sets :: "StorageDataSet list"
  storage_commit_requests :: "CommitRequest list"
  storage_commit_request_pieces :: "CommitPiece list"
  storage_copies :: "StorageCopy list"
  storage_pull_attempts :: "PullAttempt list"
  object_cache :: "ObjectCache list"
  object_deletions :: "ObjectDeletion list"
  storage_cleanup_copies :: "StorageCleanupCopy list"

type_synonym 'a SDB = "(storage_db, 'a) DB"

section \<open>Row constraints\<close>

definition nonempty_opt :: "string option \<Rightarrow> bool" where
  "nonempty_opt x = (x \<noteq> Some '''')"

definition chk_buckets :: "Bucket \<Rightarrow> bool" where
  "chk_buckets r = (bkt_Name r \<noteq> '''' \<and> nonempty_opt (bkt_OwnerAccessKey r) \<and> 1 \<le> bkt_DefaultCopies r \<and>
     1 \<le> bkt_MinimumDurableCopies r \<and> bkt_MinimumDurableCopies r \<le> bkt_DefaultCopies r \<and>
     0 \<le> bkt_DurabilityGeneration r \<and> (bkt_Status r = BucketStatusProvisioning \<or> bkt_Status r = BucketStatusReady))"

definition chk_objects :: "Object \<Rightarrow> bool" where
  "chk_objects r = (obj_Key r \<noteq> '''')"

definition chk_object_versions :: "ObjectVersion \<Rightarrow> bool" where
  "chk_object_versions r = (ver_VersionID r \<noteq> '''' \<and> ver_Key r \<noteq> '''' \<and> nonempty_opt (ver_MultipartUploadID r) \<and>
     0 \<le> ver_Size r \<and>
     (if ver_IsDeleteMarker r
      then ver_ContentID r = None \<and> ver_Size r = 0 \<and> ver_ETag r = '''' \<and> ver_ContentType r = ''''
      else ver_ContentID r \<noteq> None \<and> ver_ETag r \<noteq> ''''))"

definition chk_multipart_uploads :: "MultipartUpload \<Rightarrow> bool" where
  "chk_multipart_uploads r = (mpu_Key r \<noteq> '''' \<and> mpu_UploadID r \<noteq> '''')"

definition chk_multipart_parts :: "MultipartPart \<Rightarrow> bool" where
  "chk_multipart_parts r = (part_UploadID r \<noteq> '''' \<and> part_ETag r \<noteq> '''' \<and> nonempty_opt (part_Checksum r) \<and>
     1 \<le> part_PartNumber r \<and> part_PartNumber r \<le> 10000 \<and> 0 \<le> part_Size r)"

definition is_sha256_hex :: "string \<Rightarrow> bool" where
  "is_sha256_hex s = (length s = 64 \<and> list_all (\<lambda>c. c \<in> set ''0123456789abcdef'') s)"

definition chk_storage_contents :: "StorageContent \<Rightarrow> bool" where
  "chk_storage_contents r = (is_sha256_hex (cnt_Checksum r) \<and> nonempty_opt (cnt_PieceCID r) \<and> 0 \<le> cnt_ContentSize r \<and>
     1 \<le> cnt_RequestedCopies r \<and> 0 \<le> cnt_CleanupGeneration r)"

definition chk_storage_data_sets :: "StorageDataSet \<Rightarrow> bool" where
  "chk_storage_data_sets r = (sds_ProviderID r \<noteq> '''' \<and> nonempty_opt (sds_DataSetID r) \<and> nonempty_opt (sds_ClientDataSetID r) \<and>
     nonempty_opt (sds_TxHash r) \<and> nonempty_opt (sds_CreateStatusURL r) \<and> nonempty_opt (sds_ConfirmedTxHash r) \<and>
     1 \<le> sds_Generation r \<and> 0 \<le> sds_RetirementGeneration r \<and>
     (sds_Status r = StorageDataSetStatusReady \<longrightarrow> sds_DataSetID r \<noteq> None) \<and>
     (sds_Status r = StorageDataSetStatusDraining \<or> sds_Status r = StorageDataSetStatusRetired \<longrightarrow> \<not> sds_IsCurrent r) \<and>
     (sds_CreationRejection r = RawEmpty \<or> jsonObject (sds_CreationRejection r)))"

definition settled_request :: "RequestStatus \<Rightarrow> bool" where
  "settled_request s = (s = RequestStatusConfirmed \<or> s = RequestStatusAbandoned)"

definition request_shape :: "CommitRequest \<Rightarrow> bool" where
  "request_shape r = (let unconfirmed = (req_FirstPieceID r = None \<and> req_ConfirmedTxHash r = None \<and> req_ConfirmedAt r = None);
       signed = (1 \<le> req_PieceCount r \<and> req_ExtraDataHex r \<noteq> None \<and> req_SealedAt r \<noteq> None) in
     case req_Status r of
       RequestStatusCollecting \<Rightarrow> req_PieceCount r = 0 \<and> req_ExtraDataHex r = None \<and> req_SealedAt r = None \<and>
         req_FirstSentAt r = None \<and> req_Sends r = 0 \<and> req_SubmittedAt r = None \<and> req_LastSentAt r = None \<and>
         req_TxHash r = None \<and> unconfirmed
     | RequestStatusReady \<Rightarrow> signed \<and> req_Sends r = 0 \<and> req_SubmittedAt r = None \<and> req_TxHash r = None \<and> unconfirmed
     | RequestStatusSubmitted \<Rightarrow> signed \<and> req_FirstSentAt r \<noteq> None \<and> 1 \<le> req_Sends r \<and> req_SubmittedAt r \<noteq> None \<and>
         req_LastSentAt r \<noteq> None \<and> unconfirmed
     | RequestStatusConfirmed \<Rightarrow> signed \<and> req_FirstSentAt r \<noteq> None \<and> req_FirstPieceID r \<noteq> None \<and>
         req_ConfirmedAt r \<noteq> None \<and> (req_ConfirmedTxHash r = None \<or> req_TxHash r \<noteq> None)
     | RequestStatusAbandoned \<Rightarrow> req_LastError r \<noteq> None \<and> unconfirmed)"

definition chk_commit_requests :: "CommitRequest \<Rightarrow> bool" where
  "chk_commit_requests r = (req_RequestID r \<noteq> '''' \<and>
     list_all nonempty_opt [req_ExtraDataHex r, req_TxHash r, req_StatusURL r, req_SubmitError r, req_FirstPieceID r,
       req_ConfirmedTxHash r, req_LastError r, req_AttentionCode r] \<and>
     0 \<le> req_PieceCount r \<and> 0 \<le> req_Sends r \<and> 0 \<le> req_Refusals r \<and>
     (req_SealRequestedAt r = None \<or> req_Status r = RequestStatusCollecting) \<and>
     settled_request (req_Status r) = (req_TaskID r = None) \<and> request_shape r \<and>
     (req_TxHash r = None) = (req_StatusURL r = None) \<and>
     (req_AttentionCode r = None) = (req_AttentionAt r = None) \<and>
     (req_AttentionCode r = None \<or> req_Status r = RequestStatusSubmitted))"

definition chk_storage_copies :: "StorageCopy \<Rightarrow> bool" where
  "chk_storage_copies r = (0 \<le> cpy_WorkGeneration r \<and>
     (cpy_CommitRequestStatus r = None \<or> cpy_CommitRequestStatus r = Some RequestStatusConfirmed) \<and>
     (cpy_Status r = StorageCopyStatusCommitted) = (cpy_CommitRequestStatus r \<noteq> None) \<and>
     nonempty_opt (cpy_CommitRequestID r) \<and>
     (case cpy_CommitPosition r of None \<Rightarrow> True | Some p \<Rightarrow> cpy_CommitRequestID r \<noteq> None \<and> 0 \<le> p) \<and>
     (cpy_CommitRequestStatus r = None \<or> cpy_CommitPosition r \<noteq> None) \<and>
     (cpy_Status r = StorageCopyStatusCommitting \<longrightarrow> cpy_CommitPosition r \<noteq> None) \<and>
     (cpy_Status r = StorageCopyStatusPieceReady \<longrightarrow> cpy_CommitPosition r = None) \<and>
     cpy_ProviderID r \<noteq> '''' \<and> nonempty_opt (cpy_PieceID r) \<and> nonempty_opt (cpy_RetrievalURL r) \<and>
     (cpy_Status r = StorageCopyStatusCommitted \<longrightarrow> cpy_PieceID r \<noteq> None \<and> cpy_RetrievalURL r \<noteq> None) \<and>
     (cpy_CommitReadyAt r = None \<or> cpy_Status r \<in> {StorageCopyStatusPieceReady, StorageCopyStatusCommitting, StorageCopyStatusCommitted}) \<and>
     0 \<le> cpy_ContentSize r \<and>
     (cpy_TransferMethod r = StorageCopyTransferMethodPeerPull \<longrightarrow>
        cpy_IngressBytesTransferred r = 0 \<and> cpy_IngressStoreAttempt r = 0 \<and> cpy_ProgressUpdatedAt r = None) \<and>
     0 \<le> cpy_IngressBytesTransferred r \<and> cpy_IngressBytesTransferred r \<le> cpy_ContentSize r \<and> 0 \<le> cpy_IngressStoreAttempt r)"

definition chk_pull_attempts :: "PullAttempt \<Rightarrow> bool" where
  "chk_pull_attempts r = (pull_AttemptID r \<noteq> '''' \<and>
     (case pull_LastError r of None \<Rightarrow> True | Some e \<Rightarrow> pull_Status r = PullAbandoned \<and> e \<noteq> '''') \<and>
     (pull_Status r = PullAbandoned \<longrightarrow> pull_ResolvedAt r \<noteq> None))"

definition chk_object_cache :: "ObjectCache \<Rightarrow> bool" where
  "chk_object_cache r = (0 \<le> oc_CachePresenceGeneration r \<and> 0 \<le> oc_CacheOperationGeneration r)"

definition chk_object_deletions :: "ObjectDeletion \<Rightarrow> bool" where
  "chk_object_deletions r = (del_Key r \<noteq> '''' \<and> del_VersionID r \<noteq> '''' \<and> 0 \<le> del_Size r)"

definition chk_cleanup_copies :: "StorageCleanupCopy \<Rightarrow> bool" where
  "chk_cleanup_copies r = (ccp_ProviderID r \<noteq> '''' \<and> ccp_PieceID r \<noteq> '''' \<and> ccp_PieceCID r \<noteq> '''' \<and> ccp_Checksum r \<noteq> '''' \<and>
     nonempty_opt (ccp_DataSetID r) \<and> nonempty_opt (ccp_ClientDataSetID r) \<and> nonempty_opt (ccp_DeleteTxHash r) \<and>
     (ccp_Status r = StorageCleanupCopyStatusDeleteScheduled \<longrightarrow> ccp_DeleteTxHash r \<noteq> None \<and> ccp_ScheduledAt r \<noteq> None))"

definition row_checks :: "storage_db \<Rightarrow> bool" where
  "row_checks d = (list_all chk_buckets (buckets d) \<and> list_all (\<lambda>s. 0 \<le> slot_CopyIndex s) (bucket_replica_slots d) \<and>
     list_all chk_objects (objects d) \<and> list_all chk_object_versions (object_versions d) \<and>
     list_all chk_multipart_uploads (multipart_uploads d) \<and> list_all chk_multipart_parts (multipart_parts d) \<and>
     list_all chk_storage_contents (storage_contents d) \<and> list_all chk_storage_data_sets (storage_data_sets d) \<and>
     list_all chk_commit_requests (storage_commit_requests d) \<and>
     list_all (\<lambda>p. 0 \<le> piece_Position p \<and> piece_PieceCID p \<noteq> '''') (storage_commit_request_pieces d) \<and>
     list_all chk_storage_copies (storage_copies d) \<and> list_all chk_pull_attempts (storage_pull_attempts d) \<and>
     list_all chk_object_cache (object_cache d) \<and> list_all chk_object_deletions (object_deletions d) \<and>
     list_all chk_cleanup_copies (storage_cleanup_copies d))"

section \<open>Table constraints\<close>

text \<open>A UNIQUE constraint over columns \<open>k\<close> of the rows \<open>P\<close>: NULLs do not conflict, so a nullable
  column is restricted to the rows that have it.\<close>

definition unique_key :: "('r \<Rightarrow> bool) \<Rightarrow> ('r \<Rightarrow> 'k) \<Rightarrow> 'r list \<Rightarrow> bool" where
  "unique_key P k rs = distinct (map k (filter P rs))"

definition unique_bucket_tables :: "storage_db \<Rightarrow> bool" where
  "unique_bucket_tables d = (
     unique_key (\<lambda>_. True) bkt_ID (buckets d) \<and> unique_key (\<lambda>_. True) bkt_Name (buckets d) \<and>
     unique_key (\<lambda>r. bkt_DurabilityTaskID r \<noteq> None) bkt_DurabilityTaskID (buckets d) \<and>
     unique_key (\<lambda>_. True) slot_ID (bucket_replica_slots d) \<and>
     unique_key (\<lambda>_. True) (\<lambda>r. (slot_BucketID r, slot_CopyIndex r)) (bucket_replica_slots d))"

definition unique_object_tables :: "storage_db \<Rightarrow> bool" where
  "unique_object_tables d = (
     unique_key (\<lambda>_. True) obj_ID (objects d) \<and>
     unique_key (\<lambda>_. True) (\<lambda>r. (obj_BucketID r, obj_Key r)) (objects d) \<and>
     unique_key (\<lambda>_. True) ver_VersionID (object_versions d) \<and>
     unique_key (\<lambda>_. True) mpu_UploadID (multipart_uploads d) \<and>
     unique_key (\<lambda>_. True) part_ID (multipart_parts d) \<and>
     unique_key (\<lambda>_. True) (\<lambda>r. (part_UploadID r, part_PartNumber r)) (multipart_parts d) \<and>
     unique_key (\<lambda>_. True) oc_ContentID (object_cache d) \<and>
     unique_key (\<lambda>r. oc_CacheActiveTaskID r \<noteq> None) oc_CacheActiveTaskID (object_cache d) \<and>
     unique_key (\<lambda>_. True) del_ID (object_deletions d) \<and> unique_key (\<lambda>_. True) del_VersionID (object_deletions d))"

definition unique_storage_tables :: "storage_db \<Rightarrow> bool" where
  "unique_storage_tables d = (
     unique_key (\<lambda>_. True) cnt_ID (storage_contents d) \<and>
     unique_key (\<lambda>_. True) (\<lambda>r. (cnt_BucketID r, cnt_Checksum r, cnt_ContentSize r)) (storage_contents d) \<and>
     unique_key (\<lambda>r. cnt_CleanupTaskID r \<noteq> None) cnt_CleanupTaskID (storage_contents d) \<and>
     unique_key (\<lambda>_. True) sds_ID (storage_data_sets d) \<and>
     unique_key (\<lambda>r. sds_DataSetID r \<noteq> None) (\<lambda>r. (sds_ProviderID r, sds_DataSetID r)) (storage_data_sets d) \<and>
     unique_key sds_IsCurrent (\<lambda>r. (sds_BucketID r, sds_CopyIndex r)) (storage_data_sets d) \<and>
     unique_key (\<lambda>_. True) (\<lambda>r. (sds_BucketID r, sds_CopyIndex r, sds_Generation r)) (storage_data_sets d) \<and>
     unique_key (\<lambda>r. sds_Status r \<noteq> StorageDataSetStatusRetired) (\<lambda>r. (sds_BucketID r, sds_ProviderID r)) (storage_data_sets d) \<and>
     unique_key (\<lambda>r. sds_EnsureTaskID r \<noteq> None) sds_EnsureTaskID (storage_data_sets d) \<and>
     unique_key (\<lambda>r. sds_RetirementTaskID r \<noteq> None) sds_RetirementTaskID (storage_data_sets d))"

definition unique_copy_tables :: "storage_db \<Rightarrow> bool" where
  "unique_copy_tables d = (
     unique_key (\<lambda>_. True) req_RequestID (storage_commit_requests d) \<and>
     unique_key (\<lambda>r. req_TaskID r \<noteq> None) req_TaskID (storage_commit_requests d) \<and>
     unique_key (\<lambda>_. True) (\<lambda>r. (piece_RequestID r, piece_Position r)) (storage_commit_request_pieces d) \<and>
     unique_key (\<lambda>_. True) (\<lambda>r. (piece_RequestID r, piece_ContentID r, piece_StorageDataSetID r)) (storage_commit_request_pieces d) \<and>
     unique_key (\<lambda>_. True) cpy_ID (storage_copies d) \<and>
     unique_key (\<lambda>_. True) (\<lambda>r. (cpy_ContentID r, cpy_StorageDataSetID r)) (storage_copies d) \<and>
     unique_key (\<lambda>r. cpy_TransferMethod r = StorageCopyTransferMethodIngress \<and> cpy_Status r \<noteq> StorageCopyStatusFailed)
       cpy_ContentID (storage_copies d) \<and>
     unique_key (\<lambda>r. cpy_CommitRequestID r \<noteq> None \<and> cpy_CommitPosition r \<noteq> None)
       (\<lambda>r. (cpy_CommitRequestID r, cpy_CommitPosition r)) (storage_copies d) \<and>
     unique_key (\<lambda>r. cpy_ActiveTaskID r \<noteq> None) cpy_ActiveTaskID (storage_copies d) \<and>
     unique_key (\<lambda>_. True) pull_AttemptID (storage_pull_attempts d) \<and>
     unique_key (\<lambda>r. pull_ResolvedAt r = None) (\<lambda>r. (pull_ContentID r, pull_StorageDataSetID r)) (storage_pull_attempts d) \<and>
     unique_key (\<lambda>_. True) ccp_ID (storage_cleanup_copies d) \<and>
     unique_key (\<lambda>_. True) (\<lambda>r. (ccp_ContentID r, ccp_StorageDataSetID r, ccp_PieceID r)) (storage_cleanup_copies d))"

text \<open>A FOREIGN KEY: a row whose referencing columns are not NULL has a row it refers to.\<close>

definition refers :: "('r \<Rightarrow> 'k option) \<Rightarrow> 'r list \<Rightarrow> 'k list \<Rightarrow> bool" where
  "refers k rs targets = list_all (\<lambda>r. case k r of None \<Rightarrow> True | Some x \<Rightarrow> x \<in> set targets) rs"

definition foreign_object_tables :: "int list \<Rightarrow> storage_db \<Rightarrow> bool" where
  "foreign_object_tables task_ids d = (let bucket_ids = map bkt_ID (buckets d) in
     refers bkt_OwnerAccessKey (buckets d) (s3_accounts d) \<and>
     refers bkt_DurabilityTaskID (buckets d) task_ids \<and>
     refers (\<lambda>r. Some (slot_BucketID r)) (bucket_replica_slots d) bucket_ids \<and>
     refers (\<lambda>r. Some (obj_BucketID r)) (objects d) bucket_ids \<and>
     refers (\<lambda>r. map_option (\<lambda>v. (v, obj_ID r)) (obj_CurrentVersionID r)) (objects d)
       (map (\<lambda>v. (ver_VersionID v, ver_ObjectID v)) (object_versions d)) \<and>
     refers (\<lambda>r. Some (ver_ObjectID r, ver_BucketID r, ver_Key r)) (object_versions d)
       (map (\<lambda>r. (obj_ID r, obj_BucketID r, obj_Key r)) (objects d)) \<and>
     refers (\<lambda>r. map_option (\<lambda>u. (u, ver_BucketID r, ver_Key r)) (ver_MultipartUploadID r)) (object_versions d)
       (map (\<lambda>u. (mpu_UploadID u, mpu_BucketID u, mpu_Key u)) (multipart_uploads d)) \<and>
     refers (\<lambda>r. map_option (\<lambda>c. (c, ver_BucketID r, ver_Size r)) (ver_ContentID r)) (object_versions d)
       (map (\<lambda>c. (cnt_ID c, cnt_BucketID c, cnt_ContentSize c)) (storage_contents d)) \<and>
     refers (\<lambda>r. Some (mpu_BucketID r)) (multipart_uploads d) bucket_ids \<and>
     refers (\<lambda>r. Some (part_UploadID r)) (multipart_parts d) (map mpu_UploadID (multipart_uploads d)) \<and>
     refers (\<lambda>r. Some (oc_ContentID r)) (object_cache d) (map cnt_ID (storage_contents d)) \<and>
     refers oc_CacheActiveTaskID (object_cache d) task_ids \<and>
     refers (\<lambda>r. Some (del_BucketID r)) (object_deletions d) bucket_ids)"

definition foreign_storage_tables :: "int list \<Rightarrow> storage_db \<Rightarrow> bool" where
  "foreign_storage_tables task_ids d = (let slots = map (\<lambda>s. (slot_BucketID s, slot_CopyIndex s)) (bucket_replica_slots d);
       set_identity = map (\<lambda>s. (sds_ID s, sds_BucketID s, sds_CopyIndex s, sds_ProviderID s)) (storage_data_sets d) in
     refers (\<lambda>r. Some (cnt_BucketID r)) (storage_contents d) (map bkt_ID (buckets d)) \<and>
     refers cnt_CleanupTaskID (storage_contents d) task_ids \<and>
     refers (\<lambda>r. Some (sds_BucketID r, sds_CopyIndex r)) (storage_data_sets d) slots \<and>
     refers (\<lambda>r. map_option (\<lambda>c. (c, sds_BucketID r)) (sds_CreatedByContentID r)) (storage_data_sets d)
       (map (\<lambda>c. (cnt_ID c, cnt_BucketID c)) (storage_contents d)) \<and>
     refers sds_EnsureTaskID (storage_data_sets d) task_ids \<and> refers sds_RetirementTaskID (storage_data_sets d) task_ids \<and>
     refers (\<lambda>r. Some (req_StorageDataSetID r)) (storage_commit_requests d) (map sds_ID (storage_data_sets d)) \<and>
     refers req_TaskID (storage_commit_requests d) task_ids \<and>
     refers (\<lambda>r. Some (piece_RequestID r, piece_StorageDataSetID r)) (storage_commit_request_pieces d)
       (map (\<lambda>q. (req_RequestID q, req_StorageDataSetID q)) (storage_commit_requests d)) \<and>
     refers (\<lambda>r. Some (cpy_ContentID r, cpy_BucketID r, cpy_ContentSize r)) (storage_copies d)
       (map (\<lambda>c. (cnt_ID c, cnt_BucketID c, cnt_ContentSize c)) (storage_contents d)) \<and>
     refers (\<lambda>r. Some (cpy_StorageDataSetID r, cpy_BucketID r, cpy_CopyIndex r, cpy_ProviderID r)) (storage_copies d) set_identity \<and>
     refers cpy_ActiveTaskID (storage_copies d) task_ids \<and>
     refers (\<lambda>r. map_option (\<lambda>q. (q, cpy_StorageDataSetID r)) (cpy_CommitRequestID r)) (storage_copies d)
       (map (\<lambda>q. (req_RequestID q, req_StorageDataSetID q)) (storage_commit_requests d)) \<and>
     refers (\<lambda>r. case (cpy_CommitRequestID r, cpy_CommitPosition r) of
         (Some q, Some p) \<Rightarrow> Some (q, p, cpy_ContentID r, cpy_StorageDataSetID r) | _ \<Rightarrow> None) (storage_copies d)
       (map (\<lambda>p. (piece_RequestID p, piece_Position p, piece_ContentID p, piece_StorageDataSetID p)) (storage_commit_request_pieces d)) \<and>
     refers (\<lambda>r. case (cpy_CommitRequestID r, cpy_CommitRequestStatus r) of
         (Some q, Some s) \<Rightarrow> Some (q, cpy_StorageDataSetID r, s) | _ \<Rightarrow> None) (storage_copies d)
       (map (\<lambda>q. (req_RequestID q, req_StorageDataSetID q, req_Status q)) (storage_commit_requests d)) \<and>
     refers (\<lambda>r. Some (pull_StorageDataSetID r)) (storage_pull_attempts d) (map sds_ID (storage_data_sets d)) \<and>
     refers (\<lambda>r. Some (ccp_StorageDataSetID r, ccp_BucketID r, ccp_CopyIndex r, ccp_ProviderID r)) (storage_cleanup_copies d) set_identity)"

definition unique_checks :: "storage_db \<Rightarrow> bool" where
  "unique_checks d = (unique_bucket_tables d \<and> unique_object_tables d \<and> unique_storage_tables d \<and> unique_copy_tables d)"

definition schema_violation :: "int list \<Rightarrow> storage_db \<Rightarrow> db_fault option" where
  "schema_violation task_ids d =
     (if \<not> row_checks d then Some CheckViolation
      else if \<not> unique_checks d then Some UniqueViolation
      else if \<not> (foreign_object_tables task_ids d \<and> foreign_storage_tables task_ids d) then Some ForeignKeyViolation
      else None)"

section \<open>Statements\<close>

definition sread :: "(storage_db \<Rightarrow> 'a) \<Rightarrow> 'a SDB" where
  "sread f = query (\<lambda>t. f (domain t))"

text \<open>\<open>twrite\<close> also reads the task tables, for statements with a subquery on \<open>tasks\<close>.\<close>

definition twrite :: "(storage_db tables \<Rightarrow> 'a \<times> storage_db) \<Rightarrow> 'a SDB" where
  "twrite f = stmtE (\<lambda>t. let d' = snd (f t) in
     case schema_violation (map task_ID (tasks t)) d' of
       None \<Rightarrow> (Inr (fst (f t)), t\<lparr>domain := d'\<rparr>) | Some e \<Rightarrow> (Inl e, t))"

definition swrite :: "(storage_db \<Rightarrow> 'a \<times> storage_db) \<Rightarrow> 'a SDB" where
  "swrite f = twrite (\<lambda>t. f (domain t))"

lemma wp_sread:
  assumes "\<And>fs. Q (f (domain (db w))) (w\<lparr>faults := fs\<rparr>)" and "\<And>e fs. E (ErrDb e) (w\<lparr>faults := fs\<rparr>)"
  shows "wpM (sread f) Q E w"
  unfolding sread_def using assms by (intro wp_query)

lemma wp_twrite:
  assumes "\<And>fs. schema_violation (map task_ID (tasks (db w))) (snd (f (db w))) = None \<Longrightarrow>
      Q (fst (f (db w))) (w\<lparr>db := (db w)\<lparr>domain := snd (f (db w))\<rparr>, faults := fs\<rparr>)"
    and "\<And>e fs. E (ErrDb e) (w\<lparr>faults := fs\<rparr>)"
  shows "wpM (twrite f) Q E w"
  unfolding twrite_def by (rule wp_stmtE) (use assms in \<open>auto simp: Let_def split: option.splits\<close>)

lemma wp_swrite:
  assumes "\<And>fs. schema_violation (map task_ID (tasks (db w))) (snd (f (domain (db w)))) = None \<Longrightarrow>
      Q (fst (f (domain (db w)))) (w\<lparr>db := (db w)\<lparr>domain := snd (f (domain (db w)))\<rparr>, faults := fs\<rparr>)"
    and "\<And>e fs. E (ErrDb e) (w\<lparr>faults := fs\<rparr>)"
  shows "wpM (swrite f) Q E w"
  unfolding swrite_def by (rule wp_twrite) (use assms in auto)

section \<open>Task subjects\<close>

text \<open>\<open>strconv.FormatInt(i, 10)\<close>, the subject key of a task about row \<open>i\<close>.\<close>

fun nat_digits :: "nat \<Rightarrow> string" where
  "nat_digits n = (if n < 10 then [char_of (48 + n)] else nat_digits (n div 10) @ [char_of (48 + n mod 10)])"

definition FormatInt :: "int \<Rightarrow> string" where
  "FormatInt i = (if i < 0 then CHR ''-'' # nat_digits (nat (- i)) else nat_digits (nat i))"

definition TaskSubjectStorageContent :: string where
  "TaskSubjectStorageContent = ''storage_content''"

text \<open>The view \<open>live_tasks\<close>.\<close>

definition live_task :: "Task \<Rightarrow> bool" where
  "live_task r = ((task_Status r = TaskStatusPending \<or> task_Status r = TaskStatusRunning \<or> task_Status r = TaskStatusFailed) \<and>
     task_AcknowledgedAt r = None \<and> task_SupersededAt r = None)"

end
