(* ===== verification/Key_Prefix.thy ===== *)
theory Key_Prefix
  imports Gateway_Prelude
begin

text \<open>
  \<open>prefix_filter.go\<close>: listing by prefix as a key range, with Go's conversions between strings and
  runes. A string is its bytes (\<open>char\<close>), a rune a natural number; keys compare by bytes, as the
  \<open>"C"\<close> collation does.
\<close>

section \<open>Go's UTF-8\<close>

definition MaxRune :: nat where
  "MaxRune = 0x10FFFF"

definition valid_rune :: "nat \<Rightarrow> bool" where
  "valid_rune r = (r \<le> MaxRune \<and> \<not> (0xD800 \<le> r \<and> r \<le> 0xDFFF))"

definition enc_rune :: "nat \<Rightarrow> nat list" where
  "enc_rune r =
     (if r < 0x80 then [r]
      else if r < 0x800 then [0xC0 + r div 64, 0x80 + r mod 64]
      else if \<not> valid_rune r then [0xEF, 0xBF, 0xBD]
      else if r < 0x10000 then [0xE0 + r div 4096, 0x80 + r div 64 mod 64, 0x80 + r mod 64]
      else [0xF0 + r div 262144, 0x80 + r div 4096 mod 64, 0x80 + r div 64 mod 64, 0x80 + r mod 64])"

definition cont :: "nat \<Rightarrow> bool" where
  "cont b = (0x80 \<le> b \<and> b \<le> 0xBF)"

text \<open>\<open>utf8.DecodeRune\<close>: the rune at the front of a nonempty string and its width; an invalid
  sequence is \<open>RuneError\<close> of width 1.\<close>

fun dec_rune :: "nat list \<Rightarrow> nat \<times> nat" where
  "dec_rune [] = (0xFFFD, 0)"
| "dec_rune (b # bs) =
     (if b < 0x80 then (b, 1)
      else if 0xC2 \<le> b \<and> b \<le> 0xDF then
        (case bs of c # _ \<Rightarrow> if cont c then ((b - 0xC0) * 64 + (c - 0x80), 2) else (0xFFFD, 1) | _ \<Rightarrow> (0xFFFD, 1))
      else if 0xE0 \<le> b \<and> b \<le> 0xEF then
        (case bs of c # e # _ \<Rightarrow>
            if (if b = 0xE0 then 0xA0 else 0x80) \<le> c \<and> c \<le> (if b = 0xED then 0x9F else 0xBF) \<and> cont e
            then ((b - 0xE0) * 4096 + (c - 0x80) * 64 + (e - 0x80), 3) else (0xFFFD, 1)
          | _ \<Rightarrow> (0xFFFD, 1))
      else if 0xF0 \<le> b \<and> b \<le> 0xF4 then
        (case bs of c # e # f # _ \<Rightarrow>
            if (if b = 0xF0 then 0x90 else 0x80) \<le> c \<and> c \<le> (if b = 0xF4 then 0x8F else 0xBF) \<and> cont e \<and> cont f
            then ((b - 0xF0) * 262144 + (c - 0x80) * 4096 + (e - 0x80) * 64 + (f - 0x80), 4) else (0xFFFD, 1)
          | _ \<Rightarrow> (0xFFFD, 1))
      else (0xFFFD, 1))"

lemma dec_rune_width: "bs \<noteq> [] \<Longrightarrow> 0 < snd (dec_rune bs)"
  by (cases bs) (auto split: list.splits)

function dec_runes :: "nat list \<Rightarrow> nat list" where
  "dec_runes bs = (if bs = [] then [] else fst (dec_rune bs) # dec_runes (drop (snd (dec_rune bs)) bs))"
  by auto
termination
  by (relation "measure length") (auto simp del: dec_rune.simps intro!: diff_less dec_rune_width)

declare dec_runes.simps [simp del]

text \<open>The conversions \<open>[]rune(s)\<close> and \<open>string(rs)\<close>.\<close>

definition runes :: "string \<Rightarrow> nat list" where
  "runes s = dec_runes (map of_char s)"

definition string_of_runes :: "nat list \<Rightarrow> string" where
  "string_of_runes rs = map char_of (concat (map enc_rune rs))"

section \<open>The filter\<close>

definition next_rune :: "nat \<Rightarrow> nat" where
  "next_rune r = (if r = 0xD7FF then 0xE000 else r + 1)"

text \<open>\<open>PrefixUpperBound\<close>: the loop runs from the last rune down; \<open>rs\<close> is the prefix reversed, so
  the runes not yet visited are its tail.\<close>

fun upper_loop :: "nat list \<Rightarrow> nat list option" where
  "upper_loop [] = None"
| "upper_loop (r # rs) = (if r = MaxRune then upper_loop rs else Some (rev rs @ [next_rune r]))"

definition PrefixUpperBound :: "string \<Rightarrow> string option" where
  "PrefixUpperBound prefix = map_option string_of_runes (upper_loop (rev (runes prefix)))"

definition substr_runes :: "string \<Rightarrow> nat \<Rightarrow> string" where
  "substr_runes s n = string_of_runes (take n (runes s))"

definition caseSensitivePrefix :: "string \<Rightarrow> string \<Rightarrow> bool" where
  "caseSensitivePrefix prefix key =
     (if prefix = '''' then True
      else case PrefixUpperBound prefix of
          Some upper \<Rightarrow> prefix \<le> key \<and> key < upper
        | None \<Rightarrow> prefix \<le> key \<and> substr_runes key (length (runes prefix)) = prefix)"

definition HasPrefix :: "string \<Rightarrow> string \<Rightarrow> bool" where
  "HasPrefix s p = (take (length p) s = p)"

text \<open>Text the database accepts: the UTF-8 encoding of Unicode scalar values.\<close>

definition utf8_text :: "string \<Rightarrow> bool" where
  "utf8_text s = (list_all valid_rune (runes s) \<and> string_of_runes (runes s) = s)"

section \<open>Encoding and decoding\<close>

lemma enc_rune_nonempty [simp]: "enc_rune r \<noteq> []"
  by (simp add: enc_rune_def)

lemma enc_rune_bytes: "valid_rune r \<Longrightarrow> b \<in> set (enc_rune r) \<Longrightarrow> b < 256"
  by (auto simp: enc_rune_def valid_rune_def MaxRune_def split: if_splits)

lemma split64: "(r div 64) * 64 + r mod 64 = (r::nat)"
  by simp

lemma mod64_le [simp]: "(x::nat) mod 64 \<le> 63"
  using mod_less_divisor [of 64 x] by linarith

lemma split4096: "(r div 4096) * 4096 + (r div 64 mod 64) * 64 + r mod 64 = (r::nat)"
proof -
  have "r div 4096 = r div 64 div 64" by (simp add: div_mult2_eq [symmetric])
  then show ?thesis using split64 [of r] split64 [of "r div 64"] by linarith
qed

lemma split262144:
  "(r div 262144) * 262144 + (r div 4096 mod 64) * 4096 + (r div 64 mod 64) * 64 + r mod 64 = (r::nat)"
proof -
  have "r div 262144 = r div 4096 div 64" by (simp add: div_mult2_eq [symmetric])
  then show ?thesis using split4096 [of r] split64 [of "r div 4096"] by linarith
qed

lemma dec_enc_rune:
  assumes "valid_rune r"
  shows "dec_rune (enc_rune r @ xs) = (r, length (enc_rune r))"
proof -
  consider "r < 0x80" | "0x80 \<le> r" "r < 0x800" | "0x800 \<le> r" "r < 0x10000" | "0x10000 \<le> r" by linarith
  then show ?thesis
  proof cases
    case 1 then show ?thesis by (simp add: enc_rune_def)
  next
    case 2
    then have "2 \<le> r div 64" "r div 64 \<le> 31" by auto
    then show ?thesis using 2 by (simp add: enc_rune_def cont_def split64)
  next
    case 3
    then have "r div 4096 \<le> 15" by auto
    moreover have "r div 4096 = 0 \<Longrightarrow> 32 \<le> r div 64 mod 64" using 3 split4096 [of r] mod_less_divisor [of 64 r] by linarith
    moreover have "r div 4096 = 13 \<Longrightarrow> r div 64 mod 64 \<le> 31"
      using 3 assms split4096 [of r] mod_less_divisor [of 64 r] mod_less_divisor [of 64 "r div 64"] unfolding valid_rune_def by linarith
    ultimately show ?thesis using 3 assms split4096 [of r] by (auto simp: enc_rune_def cont_def)
  next
    case 4
    then have "r div 262144 \<le> 4" using assms by (auto simp: valid_rune_def MaxRune_def)
    moreover have "r div 262144 = 0 \<Longrightarrow> 16 \<le> r div 4096 mod 64"
      using 4 split262144 [of r] mod_less_divisor [of 64 r] mod_less_divisor [of 64 "r div 64"] by linarith
    moreover have "r div 262144 = 4 \<Longrightarrow> r div 4096 mod 64 \<le> 15"
      using assms split262144 [of r] unfolding valid_rune_def MaxRune_def by linarith
    ultimately show ?thesis using 4 assms split262144 [of r] by (auto simp: enc_rune_def cont_def)
  qed
qed

lemma dec_runes_enc: "list_all valid_rune rs \<Longrightarrow> dec_runes (concat (map enc_rune rs)) = rs"
proof (induction rs)
  case (Cons r rs)
  then show ?case by (subst dec_runes.simps) (simp add: dec_enc_rune)
qed (simp add: dec_runes.simps)

lemma of_char_char_of_bytes: "\<forall>b \<in> set bs. b < 256 \<Longrightarrow> map of_char (map char_of bs :: string) = (bs :: nat list)"
  by (induction bs) (auto simp: of_char_of)

lemma enc_bytes: "list_all valid_rune rs \<Longrightarrow> \<forall>b \<in> set (concat (map enc_rune rs)). b < 256"
  by (induction rs) (auto dest: enc_rune_bytes)

lemma runes_string: "list_all valid_rune rs \<Longrightarrow> runes (string_of_runes rs) = rs"
  by (simp add: runes_def string_of_runes_def of_char_char_of_bytes enc_bytes dec_runes_enc del: map_map)

section \<open>Order\<close>

lemma append_less [simp]: "(xs @ ys < xs @ zs) = (ys < (zs :: 'a::linorder list))"
  by (induction xs) auto

lemma Nil_less [simp]: "([] < xs) = (xs \<noteq> ([] :: 'a::linorder list))"
  by (cases xs) auto

lemma div_less_cases: "(r::nat) < s \<Longrightarrow> r div 64 < s div 64 \<or> (r div 64 = s div 64 \<and> r mod 64 < s mod 64)"
  using split64 [of r] split64 [of s] div_le_mono [of r s 64] by (metis linorder_neqE_nat nat_add_left_cancel_less less_imp_le_nat not_le)

lemma div4096_less_cases:
  assumes "(r::nat) < s"
  shows "r div 4096 < s div 4096 \<or> (r div 4096 = s div 4096 \<and>
    (r div 64 mod 64 < s div 64 mod 64 \<or> (r div 64 mod 64 = s div 64 mod 64 \<and> r mod 64 < s mod 64)))"
proof -
  have e: "x div 4096 = x div 64 div 64" for x :: nat by (simp add: div_mult2_eq [symmetric])
  from div_less_cases [OF assms] show ?thesis
    using div_less_cases [of "r div 64" "s div 64"] unfolding e by auto
qed

lemma div262144_less_cases:
  assumes "(r::nat) < s"
  shows "r div 262144 < s div 262144 \<or> (r div 262144 = s div 262144 \<and>
    (r div 4096 mod 64 < s div 4096 mod 64 \<or> (r div 4096 mod 64 = s div 4096 mod 64 \<and>
      (r div 64 mod 64 < s div 64 mod 64 \<or> (r div 64 mod 64 = s div 64 mod 64 \<and> r mod 64 < s mod 64)))))"
proof -
  have e: "x div 262144 = x div 4096 div 64" for x :: nat by (simp add: div_mult2_eq [symmetric])
  from div4096_less_cases [OF assms] show ?thesis
    using div_less_cases [of "r div 4096" "s div 4096"] unfolding e by auto
qed

lemma enc_rune_less:
  assumes "valid_rune r" "valid_rune s" "r < s"
  shows "enc_rune r @ xs < enc_rune s @ ys"
proof -
  consider "s < 0x80" | "r < 0x80" "0x80 \<le> s" | "0x80 \<le> r" "s < 0x800" | "0x80 \<le> r" "r < 0x800" "0x800 \<le> s"
    | "0x800 \<le> r" "s < 0x10000" | "0x800 \<le> r" "r < 0x10000" "0x10000 \<le> s" | "0x10000 \<le> r" using assms(3) by linarith
  then show ?thesis
  proof cases
    case 3 with assms(3) div_less_cases [OF assms(3)] show ?thesis by (auto simp: enc_rune_def)
  next
    case 4
    then have "r div 64 \<le> 31" by auto
    with 4 assms show ?thesis by (auto simp: enc_rune_def)
  next
    case 5 with assms div4096_less_cases [OF assms(3)] show ?thesis by (auto simp: enc_rune_def)
  next
    case 6
    then have "r div 4096 \<le> 15" by auto
    with 6 assms show ?thesis by (auto simp: enc_rune_def)
  next
    case 7 with assms div262144_less_cases [OF assms(3)] show ?thesis by (auto simp: enc_rune_def)
  qed (use assms in \<open>auto simp: enc_rune_def\<close>)
qed

lemma enc_less_iff:
  "list_all valid_rune ps \<Longrightarrow> list_all valid_rune ks \<Longrightarrow>
     (concat (map enc_rune ps) < concat (map enc_rune ks)) = (ps < ks)"
proof (induction ps arbitrary: ks)
  case Nil
  show ?case by (cases ks) auto
next
  case (Cons p ps)
  show ?case
  proof (cases ks)
    case (Cons k ks')
    with Cons.prems Cons.IH [of ks'] show ?thesis
      using enc_rune_less [of p k "concat (map enc_rune ps)" "concat (map enc_rune ks')"]
        enc_rune_less [of k p "concat (map enc_rune ks')" "concat (map enc_rune ps)"]
      by (cases p k rule: linorder_cases) (auto dest: order.strict_trans2 less_imp_not_less)
  qed simp
qed

lemma char_of_less: "b < 256 \<Longrightarrow> c < 256 \<Longrightarrow> (char_of b < (char_of c :: char)) = (b < (c::nat))"
  by (simp add: less_char_def of_char_of)

lemma char_of_eq: "b < 256 \<Longrightarrow> c < 256 \<Longrightarrow> (char_of b = (char_of c :: char)) = (b = (c::nat))"
  by (metis mod_less of_char_of)

lemma bytes_less_iff:
  "\<forall>b \<in> set bs. b < 256 \<Longrightarrow> \<forall>c \<in> set cs. c < 256 \<Longrightarrow>
     (map char_of bs < (map char_of cs :: string)) = (bs < (cs :: nat list))"
proof (induction bs arbitrary: cs)
  case Nil then show ?case by (cases cs) auto
next
  case (Cons b bs) then show ?case by (cases cs) (auto simp: char_of_less char_of_eq)
qed

lemma string_of_runes_less:
  "list_all valid_rune ps \<Longrightarrow> list_all valid_rune ks \<Longrightarrow> (string_of_runes ps < string_of_runes ks) = (ps < ks)"
  by (simp add: string_of_runes_def bytes_less_iff enc_bytes enc_less_iff)

lemma string_of_runes_le:
  "list_all valid_rune ps \<Longrightarrow> list_all valid_rune ks \<Longrightarrow> (string_of_runes ps \<le> string_of_runes ks) = (ps \<le> ks)"
  by (metis linorder_not_less string_of_runes_less)

section \<open>The range is the prefix\<close>

lemma HasPrefix_iff: "HasPrefix s p = (\<exists>t. s = p @ t)"
  unfolding HasPrefix_def by (metis append_eq_conv_conj append_take_drop_id)

lemma enc_prefix_runes:
  "list_all valid_rune ps \<Longrightarrow> list_all valid_rune ks \<Longrightarrow> concat (map enc_rune ks) = concat (map enc_rune ps) @ t \<Longrightarrow>
     \<exists>zs. ks = ps @ zs"
proof (induction ps arbitrary: ks)
  case (Cons p ps)
  then obtain k ks' where ks: "ks = k # ks'" by (cases ks) auto
  with Cons.prems have e: "enc_rune k @ concat (map enc_rune ks') = enc_rune p @ concat (map enc_rune ps) @ t" by simp
  with Cons.prems ks have "k = p" using dec_enc_rune by (metis fst_conv list.pred_inject(2))
  with e Cons.IH [of ks'] Cons.prems ks show ?case by auto
qed simp

lemma string_of_runes_append [simp]: "string_of_runes (ps @ zs) = string_of_runes ps @ string_of_runes zs"
  by (simp add: string_of_runes_def)

lemma HasPrefix_runes:
  assumes "list_all valid_rune ps" "list_all valid_rune ks"
  shows "HasPrefix (string_of_runes ks) (string_of_runes ps) = (\<exists>zs. ks = ps @ zs)"
proof
  assume "HasPrefix (string_of_runes ks) (string_of_runes ps)"
  then obtain t where "string_of_runes ks = string_of_runes ps @ t" by (auto simp: HasPrefix_iff)
  then have "map of_char (string_of_runes ks) = map of_char (string_of_runes ps) @ (map of_char t :: nat list)"
    by (metis map_append)
  then show "\<exists>zs. ks = ps @ zs"
    using assms enc_prefix_runes by (simp add: string_of_runes_def of_char_char_of_bytes enc_bytes del: map_map)
qed (auto simp: HasPrefix_iff)

lemma next_rune_valid: "valid_rune r \<Longrightarrow> r \<noteq> MaxRune \<Longrightarrow> valid_rune (next_rune r)"
  by (auto simp: valid_rune_def next_rune_def MaxRune_def)

lemma next_rune_least: "valid_rune k \<Longrightarrow> (r \<le> k \<and> k < next_rune r) = (k = r)"
  by (auto simp: valid_rune_def next_rune_def split: if_splits)

lemma max_runes_le: "list_all valid_rune ks \<Longrightarrow> (replicate n MaxRune \<le> ks) = (\<exists>zs. ks = replicate n MaxRune @ zs)"
proof (induction n arbitrary: ks)
  case (Suc n)
  show ?case
  proof (cases ks)
    case (Cons k kt)
    with Suc.prems have "valid_rune k" "list_all valid_rune kt" by auto
    then have "k \<le> MaxRune" by (simp add: valid_rune_def)
    with Cons Suc.IH [OF \<open>list_all valid_rune kt\<close>] show ?thesis by auto
  qed simp
qed simp

lemma range_is_prefix:
  assumes "list_all valid_rune ks"
  shows "(qs @ r # replicate n MaxRune \<le> ks \<and> ks < qs @ [next_rune r])
     = (\<exists>zs. ks = (qs @ r # replicate n MaxRune) @ zs)"
  using assms
proof (induction qs arbitrary: ks)
  case Nil
  show ?case
  proof (cases ks)
    case (Cons k kt)
    with Nil have "valid_rune k" "list_all valid_rune kt" by auto
    then show ?thesis using Cons next_rune_least [of k r] max_runes_le [of kt n] by auto
  qed simp
next
  case (Cons q qs)
  show ?case
  proof (cases ks)
    case (Cons k kt)
    with Cons.IH [of kt] Cons.prems show ?thesis by (auto simp: less_le_not_le)
  qed simp
qed

lemma upper_loop_Some:
  "upper_loop (rev ps) = Some u \<Longrightarrow> \<exists>qs r n. ps = qs @ r # replicate n MaxRune \<and> r \<noteq> MaxRune \<and> u = qs @ [next_rune r]"
proof (induction ps rule: rev_induct)
  case (snoc p ps)
  show ?case
  proof (cases "p = MaxRune")
    case True
    with snoc obtain qs r n where "ps = qs @ r # replicate n MaxRune" "r \<noteq> MaxRune" "u = qs @ [next_rune r]" by auto
    with True have "ps @ [p] = qs @ r # replicate (Suc n) MaxRune" by (simp add: replicate_append_same)
    with \<open>r \<noteq> MaxRune\<close> \<open>u = _\<close> show ?thesis by blast
  next
    case False
    with snoc.prems show ?thesis by (intro exI [of _ ps] exI [of _ p] exI [of _ 0]) auto
  qed
qed simp

lemma prefix_filter_runes:
  assumes "list_all valid_rune ps" "list_all valid_rune ks" "ps \<noteq> []"
  shows "caseSensitivePrefix (string_of_runes ps) (string_of_runes ks) = (\<exists>zs. ks = ps @ zs)"
proof -
  have ne: "string_of_runes ps \<noteq> []" using assms(3) by (cases ps) (auto simp: string_of_runes_def)
  show ?thesis
  proof (cases "upper_loop (rev ps)")
    case None
    have "list_all valid_rune (take (length ps) ks)" using assms(2) by (metis append_take_drop_id list_all_append)
    then have "(string_of_runes (take (length ps) ks) = string_of_runes ps) = (take (length ps) ks = ps)"
      using assms(1) runes_string by metis
    moreover have "(take (length ps) ks = ps) = (\<exists>zs. ks = ps @ zs)"
      by (metis append_eq_conv_conj append_take_drop_id)
    moreover have "ks = ps @ zs \<Longrightarrow> ps \<le> ks" for zs by (metis append_Nil2 append_less Nil_less linorder_le_less_linear order.strict_iff_not)
    ultimately show ?thesis using None ne assms
      by (auto simp: caseSensitivePrefix_def PrefixUpperBound_def runes_string substr_runes_def string_of_runes_le)
  next
    case (Some u)
    from upper_loop_Some [OF this] obtain qs r n where
      ps: "ps = qs @ r # replicate n MaxRune" and r: "r \<noteq> MaxRune" and u: "u = qs @ [next_rune r]" by blast
    with assms(1) have "list_all valid_rune u" by (auto simp: next_rune_valid)
    then show ?thesis using Some ne assms range_is_prefix [OF assms(2), of qs r n] ps u
      by (simp add: caseSensitivePrefix_def PrefixUpperBound_def runes_string string_of_runes_le string_of_runes_less
          del: string_of_runes_append)
  qed
qed

lemma prefix_filter_text:
  assumes "utf8_text pfx" "utf8_text key"
  shows "caseSensitivePrefix pfx key = HasPrefix key pfx"
proof (cases "pfx = []")
  case False
  have v: "list_all valid_rune (runes pfx)" "list_all valid_rune (runes key)"
    and e: "string_of_runes (runes pfx) = pfx" "string_of_runes (runes key) = key" using assms by (auto simp: utf8_text_def)
  have "runes pfx \<noteq> []" using False e by (auto simp: string_of_runes_def)
  then show ?thesis using prefix_filter_runes [OF v] HasPrefix_runes [OF v] unfolding e by simp
qed (simp add: caseSensitivePrefix_def HasPrefix_def)

text \<open>C18: the range filter of a prefix listing selects exactly the keys that start with the
  prefix, for every prefix and key that is valid UTF-8 text: no key with the prefix is missed and no
  other key is listed, also where the prefix ends in the last rune before the surrogates or in the
  largest rune, for which the range has no upper bound.\<close>

theorem prefix_filter_exact:
  assumes "utf8_text pfx" "utf8_text key"
  shows "caseSensitivePrefix pfx key = HasPrefix key pfx"
  using assms by (rule prefix_filter_text)

definition last_bmp_key :: string where
  "last_bmp_key = [CHR ''a'', CHR 0xED, CHR 0x9F, CHR 0xBF]"

lemma last_bmp_runes:
  "runes last_bmp_key = [97, 0xD7FF]" "string_of_runes [97, 0xD7FF] = last_bmp_key"
  "runes (last_bmp_key @ ''z'') = [97, 0xD7FF, 122]" "string_of_runes [97, 0xD7FF, 122] = last_bmp_key @ ''z''"
  "string_of_runes [97, 0xE000] = [CHR ''a'', CHR 0xEE, CHR 0x80, CHR 0x80]"
  by (simp_all add: runes_def last_bmp_key_def dec_runes.simps cont_def
      string_of_runes_def enc_rune_def valid_rune_def MaxRune_def char_of_def bit_Suc_0_iff)

theorem prefix_filter_exact_witness:
  "utf8_text last_bmp_key \<and> utf8_text (last_bmp_key @ ''z'') \<and>
   PrefixUpperBound last_bmp_key = Some [CHR ''a'', CHR 0xEE, CHR 0x80, CHR 0x80] \<and>
   caseSensitivePrefix last_bmp_key (last_bmp_key @ ''z'') = HasPrefix (last_bmp_key @ ''z'') last_bmp_key"
proof -
  have u: "utf8_text last_bmp_key" "utf8_text (last_bmp_key @ ''z'')"
    by (simp_all add: utf8_text_def last_bmp_runes valid_rune_def MaxRune_def del: string_of_runes_append)
  moreover have "PrefixUpperBound last_bmp_key = Some [CHR ''a'', CHR 0xEE, CHR 0x80, CHR 0x80]"
    by (simp add: PrefixUpperBound_def last_bmp_runes MaxRune_def next_rune_def)
  ultimately show ?thesis using prefix_filter_exact [OF u] by blast
qed

end
