(* ===== verification/Object_Reads.thy ===== *)
theory Object_Reads
  imports Storage_Model Key_Prefix
begin

text \<open>
  The read side of \<open>object_repo.go\<close>: the projection every read of a version goes through
  (\<open>withObjectVersionStorageColumns\<close>), the derived pipeline state, the getters, the listings and
  the aggregates of \<open>object_aggregate_repo.go\<close>.

  A query is a function of the tables (suffix \<open>_rows\<close> where the method adds control flow around
  it). Keys compare by bytes, as the column's collation says; version ids are fixed-length ULIDs,
  on which the database's collation and the byte order agree. \<open>LIMIT\<close> and the tuple comparison
  of a cursor are written out.
\<close>

section \<open>Projection\<close>

definition readable_committed :: "StorageCopy \<Rightarrow> StorageDataSet \<Rightarrow> bool" where
  "readable_committed c s = (cpy_Status c = StorageCopyStatusCommitted \<and> cpy_ProviderID c \<noteq> '''' \<and>
     sds_DataSetID s \<noteq> None \<and> sds_DataSetID s \<noteq> Some '''' \<and>
     (sds_Status s = StorageDataSetStatusReady \<or> sds_Status s = StorageDataSetStatusDraining) \<and>
     cpy_PieceID c \<noteq> None \<and> cpy_PieceID c \<noteq> Some '''' \<and>
     cpy_RetrievalURL c \<noteq> None \<and> cpy_RetrievalURL c \<noteq> Some '''')"

definition copies_of :: "storage_db \<Rightarrow> int \<Rightarrow> StorageCopy list" where
  "copies_of d cid = filter (\<lambda>c. cpy_ContentID c = cid) (storage_copies d)"

definition copy_joins :: "storage_db \<Rightarrow> int \<Rightarrow> (StorageCopy \<times> StorageDataSet) list" where
  "copy_joins d cid = concat (map (\<lambda>c. map (Pair c)
     (filter (\<lambda>s. sds_ID s = cpy_StorageDataSetID c) (storage_data_sets d))) (copies_of d cid))"

definition usableCopyExists :: "storage_db \<Rightarrow> int option \<Rightarrow> bool" where
  "usableCopyExists d cid = (case cid of None \<Rightarrow> False
     | Some i \<Rightarrow> list_ex (\<lambda>(c, s). readable_committed c s) (copy_joins d i))"

definition distinctReadableSlotCount :: "storage_db \<Rightarrow> int \<Rightarrow> int" where
  "distinctReadableSlotCount d cid =
     int (card (set (map (\<lambda>(c, s). sds_CopyIndex s) (filter (\<lambda>(c, s). readable_committed c s) (copy_joins d cid)))))"

definition contentPipelineStateFromFacts :: "int \<Rightarrow> int option \<Rightarrow> bool \<Rightarrow> bool \<Rightarrow> bool \<Rightarrow> ObjectState" where
  "contentPipelineStateFromFacts readableSlots requested anyCopy everyCopyFailed committing =
     (if readableSlots \<ge> (case requested of None \<Rightarrow> 1 | Some n \<Rightarrow> n) then ObjectStateStored
      else if readableSlots \<ge> 1 then ObjectStateReplicating
      else if anyCopy \<and> everyCopyFailed then ObjectStateFailed
      else if committing then ObjectStateCommitting
      else if anyCopy then ObjectStateUploading
      else ObjectStateCached)"

definition find_content :: "storage_db \<Rightarrow> int \<Rightarrow> StorageContent option" where
  "find_content d i = find (\<lambda>c. cnt_ID c = i) (storage_contents d)"

definition contentPipelineState :: "storage_db \<Rightarrow> StorageContent option \<Rightarrow> ObjectState" where
  "contentPipelineState d content = (case content of
       None \<Rightarrow> contentPipelineStateFromFacts 0 None False True False
     | Some c \<Rightarrow> contentPipelineStateFromFacts (distinctReadableSlotCount d (cnt_ID c)) (Some (cnt_RequestedCopies c))
         (copies_of d (cnt_ID c) \<noteq> [])
         (list_all (\<lambda>y. cpy_Status y = StorageCopyStatusFailed) (copies_of d (cnt_ID c)))
         (list_ex (\<lambda>y. cpy_Status y = StorageCopyStatusPieceReady \<or> cpy_Status y = StorageCopyStatusCommitting)
           (copies_of d (cnt_ID c))))"

definition objectVersionState :: "storage_db \<Rightarrow> int option \<Rightarrow> ObjectState" where
  "objectVersionState d cid = (case cid of None \<Rightarrow> ObjectStateCached
     | Some i \<Rightarrow> contentPipelineState d (find_content d i))"

definition find_object :: "storage_db \<Rightarrow> int \<Rightarrow> Object option" where
  "find_object d i = find (\<lambda>o'. obj_ID o' = i) (objects d)"

text \<open>\<open>withObjectVersionStorageColumns\<close>: the inner join drops a version without its object.\<close>

definition project :: "storage_db \<Rightarrow> ObjectVersion \<Rightarrow> VersionView option" where
  "project d v = map_option (\<lambda>ob.
     let content = Option.bind (ver_ContentID v) (find_content d);
         entry = Option.bind (ver_ContentID v) (\<lambda>i. find (\<lambda>c. oc_ContentID c = i) (object_cache d)) in
     ObjectVersion.extend v (VersionView.fields
       (obj_CurrentVersionID ob = Some (ver_VersionID v))
       (case content of None \<Rightarrow> '''' | Some c \<Rightarrow> cnt_Checksum c)
       (Option.bind content cnt_PieceCID)
       (case entry of None \<Rightarrow> False | Some e \<Rightarrow> oc_InCache e)
       (Option.bind entry oc_CacheAccessedAt)
       (usableCopyExists d (ver_ContentID v))
       (objectVersionState d (ver_ContentID v))))
     (find_object d (ver_ObjectID v))"

definition views :: "storage_db \<Rightarrow> VersionView list" where
  "views d = List.map_filter (project d) (object_versions d)"

definition newest_first :: "('a ObjectVersion_scheme) list \<Rightarrow> ('a ObjectVersion_scheme) list" where
  "newest_first vs = rev (sort_key (\<lambda>v. (ver_CreatedAt v, ver_VersionID v)) vs)"

definition limit :: "int \<Rightarrow> 'a list \<Rightarrow> 'a list" where
  "limit n xs = (if n > 0 then take (nat n) xs else xs)"

section \<open>Getters\<close>

definition GetObjectByID :: "int \<Rightarrow> Object option SDB" where
  "GetObjectByID i = sread (\<lambda>d. find_object d i)"

definition object_at :: "storage_db \<Rightarrow> int \<Rightarrow> string \<Rightarrow> Object option" where
  "object_at d b k = find (\<lambda>o'. obj_BucketID o' = b \<and> obj_Key o' = k) (objects d)"

definition GetObjectByBucketAndKey :: "int \<Rightarrow> string \<Rightarrow> Object option SDB" where
  "GetObjectByBucketAndKey b k = sread (\<lambda>d. object_at d b k)"

definition current_of_object :: "storage_db \<Rightarrow> int \<Rightarrow> VersionView option" where
  "current_of_object d i = find (\<lambda>v. ver_ObjectID v = i \<and> ver_IsCurrent v) (views d)"

definition GetCurrentVersionByObjectID :: "int \<Rightarrow> VersionView option SDB" where
  "GetCurrentVersionByObjectID i = sread (\<lambda>d. current_of_object d i)"

definition current_at :: "storage_db \<Rightarrow> int \<Rightarrow> string \<Rightarrow> VersionView option" where
  "current_at d b k = find (\<lambda>v. ver_BucketID v = b \<and> ver_Key v = k \<and> ver_IsCurrent v) (views d)"

definition GetCurrentVersionByBucketAndKey :: "int \<Rightarrow> string \<Rightarrow> VersionView option SDB" where
  "GetCurrentVersionByBucketAndKey b k = sread (\<lambda>d. current_at d b k)"

definition GetVersionByID :: "string \<Rightarrow> VersionView option SDB" where
  "GetVersionByID i = sread (\<lambda>d. find (\<lambda>v. ver_VersionID v = i) (views d))"

definition version_at :: "storage_db \<Rightarrow> int \<Rightarrow> string \<Rightarrow> string \<Rightarrow> VersionView option" where
  "version_at d b k i = find (\<lambda>v. ver_BucketID v = b \<and> ver_Key v = k \<and> ver_VersionID v = i) (views d)"

definition GetVersionByBucketKeyAndID :: "int \<Rightarrow> string \<Rightarrow> string \<Rightarrow> VersionView option SDB" where
  "GetVersionByBucketKeyAndID b k i = sread (\<lambda>d. version_at d b k i)"

section \<open>Listings\<close>

definition listCurrentVersionsByBucket :: "int \<Rightarrow> string \<Rightarrow> string \<Rightarrow> bool \<Rightarrow> int \<Rightarrow> VersionView list SDB" where
  "listCurrentVersionsByBucket b prefix keyBoundary includeBoundary maxKeys = sread (\<lambda>d.
     limit maxKeys (sort_key ver_Key (filter (\<lambda>v. ver_BucketID v = b \<and> ver_IsCurrent v \<and> \<not> ver_IsDeleteMarker v \<and>
       caseSensitivePrefix prefix (ver_Key v) \<and>
       (keyBoundary = '''' \<or> (if includeBoundary then keyBoundary \<le> ver_Key v else keyBoundary < ver_Key v))) (views d))))"

definition ListCurrentVersionsByBucket :: "int \<Rightarrow> string \<Rightarrow> string \<Rightarrow> int \<Rightarrow> VersionView list SDB" where
  "ListCurrentVersionsByBucket b prefix afterKey maxKeys = listCurrentVersionsByBucket b prefix afterKey False maxKeys"

definition ListCurrentVersionsByBucketAtOrAfter :: "int \<Rightarrow> string \<Rightarrow> string \<Rightarrow> int \<Rightarrow> VersionView list SDB" where
  "ListCurrentVersionsByBucketAtOrAfter b prefix fromKey maxKeys = listCurrentVersionsByBucket b prefix fromKey True maxKeys"

definition version_order :: "('a ObjectVersion_scheme) list \<Rightarrow> ('a ObjectVersion_scheme) list" where
  "version_order vs = sort_key ver_Key (newest_first vs)"

definition before_marker :: "('a ObjectVersion_scheme) \<Rightarrow> ('b ObjectVersion_scheme) \<Rightarrow> bool" where
  "before_marker v m = ((ver_CreatedAt v, ver_VersionID v) < (ver_CreatedAt m, ver_VersionID m))"

definition listVersionsByBucket :: "int \<Rightarrow> string \<Rightarrow> string \<Rightarrow> string \<Rightarrow> int \<Rightarrow> bool \<Rightarrow> VersionView list SDB" where
  "listVersionsByBucket b prefix keyMarker versionIDMarker maxKeys inclusive =
     (let base = (\<lambda>d. filter (\<lambda>v. ver_BucketID v = b \<and> caseSensitivePrefix prefix (ver_Key v)) (views d)) in
      if keyMarker = '''' then sread (\<lambda>d. limit maxKeys (version_order (base d)))
      else if versionIDMarker = '''' then
        sread (\<lambda>d. limit maxKeys (version_order (filter
          (\<lambda>v. if inclusive then keyMarker \<le> ver_Key v else keyMarker < ver_Key v) (base d))))
      else bindM (GetVersionByBucketKeyAndID b keyMarker versionIDMarker) (\<lambda>marker. case marker of
          None \<Rightarrow> sread (\<lambda>d. limit maxKeys (version_order (filter (\<lambda>v. keyMarker < ver_Key v) (base d))))
        | Some m \<Rightarrow> sread (\<lambda>d.
            let sameKey = limit maxKeys (version_order (filter (\<lambda>v. ver_Key v = keyMarker \<and> before_marker v m) (base d)));
                laterKeys = limit maxKeys (version_order (filter (\<lambda>v. keyMarker < ver_Key v) (base d)))
            in limit maxKeys (version_order (sameKey @ laterKeys)))))"

definition ListVersionsByBucket :: "int \<Rightarrow> string \<Rightarrow> string \<Rightarrow> string \<Rightarrow> int \<Rightarrow> VersionView list SDB" where
  "ListVersionsByBucket b prefix keyMarker versionIDMarker maxKeys =
     listVersionsByBucket b prefix keyMarker versionIDMarker maxKeys False"

definition ListVersionsByBucketAtOrAfter :: "int \<Rightarrow> string \<Rightarrow> string \<Rightarrow> int \<Rightarrow> VersionView list SDB" where
  "ListVersionsByBucketAtOrAfter b prefix fromKey maxKeys = listVersionsByBucket b prefix fromKey '''' maxKeys True"

definition ListVersionsByKey :: "int \<Rightarrow> string \<Rightarrow> string \<Rightarrow> int \<Rightarrow> VersionView list SDB" where
  "ListVersionsByKey b k afterVersionID maxKeys =
     (let base = (\<lambda>d. filter (\<lambda>v. ver_BucketID v = b \<and> ver_Key v = k) (views d)) in
      if afterVersionID = '''' then sread (\<lambda>d. limit maxKeys (newest_first (base d)))
      else bindM (GetVersionByBucketKeyAndID b k afterVersionID) (\<lambda>marker. case marker of
          None \<Rightarrow> sread (\<lambda>d. limit maxKeys (newest_first (base d)))
        | Some m \<Rightarrow> sread (\<lambda>d. limit maxKeys (newest_first (filter (\<lambda>v. before_marker v m) (base d))))))"

definition latest_data_version :: "storage_db \<Rightarrow> int \<Rightarrow> VersionView option" where
  "latest_data_version d i = find (\<lambda>v. ver_ObjectID v = i \<and> \<not> ver_IsDeleteMarker v \<and>
     \<not> list_ex (\<lambda>n. ver_ObjectID n = ver_ObjectID v \<and> \<not> ver_IsDeleteMarker n \<and>
         (ver_CreatedAt v < ver_CreatedAt n \<or> (ver_CreatedAt n = ver_CreatedAt v \<and> ver_VersionID v < ver_VersionID n)))
       (object_versions d)) (views d)"

definition selectLatestDataVersionsByObjectIDs :: "int list \<Rightarrow> (int \<rightharpoonup> VersionView) SDB" where
  "selectLatestDataVersionsByObjectIDs ids =
     (if ids = [] then ret Map.empty
      else sread (\<lambda>d i. if i \<in> set ids then latest_data_version d i else None))"

record RecoverableDeleteMarker =
  rdm_Marker :: VersionView
  rdm_RestoreVersion :: VersionView

definition ListRecoverableDeleteMarkers :: "int \<Rightarrow> string \<Rightarrow> string \<Rightarrow> int \<Rightarrow> RecoverableDeleteMarker list SDB" where
  "ListRecoverableDeleteMarkers b prefix afterKey maxKeys =
     bindM (sread (\<lambda>d. limit maxKeys (sort_key ver_Key (filter (\<lambda>v. ver_BucketID v = b \<and> ver_IsCurrent v \<and> ver_IsDeleteMarker v \<and>
         list_ex (\<lambda>n. ver_ObjectID n = ver_ObjectID v \<and> \<not> ver_IsDeleteMarker n) (object_versions d) \<and>
         caseSensitivePrefix prefix (ver_Key v) \<and> (afterKey = '''' \<or> afterKey < ver_Key v)) (views d)))))
       (\<lambda>markers. bindM (selectLatestDataVersionsByObjectIDs (map ver_ObjectID markers))
         (\<lambda>restoreVersions. ret (List.map_filter (\<lambda>m. map_option
            (\<lambda>v. \<lparr>rdm_Marker = m, rdm_RestoreVersion = v\<rparr>) (restoreVersions (ver_ObjectID m))) markers)))"

section \<open>Aggregates\<close>

definition current_data_versions :: "storage_db \<Rightarrow> ObjectVersion list" where
  "current_data_versions d = filter (\<lambda>v. \<not> ver_IsDeleteMarker v \<and>
     list_ex (\<lambda>o'. obj_ID o' = ver_ObjectID v \<and> obj_CurrentVersionID o' = Some (ver_VersionID v)) (objects d)) (object_versions d)"

record BucketObjectStats =
  stats_Count :: int
  stats_TotalSize :: int

definition stats_of :: "ObjectVersion list \<Rightarrow> BucketObjectStats" where
  "stats_of vs = \<lparr>stats_Count = int (length vs), stats_TotalSize = sum_list (map ver_Size vs)\<rparr>"

definition CountByBucket :: "int \<Rightarrow> int SDB" where
  "CountByBucket b = sread (\<lambda>d. int (length (filter (\<lambda>v. ver_BucketID v = b) (current_data_versions d))))"

definition TotalSizeByBucket :: "int \<Rightarrow> int SDB" where
  "TotalSizeByBucket b = sread (\<lambda>d. sum_list (map ver_Size (filter (\<lambda>v. ver_BucketID v = b) (current_data_versions d))))"

definition BucketStats :: "int \<Rightarrow> BucketObjectStats SDB" where
  "BucketStats b = sread (\<lambda>d. stats_of (filter (\<lambda>v. ver_BucketID v = b) (current_data_versions d)))"

definition AggregateByBucket :: "(int \<rightharpoonup> BucketObjectStats) SDB" where
  "AggregateByBucket = sread (\<lambda>d b. let vs = filter (\<lambda>v. ver_BucketID v = b) (current_data_versions d) in
     if vs = [] then None else Some (stats_of vs))"

text \<open>\<open>aggregateCurrentObjects\<close> walks the objects' pointers, derives one state per content from
  facts counted over the copies joined with their data sets, and groups by that state.\<close>

record objectAggregateRow =
  agg_Count :: int
  agg_TotalSize :: int
  agg_NeedsAttention :: int
  agg_Unavailable :: int

record content_fact =
  fact_State :: ObjectState
  fact_InCache :: bool
  fact_ReadableSlots :: int

definition agg_current_versions :: "storage_db \<Rightarrow> ObjectVersion list" where
  "agg_current_versions d = concat (map (\<lambda>o'. filter (\<lambda>v. obj_CurrentVersionID o' = Some (ver_VersionID v) \<and> \<not> ver_IsDeleteMarker v)
     (object_versions d)) (objects d))"

definition content_facts :: "storage_db \<Rightarrow> StorageContent \<Rightarrow> content_fact" where
  "content_facts d c = (let joined = copy_joins d (cnt_ID c);
       readable = int (card (set (map (\<lambda>(y, s). sds_CopyIndex s) (filter (\<lambda>(y, s). readable_committed y s) joined)))) in
     \<lparr>fact_State = contentPipelineStateFromFacts readable (Some (cnt_RequestedCopies c))
        (length joined > 0) (length (filter (\<lambda>(y, s). cpy_Status y \<noteq> StorageCopyStatusFailed) joined) = 0)
        (list_ex (\<lambda>(y, s). cpy_Status y = StorageCopyStatusPieceReady \<or> cpy_Status y = StorageCopyStatusCommitting) joined),
      fact_InCache = (case find (\<lambda>e. oc_ContentID e = cnt_ID c) (object_cache d) of None \<Rightarrow> False | Some e \<Rightarrow> oc_InCache e),
      fact_ReadableSlots = readable\<rparr>)"

definition agg_joined :: "storage_db \<Rightarrow> (ObjectVersion \<times> content_fact) list" where
  "agg_joined d = List.map_filter (\<lambda>v. map_option (\<lambda>c. (v, content_facts d c)) (Option.bind (ver_ContentID v) (find_content d)))
     (agg_current_versions d)"

definition aggregateCurrentObjects :: "bool \<Rightarrow> (ObjectState \<rightharpoonup> objectAggregateRow) SDB" where
  "aggregateCurrentObjects sizes = sread (\<lambda>d s. let g = filter (\<lambda>(v, f). fact_State f = s) (agg_joined d) in
     if g = [] then None else Some \<lparr>agg_Count = int (length g),
       agg_TotalSize = (if sizes then sum_list (map (\<lambda>(v, f). ver_Size v) g) else 0),
       agg_NeedsAttention = int (length (filter (\<lambda>(v, f). fact_State f = ObjectStateFailed) g)),
       agg_Unavailable = int (length (filter (\<lambda>(v, f). \<not> fact_InCache f \<and> fact_ReadableSlots f = 0) g))\<rparr>)"

definition CountByState :: "(ObjectState \<rightharpoonup> int) SDB" where
  "CountByState = bindM (aggregateCurrentObjects False) (\<lambda>rows. ret (\<lambda>s. map_option agg_Count (rows s)))"

end
