(* ===== verification/Object_Repo.thy ===== *)
theory Object_Repo
  imports Object_Reads
begin

text \<open>
  The write side of \<open>object_repo.go\<close>, with \<open>storage_content_reference.go\<close>, \<open>object_condition.go\<close> and
  the part of \<open>storage_commit_repo.go\<close> a permanent delete calls: creating versions and delete
  markers, restoring, permanent deletion with the reservation of storage cleanup, and the cache
  index.

  \<open>intx\<close> says whether the repository's handle is already a transaction; otherwise an operation
  runs in one of its own (\<open>obj_tx\<close>), and the create operations restart it up to nineteen times
  when the object's row was inserted concurrently. That error is raised before the version
  passed in is changed, so every attempt starts from the same value. A condition is a pure
  function of the version it guards, and a nil condition is \<open>None\<close>. Row locks have no effect of
  their own; \<open>locked\<close> lists the tasks other transactions hold, which \<open>SKIP LOCKED\<close> passes over.
  The Go map a deletion iterates over is taken in order of first insertion.
\<close>

section \<open>Transactions\<close>

definition obj_tx :: "bool \<Rightarrow> 'a SDB \<Rightarrow> 'a SDB" where
  "obj_tx intx m = (if intx then m else transact m)"

definition shouldRetryObjectWrite :: "error \<Rightarrow> bool \<Rightarrow> bool" where
  "shouldRetryObjectWrite e canRestartTx = (canRestartTx \<and> errors_is e ErrConcurrentObjectCreate)"

fun object_write_loop :: "nat \<Rightarrow> bool \<Rightarrow> 'a SDB \<Rightarrow> 'a SDB" where
  "object_write_loop n intx m =
     catchM (obj_tx intx m) (\<lambda>e.
       if \<not> shouldRetryObjectWrite e (\<not> intx) then fail e
       else (case n of 0 \<Rightarrow> fail e
         | Suc k \<Rightarrow> bindM ctx_done (\<lambda>d. if d then fail ErrContext else object_write_loop k intx m)))"

declare object_write_loop.simps [simp del]

definition isUniqueViolation :: "error \<Rightarrow> bool" where
  "isUniqueViolation e = (as_PgError e = Some UniqueViolation)"

definition ErrNoRows :: error where
  "ErrNoRows = ErrText ''sql: no rows in result set''"

section \<open>Conditions\<close>

type_synonym ObjectCondition = "VersionView option \<Rightarrow> error option"

fun checkObjectConditions :: "VersionView option \<Rightarrow> ObjectCondition option list \<Rightarrow> 'd \<Rightarrow> (error + unit) \<times> 'd" where
  "checkObjectConditions v [] w = (Inr (), w)"
| "checkObjectConditions v (None # cs) w = checkObjectConditions v cs w"
| "checkObjectConditions v (Some c # cs) w = (case c v of Some e \<Rightarrow> (Inl e, w) | None \<Rightarrow> checkObjectConditions v cs w)"

definition checkCurrentObjectConditions :: "int \<Rightarrow> string \<Rightarrow> ObjectCondition option list \<Rightarrow> unit SDB" where
  "checkCurrentObjectConditions b k conditions =
     (if \<not> list_ex (\<lambda>c. c \<noteq> None) conditions then ret ()
      else bindM (GetCurrentVersionByBucketAndKey b k) (\<lambda>v. checkObjectConditions v conditions))"

section \<open>References to content\<close>

definition StorageCopiesMin :: int where
  "StorageCopiesMin = 1"

definition StorageCopiesMax :: int where
  "StorageCopiesMax = 8"

definition ClampStorageCopies :: "int \<Rightarrow> int" where
  "ClampStorageCopies n = (if n < StorageCopiesMin then StorageCopiesMin
     else if n > StorageCopiesMax then StorageCopiesMax else n)"

definition lockStorageContentsByID :: "int list \<Rightarrow> StorageContent list SDB" where
  "lockStorageContentsByID contentIDs =
     (let ids = filter (\<lambda>i. \<not> i \<le> 0) (remdups (sort contentIDs)) in
      if ids = [] then ret []
      else bindM (sread (\<lambda>d. sort_key cnt_ID (filter (\<lambda>c. cnt_ID c \<in> set ids) (storage_contents d))))
        (\<lambda>rows. if list_all (\<lambda>i. i \<in> set (map cnt_ID rows)) ids then ret rows else fail ErrNotFound))"

definition bucketCopyPolicyForReference :: "int \<Rightarrow> int SDB" where
  "bucketCopyPolicyForReference b =
     bindM (sread (\<lambda>d. find (\<lambda>r. bkt_ID r = b) (buckets d)))
       (\<lambda>r. case r of None \<Rightarrow> fail ErrNotFound | Some r \<Rightarrow> ret (bkt_DefaultCopies r))"

definition update_contents :: "(StorageContent \<Rightarrow> bool) \<Rightarrow> (StorageContent \<Rightarrow> StorageContent) \<Rightarrow> nat SDB" where
  "update_contents P f = swrite (\<lambda>d. (rows_affected P (storage_contents d),
     d\<lparr>storage_contents := update_where P f (storage_contents d)\<rparr>))"

definition freezeRequestedCopiesOnFirstReference :: "StorageContent \<Rightarrow> int \<Rightarrow> unit SDB" where
  "freezeRequestedCopiesOnFirstReference content defaultCopies =
     (let requestedCopies = ClampStorageCopies defaultCopies in
      if cnt_RequestedCopies content = requestedCopies \<or> cnt_CleanupGeneration content \<noteq> 0 then ret ()
      else bindM (sread (\<lambda>d. list_ex (\<lambda>v. ver_ContentID v = Some (cnt_ID content)) (object_versions d)))
        (\<lambda>named. if named then ret ()
          else bindM now (\<lambda>n. bindM (update_contents (\<lambda>c. cnt_ID c = cnt_ID content)
              (\<lambda>c. c\<lparr>cnt_RequestedCopies := requestedCopies, cnt_UpdatedAt := n\<rparr>)) (\<lambda>_. ret ()))))"

definition upsertContentCachePresence :: "int \<Rightarrow> bool \<Rightarrow> time option \<Rightarrow> unit SDB" where
  "upsertContentCachePresence cid inCache accessedAt =
     bindM now (\<lambda>n. swrite (\<lambda>d. ((),
       if list_ex (\<lambda>e. oc_ContentID e = cid) (object_cache d)
       then d\<lparr>object_cache := update_where (\<lambda>e. oc_ContentID e = cid)
          (\<lambda>e. e\<lparr>oc_InCache := inCache, oc_UpdatedAt := n,
             oc_CacheAccessedAt := (case accessedAt of None \<Rightarrow> oc_CacheAccessedAt e
               | Some a \<Rightarrow> (case oc_CacheAccessedAt e of None \<Rightarrow> Some a | Some t \<Rightarrow> Some (if t < a then a else t)))\<rparr>)
          (object_cache d)\<rparr>
       else d\<lparr>object_cache := object_cache d @ [\<lparr>oc_ContentID = cid, oc_InCache = inCache, oc_CacheAccessedAt = accessedAt,
          oc_CachePresenceGeneration = 0, oc_CacheOperationGeneration = 0, oc_CacheActiveTaskID = None,
          oc_CreatedAt = n, oc_UpdatedAt = n\<rparr>]\<rparr>)))"

definition prepareNewObjectVersionStorageReference :: "ObjectVersion \<Rightarrow> unit SDB" where
  "prepareNewObjectVersionStorageReference version =
     (case ver_ContentID version of
        None \<Rightarrow> ret ()
      | Some cid \<Rightarrow> if cid \<le> 0 then ret () else
          bindM (bucketCopyPolicyForReference (ver_BucketID version)) (\<lambda>defaultCopies.
          bindM (catchM (lockStorageContentsByID [cid])
            (\<lambda>e. fail (if errors_is e ErrNotFound then ErrContentCleanupInProgress else e))) (\<lambda>contents.
          case find (\<lambda>c. cnt_ID c = cid) contents of
            None \<Rightarrow> fail ErrNotFound
          | Some content \<Rightarrow>
              if cnt_CleanupTaskID content \<noteq> None then fail ErrContentCleanupInProgress
              else bindM (freezeRequestedCopiesOnFirstReference content defaultCopies) (\<lambda>_.
                if ver_IsDeleteMarker version then ret ()
                else bindM (if ver_CreatedAt version = 0 then now else ret (ver_CreatedAt version))
                  (\<lambda>accessedAt. upsertContentCachePresence cid True (Some accessedAt))))))"

section \<open>Creating versions\<close>

definition zero_system_metadata :: ObjectSystemMetadata where
  "zero_system_metadata = \<lparr>CacheControl = '''', ContentDisposition = '''', ContentEncoding = '''',
     ContentLanguage = '''', Expires = ''''\<rparr>"

definition normalizeObjectVersion :: "ObjectVersion \<Rightarrow> ObjectVersion" where
  "normalizeObjectVersion v = (if ver_IsDeleteMarker v
     then v\<lparr>ver_SystemMetadata := zero_system_metadata, ver_ContentID := None, ver_Size := 0, ver_ETag := '''',
            ver_ContentType := ''''\<rparr>
     else v)"

definition lockCurrentObjectIfExists :: "int \<Rightarrow> string \<Rightarrow> unit SDB" where
  "lockCurrentObjectIfExists b k = sread (\<lambda>d. ())"

definition stamped :: "time \<Rightarrow> ObjectVersion \<Rightarrow> ObjectVersion" where
  "stamped n v = (let v = (if ver_CreatedAt v = 0 then v\<lparr>ver_CreatedAt := n\<rparr> else v) in
     if ver_UpdatedAt v = 0 then v\<lparr>ver_UpdatedAt := n\<rparr> else v)"

text \<open>An empty content type takes the column's default, as the model's \<open>default\<close> tag says.\<close>

definition insertObjectVersion :: "ObjectVersion \<Rightarrow> unit SDB" where
  "insertObjectVersion v = swrite (\<lambda>d. ((), d\<lparr>object_versions := object_versions d @
     [if ver_ContentType v = '''' then v\<lparr>ver_ContentType := ''application/octet-stream''\<rparr> else v]\<rparr>))"

definition insert_object :: "int \<Rightarrow> string \<Rightarrow> time \<Rightarrow> int SDB" where
  "insert_object b k n = bindM next_seq (\<lambda>i. bindM (swrite (\<lambda>d. ((), d\<lparr>objects := objects d @
     [\<lparr>obj_ID = i, obj_BucketID = b, obj_Key = k, obj_CurrentVersionID = None, obj_CreatedAt = n, obj_UpdatedAt = n\<rparr>]\<rparr>)))
     (\<lambda>_. ret i))"

definition update_objects :: "(Object \<Rightarrow> bool) \<Rightarrow> (Object \<Rightarrow> Object) \<Rightarrow> nat SDB" where
  "update_objects P f = swrite (\<lambda>d. (rows_affected P (objects d), d\<lparr>objects := update_where P f (objects d)\<rparr>))"

definition point_at :: "int \<Rightarrow> string option \<Rightarrow> time \<Rightarrow> nat SDB" where
  "point_at i v n = update_objects (\<lambda>o'. obj_ID o' = i) (\<lambda>o'. o'\<lparr>obj_CurrentVersionID := v, obj_UpdatedAt := n\<rparr>)"

record ObjectVersionWriteResult =
  wr_ObjectID :: int
  wr_VersionID :: string
  wr_ETag :: string
  wr_Created :: bool

definition createVersionAndSetCurrentFromExisting :: "ObjectVersion \<Rightarrow> Object option \<Rightarrow> ObjectVersionWriteResult SDB" where
  "createVersionAndSetCurrentFromExisting version existing =
     (let version = normalizeObjectVersion version in
      bindM now (\<lambda>n.
        bindM (case existing of
            None \<Rightarrow> catchM (insert_object (ver_BucketID version) (ver_Key version) n)
              (\<lambda>e. fail (if isUniqueViolation e then ErrWrap ErrConcurrentObjectCreate e else e))
          | Some ob \<Rightarrow> ret (obj_ID ob))
        (\<lambda>i. let version = stamped n (version\<lparr>ver_ObjectID := i\<rparr>) in
          bindM (insertObjectVersion version) (\<lambda>_.
          bindM (point_at i (Some (ver_VersionID version)) n) (\<lambda>_.
          ret \<lparr>wr_ObjectID = i, wr_VersionID = ver_VersionID version, wr_ETag = ver_ETag version, wr_Created = True\<rparr>)))))"

definition createVersionAndSetCurrent :: "ObjectVersion \<Rightarrow> ObjectCondition option list \<Rightarrow> int SDB" where
  "createVersionAndSetCurrent version conditions =
     (let version = normalizeObjectVersion version in
      bindM (prepareNewObjectVersionStorageReference version) (\<lambda>_.
      bindM (lockCurrentObjectIfExists (ver_BucketID version) (ver_Key version)) (\<lambda>_.
      bindM (sread (\<lambda>d. object_at d (ver_BucketID version) (ver_Key version))) (\<lambda>existing.
      bindM (checkCurrentObjectConditions (ver_BucketID version) (ver_Key version) conditions) (\<lambda>_.
      bindM (createVersionAndSetCurrentFromExisting version existing) (\<lambda>r. ret (wr_ObjectID r)))))))"

definition CreateVersionAndSetCurrent :: "bool \<Rightarrow> ObjectVersion \<Rightarrow> ObjectCondition option list \<Rightarrow> int SDB" where
  "CreateVersionAndSetCurrent intx version conditions =
     object_write_loop 19 intx (createVersionAndSetCurrent version conditions)"

definition maps_Equal :: "(string \<times> string) list \<Rightarrow> (string \<times> string) list \<Rightarrow> bool" where
  "maps_Equal a b = (length a = length b \<and> list_all (\<lambda>(k, v). map_of b k = Some v) a)"

definition objectVersionMatchesVersion :: "VersionView \<Rightarrow> ObjectVersion \<Rightarrow> bool" where
  "objectVersionMatchesVersion current version =
     (if ver_State current = ObjectStateFailed \<or> ver_IsDeleteMarker current then False
      else ver_ContentID current \<noteq> None \<and> ver_ContentID version \<noteq> None \<and>
        ver_ContentID current = ver_ContentID version \<and> ver_ETag current = ver_ETag version \<and>
        ver_ContentType current = ver_ContentType version \<and> ver_SystemMetadata current = ver_SystemMetadata version \<and>
        maps_Equal (ver_Metadata current) (ver_Metadata version))"

definition createVersionAndSetCurrentIfChanged :: "ObjectVersion \<Rightarrow> ObjectVersionWriteResult SDB" where
  "createVersionAndSetCurrentIfChanged version =
     (let version = normalizeObjectVersion version in
      bindM (prepareNewObjectVersionStorageReference version) (\<lambda>_.
      bindM (lockCurrentObjectIfExists (ver_BucketID version) (ver_Key version)) (\<lambda>_.
      bindM (sread (\<lambda>d. object_at d (ver_BucketID version) (ver_Key version))) (\<lambda>existing.
      case existing of
        None \<Rightarrow> createVersionAndSetCurrentFromExisting version None
      | Some ob \<Rightarrow> bindM (sread (\<lambda>d. current_of_object d (obj_ID ob))) (\<lambda>current.
          case current of
            Some c \<Rightarrow> if objectVersionMatchesVersion c version
              then ret \<lparr>wr_ObjectID = obj_ID ob, wr_VersionID = ver_VersionID c, wr_ETag = ver_ETag c, wr_Created = False\<rparr>
              else createVersionAndSetCurrentFromExisting version (Some ob)
          | None \<Rightarrow> createVersionAndSetCurrentFromExisting version (Some ob))))))"

definition CreateVersionAndSetCurrentIfChanged :: "bool \<Rightarrow> ObjectVersion \<Rightarrow> ObjectVersionWriteResult SDB" where
  "CreateVersionAndSetCurrentIfChanged intx version =
     object_write_loop 19 intx (createVersionAndSetCurrentIfChanged version)"

definition restoreSourceAlreadyCurrent :: "VersionView \<Rightarrow> VersionView \<Rightarrow> bool" where
  "restoreSourceAlreadyCurrent source current =
     (if ver_VersionID source = ver_VersionID current then True
      else if ver_State current = ObjectStateFailed \<or> ver_IsDeleteMarker current \<or>
        (\<not> ver_InCache current \<and> \<not> ver_InFilecoin current) then False
      else ver_ContentID source \<noteq> None \<and> ver_ContentID current \<noteq> None \<and>
        ver_ContentID source = ver_ContentID current \<and> ver_ContentType current = ver_ContentType source \<and>
        ver_SystemMetadata current = ver_SystemMetadata source \<and>
        maps_Equal (ver_Metadata current) (ver_Metadata source))"

definition createRestoredVersionAndSetCurrent :: "ObjectVersion \<Rightarrow> string \<Rightarrow> string \<Rightarrow> int SDB" where
  "createRestoredVersionAndSetCurrent version sourceVersionID expectedCurrentVersionID =
     (let version = normalizeObjectVersion version; b = ver_BucketID version; k = ver_Key version in
      bindM (prepareNewObjectVersionStorageReference version) (\<lambda>_.
      bindM (lockCurrentObjectIfExists b k) (\<lambda>_.
      bindM (sread (\<lambda>d. version_at d b k sourceVersionID)) (\<lambda>source. case source of
        None \<Rightarrow> fail ErrNotFound
      | Some source \<Rightarrow> if ver_IsDeleteMarker source then fail ErrConflict else
          bindM (sread (\<lambda>d. current_at d b k)) (\<lambda>current. case current of
            None \<Rightarrow> fail ErrConflict
          | Some current \<Rightarrow>
              if ver_VersionID current \<noteq> expectedCurrentVersionID \<or> ver_ObjectID current \<noteq> ver_ObjectID source
              then fail ErrConflict
              else if restoreSourceAlreadyCurrent source current then fail ErrAlreadyCurrent
              else bindM now (\<lambda>n.
                bindM (insertObjectVersion (stamped n (version\<lparr>ver_ObjectID := ver_ObjectID source\<rparr>))) (\<lambda>_.
                bindM (update_objects (\<lambda>o'. obj_ID o' = ver_ObjectID source \<and> obj_CurrentVersionID o' = Some expectedCurrentVersionID)
                  (\<lambda>o'. o'\<lparr>obj_CurrentVersionID := Some (ver_VersionID version), obj_UpdatedAt := n\<rparr>)) (\<lambda>rows.
                if rows \<noteq> 1 then fail ErrConflict else ret (ver_ObjectID source)))))))))"

definition CreateRestoredVersionAndSetCurrent :: "bool \<Rightarrow> ObjectVersion \<Rightarrow> string \<Rightarrow> string \<Rightarrow> int SDB" where
  "CreateRestoredVersionAndSetCurrent intx version sourceVersionID expectedCurrentVersionID =
     (if ver_BucketID version = 0 \<or> ver_Key version = '''' \<or> ver_VersionID version = '''' \<or> ver_IsDeleteMarker version \<or>
         sourceVersionID = '''' \<or> expectedCurrentVersionID = ''''
      then fail ErrInvalidInput
      else object_write_loop 19 intx (createRestoredVersionAndSetCurrent version sourceVersionID expectedCurrentVersionID))"

section \<open>Delete markers\<close>

definition new_marker :: "int \<Rightarrow> string \<Rightarrow> string \<Rightarrow> ObjectVersion" where
  "new_marker b k versionID = \<lparr>ver_VersionID = versionID, ver_ObjectID = 0, ver_BucketID = b, ver_Key = k,
     ver_ContentID = None, ver_Size = 0, ver_ETag = '''', ver_ContentType = '''', ver_Metadata = [],
     ver_SystemMetadata = zero_system_metadata, ver_MultipartUploadID = None, ver_IsDeleteMarker = True,
     ver_CreatedAt = 0, ver_UpdatedAt = 0\<rparr>"

definition createDeleteMarkerAndSetCurrent :: "ObjectVersion \<Rightarrow> ObjectCondition option list \<Rightarrow> ObjectVersion SDB" where
  "createDeleteMarkerAndSetCurrent marker conditions =
     (let b = ver_BucketID marker; k = ver_Key marker in
      bindM now (\<lambda>n.
      bindM (lockCurrentObjectIfExists b k) (\<lambda>_.
      bindM (sread (\<lambda>d. object_at d b k)) (\<lambda>existing.
      bindM (checkCurrentObjectConditions b k conditions) (\<lambda>_.
      bindM (case existing of
          None \<Rightarrow> catchM (insert_object b k n)
            (\<lambda>e. fail (if isUniqueViolation e then ErrWrap ErrConcurrentObjectCreate e else e))
        | Some ob \<Rightarrow> bindM (update_objects (\<lambda>o'. obj_ID o' = obj_ID ob) (\<lambda>o'. o'\<lparr>obj_UpdatedAt := n\<rparr>))
            (\<lambda>_. ret (obj_ID ob))) (\<lambda>i.
      let marker = stamped n (marker\<lparr>ver_ObjectID := i, ver_IsDeleteMarker := True, ver_Size := 0, ver_ETag := '''',
            ver_ContentType := '''', ver_ContentID := None\<rparr>) in
      bindM (swrite (\<lambda>d. ((), d\<lparr>object_versions := object_versions d @
        [marker\<lparr>ver_SystemMetadata := zero_system_metadata, ver_MultipartUploadID := None\<rparr>]\<rparr>))) (\<lambda>_.
      bindM (point_at i (Some (ver_VersionID marker)) n) (\<lambda>_. ret marker))))))))"

definition CreateDeleteMarkerAndSetCurrent :: "bool \<Rightarrow> int \<Rightarrow> string \<Rightarrow> string \<Rightarrow> ObjectCondition option list \<Rightarrow> ObjectVersion SDB" where
  "CreateDeleteMarkerAndSetCurrent intx b k versionID conditions =
     (if b = 0 \<or> k = '''' \<or> versionID = '''' then fail ErrInvalidInput
      else object_write_loop 19 intx (createDeleteMarkerAndSetCurrent (new_marker b k versionID) conditions))"

definition latest_excluding :: "storage_db \<Rightarrow> int \<Rightarrow> string \<Rightarrow> VersionView option" where
  "latest_excluding d i v = (case newest_first (filter (\<lambda>x. ver_ObjectID x = i \<and> ver_VersionID x \<noteq> v) (views d)) of
     [] \<Rightarrow> None | x # _ \<Rightarrow> Some x)"

definition repointObjectAwayFromVersion :: "int \<Rightarrow> string \<Rightarrow> unit SDB" where
  "repointObjectAwayFromVersion i v =
     bindM (sread (\<lambda>d. latest_excluding d i v)) (\<lambda>latest.
     bindM now (\<lambda>n. bindM (point_at i (map_option ver_VersionID latest) n) (\<lambda>_. ret ())))"

definition delete_versions :: "(ObjectVersion \<Rightarrow> bool) \<Rightarrow> nat SDB" where
  "delete_versions P = swrite (\<lambda>d. (rows_affected P (object_versions d),
     d\<lparr>object_versions := filter (\<lambda>v. \<not> P v) (object_versions d)\<rparr>))"

definition delete_objects :: "(Object \<Rightarrow> bool) \<Rightarrow> nat SDB" where
  "delete_objects P = swrite (\<lambda>d. (rows_affected P (objects d), d\<lparr>objects := filter (\<lambda>o'. \<not> P o') (objects d)\<rparr>))"

definition deleteObjectIdentityIfEmpty :: "int \<Rightarrow> unit SDB" where
  "deleteObjectIdentityIfEmpty i =
     bindM (sread (\<lambda>d. length (filter (\<lambda>v. ver_ObjectID v = i) (object_versions d)))) (\<lambda>remaining.
     if remaining > 0 then ret () else bindM (delete_objects (\<lambda>o'. obj_ID o' = i)) (\<lambda>_. ret ()))"

definition deleteMarkerVersion :: "int \<Rightarrow> string \<Rightarrow> string \<Rightarrow> ObjectCondition option list \<Rightarrow> unit SDB" where
  "deleteMarkerVersion b k versionID conditions =
     bindM (lockCurrentObjectIfExists b k) (\<lambda>_.
     bindM (sread (\<lambda>d. version_at d b k versionID)) (\<lambda>version. case version of
       None \<Rightarrow> fail ErrNotFound
     | Some version \<Rightarrow> if \<not> ver_IsDeleteMarker version then fail ErrInvalidInput
         else bindM (checkObjectConditions (Some version) conditions) (\<lambda>_.
           bindM (if ver_IsCurrent version then repointObjectAwayFromVersion (ver_ObjectID version) versionID else ret ()) (\<lambda>_.
           bindM (delete_versions (\<lambda>v. ver_BucketID v = b \<and> ver_Key v = k \<and> ver_VersionID v = versionID)) (\<lambda>_.
           if ver_IsCurrent version then deleteObjectIdentityIfEmpty (ver_ObjectID version) else ret ())))))"

definition DeleteMarkerVersion :: "bool \<Rightarrow> int \<Rightarrow> string \<Rightarrow> string \<Rightarrow> ObjectCondition option list \<Rightarrow> unit SDB" where
  "DeleteMarkerVersion intx b k versionID conditions =
     (if b = 0 \<or> k = '''' \<or> versionID = '''' then fail ErrInvalidInput
      else obj_tx intx (deleteMarkerVersion b k versionID conditions))"

definition selectVersionsByObjectNewestFirst :: "int \<Rightarrow> VersionView list SDB" where
  "selectVersionsByObjectNewestFirst i = sread (\<lambda>d. newest_first (filter (\<lambda>v. ver_ObjectID v = i) (views d)))"

definition restoreCurrentDeleteMarkerStack :: "int \<Rightarrow> string \<Rightarrow> string \<Rightarrow> VersionView SDB" where
  "restoreCurrentDeleteMarkerStack b k currentMarkerVersionID =
     bindM (lockCurrentObjectIfExists b k) (\<lambda>_.
     bindM (sread (\<lambda>d. current_at d b k)) (\<lambda>current. case current of
       None \<Rightarrow> fail ErrNotFound
     | Some current \<Rightarrow>
         if \<not> ver_IsDeleteMarker current \<or> ver_VersionID current \<noteq> currentMarkerVersionID then fail ErrConflict
         else bindM (selectVersionsByObjectNewestFirst (ver_ObjectID current)) (\<lambda>versions.
           let markerIDs = map ver_VersionID (takeWhile ver_IsDeleteMarker versions) in
           case dropWhile ver_IsDeleteMarker versions of
             [] \<Rightarrow> fail ErrNotFound
           | restoreTarget # _ \<Rightarrow> if markerIDs = [] then fail ErrConflict
               else bindM now (\<lambda>n.
                 bindM (point_at (ver_ObjectID current) (Some (ver_VersionID restoreTarget)) n) (\<lambda>_.
                 bindM (delete_versions (\<lambda>v. ver_ObjectID v = ver_ObjectID current \<and> ver_VersionID v \<in> set markerIDs)) (\<lambda>_.
                 ret (restoreTarget\<lparr>ver_IsCurrent := True\<rparr>)))))))"

definition RestoreCurrentDeleteMarkerStack :: "bool \<Rightarrow> int \<Rightarrow> string \<Rightarrow> string \<Rightarrow> VersionView SDB" where
  "RestoreCurrentDeleteMarkerStack intx b k currentMarkerVersionID =
     (if b = 0 \<or> k = '''' \<or> currentMarkerVersionID = '''' then fail ErrInvalidInput
      else obj_tx intx (restoreCurrentDeleteMarkerStack b k currentMarkerVersionID))"

end
