(* ===== verification/Object_Delete.thy ===== *)
theory Object_Delete
  imports Object_Repo
begin

text \<open>
  Permanent deletion in \<open>object_repo.go\<close>: removing one data version, emptying a deleted object, the
  reservation of storage cleanup when the last version that names a content goes, and the cache
  index operations. \<open>releaseCollectingCommitMembership\<close> and \<open>wakeCommitTasks\<close> are those of
  \<open>storage_commit_repo.go\<close>.
\<close>

section \<open>Contents of versions\<close>

type_synonym uploads = "(int \<times> StorageContent) list"

definition put_upload :: "StorageContent \<Rightarrow> uploads \<Rightarrow> uploads" where
  "put_upload c m = (cnt_ID c, c) # filter (\<lambda>(i, _). i \<noteq> cnt_ID c) m"

definition authoritativeStorageContentForVersion :: "('v ObjectVersion_scheme) \<Rightarrow> StorageContent option SDB" where
  "authoritativeStorageContentForVersion version = (case ver_ContentID version of
       None \<Rightarrow> ret None
     | Some i \<Rightarrow> if i \<le> 0 then ret None else sread (\<lambda>d. find_content d i))"

fun authoritativeStorageContentsForVersions :: "('v ObjectVersion_scheme) list \<Rightarrow> uploads \<Rightarrow> uploads SDB" where
  "authoritativeStorageContentsForVersions [] m = ret m"
| "authoritativeStorageContentsForVersions (v # vs) m =
     (if ver_VersionID v = '''' then fail ErrInvalidInput
      else bindM (authoritativeStorageContentForVersion v) (\<lambda>c. case c of
          None \<Rightarrow> authoritativeStorageContentsForVersions vs m
        | Some c \<Rightarrow> authoritativeStorageContentsForVersions vs (put_upload c m)))"

definition sortedContentIDs :: "uploads \<Rightarrow> int list" where
  "sortedContentIDs m = sort (map fst m)"

definition sameContentIDs :: "uploads \<Rightarrow> uploads \<Rightarrow> bool" where
  "sameContentIDs l r = (length l = length r \<and> list_all (\<lambda>(i, _). i \<in> set (map fst r)) l)"

definition lockObjectVersionsByID :: "string list \<Rightarrow> unit SDB" where
  "lockObjectVersionsByID versionIDs =
     (let ids = filter (\<lambda>i. i \<noteq> '''') (remdups (sort versionIDs)) in
      if ids = [] then ret ()
      else bindM (sread (\<lambda>d. filter (\<lambda>v. ver_VersionID v \<in> set ids) (object_versions d)))
        (\<lambda>locked. if length locked \<noteq> length ids then fail ErrNotFound else ret ()))"

definition selectLiveObjectVersionForStorageContent :: "int \<Rightarrow> string list \<Rightarrow> ObjectVersion option SDB" where
  "selectLiveObjectVersionForStorageContent cid excluded =
     (if cid \<le> 0 then fail ErrInvalidInput
      else sread (\<lambda>d. case sort_key (\<lambda>v. if list_ex (\<lambda>o'. obj_ID o' = ver_ObjectID v \<and>
            obj_CurrentVersionID o' = Some (ver_VersionID v)) (objects d) then 0 else (1::nat))
          (newest_first (filter (\<lambda>v. \<not> ver_IsDeleteMarker v \<and> ver_ContentID v = Some cid \<and>
            ver_VersionID v \<notin> set excluded) (object_versions d))) of
          [] \<Rightarrow> None | v # _ \<Rightarrow> Some v))"

section \<open>Commit requests\<close>

text \<open>A copy as \<open>projectCommitRequest\<close> reads it.\<close>

record CopyView = StorageCopy +
  cpy_CommitState :: "RequestStatus option"

definition project_copy :: "storage_db \<Rightarrow> StorageCopy \<Rightarrow> CopyView" where
  "project_copy d c = StorageCopy.extend c (CopyView.fields
     (map_option req_Status (Option.bind (cpy_CommitRequestID c)
        (\<lambda>q. find (\<lambda>r. req_RequestID r = q) (storage_commit_requests d)))))"

definition CommitPinned :: "CopyView \<Rightarrow> bool" where
  "CommitPinned c = (cpy_CommitPosition c \<noteq> None \<and> cpy_Status c \<noteq> StorageCopyStatusCommitted \<and>
     cpy_Status c \<noteq> StorageCopyStatusFailed \<and>
     (case cpy_CommitState c of None \<Rightarrow> True | Some s \<Rightarrow> s \<noteq> RequestStatusConfirmed \<and> s \<noteq> RequestStatusAbandoned))"

definition storageUploadCopyCanBeCancelledForPermanentDelete :: "('c StorageCopy_scheme) \<Rightarrow> bool" where
  "storageUploadCopyCanBeCancelledForPermanentDelete c = (cpy_Status c = StorageCopyStatusPending \<or>
     cpy_Status c = StorageCopyStatusPieceReady \<or> cpy_Status c = StorageCopyStatusCommitting)"

definition lockCommitRequest :: "string \<Rightarrow> RequestStatus option \<Rightarrow> CommitRequest SDB" where
  "lockCommitRequest q status =
     bindM (sread (\<lambda>d. find (\<lambda>r. req_RequestID r = q \<and> (case status of None \<Rightarrow> True | Some s \<Rightarrow> req_Status r = s))
       (storage_commit_requests d))) (\<lambda>r. case r of None \<Rightarrow> fail ErrConflict | Some r \<Rightarrow> ret r)"

definition update_copies :: "(storage_db tables \<Rightarrow> StorageCopy \<Rightarrow> bool) \<Rightarrow> (StorageCopy \<Rightarrow> StorageCopy) \<Rightarrow> nat SDB" where
  "update_copies P f = twrite (\<lambda>t. (rows_affected (P t) (storage_copies (domain t)),
     (domain t)\<lparr>storage_copies := update_where (P t) f (storage_copies (domain t))\<rparr>))"

definition update_requests :: "(CommitRequest \<Rightarrow> bool) \<Rightarrow> (CommitRequest \<Rightarrow> CommitRequest) \<Rightarrow> nat SDB" where
  "update_requests P f = swrite (\<lambda>d. (rows_affected P (storage_commit_requests d),
     d\<lparr>storage_commit_requests := update_where P f (storage_commit_requests d)\<rparr>))"

definition requireCommitRows :: "nat \<Rightarrow> unit SDB" where
  "requireCommitRows rows = (if rows = 0 then fail ErrConflict else ret ())"

definition countCommitMembers :: "string \<Rightarrow> int SDB" where
  "countCommitMembers q = sread (\<lambda>d. int (length (filter (\<lambda>c. cpy_CommitRequestID c = Some q) (storage_copies d))))"

definition wakeCommitTasks :: "int list \<Rightarrow> int list \<Rightarrow> string list \<Rightarrow> unit SDB" where
  "wakeCommitTasks locked ids excludedWaitReasons =
     (if ids = [] then ret ()
      else bindM now (\<lambda>n. bindM (update_tasks (\<lambda>r. task_ID r \<in> set ids \<and> task_ID r \<notin> set locked \<and>
          task_Status r = TaskStatusPending \<and> n < task_AvailableAt r \<and>
          (case task_WaitReason r of None \<Rightarrow> False
            | Some reason \<Rightarrow> excludedWaitReasons = [] \<or> reason \<notin> set excludedWaitReasons))
        (\<lambda>r. r\<lparr>task_AvailableAt := n, task_UpdatedAt := n\<rparr>)) (\<lambda>_. ret ())))"

definition releaseCollectingCommitMembership :: "int list \<Rightarrow> int \<Rightarrow> time \<Rightarrow> unit SDB" where
  "releaseCollectingCommitMembership locked copyID n =
     bindM (sread (\<lambda>d. find (\<lambda>c. cpy_ID c = copyID) (storage_copies d))) (\<lambda>copyRow. case copyRow of
       None \<Rightarrow> fail ErrNoRows
     | Some copyRow \<Rightarrow> (case cpy_CommitRequestID copyRow of
         None \<Rightarrow> ret ()
       | Some q \<Rightarrow> if cpy_CommitPosition copyRow \<noteq> None then ret ()
           else bindM (lockCommitRequest q (Some RequestStatusCollecting)) (\<lambda>request.
             bindM (update_copies (\<lambda>_ c. cpy_ID c = copyID \<and> cpy_CommitRequestID c = Some q \<and> cpy_CommitPosition c = None)
               (\<lambda>c. c\<lparr>cpy_CommitRequestID := None, cpy_UpdatedAt := n\<rparr>)) (\<lambda>rows.
             bindM (requireCommitRows rows) (\<lambda>_.
             bindM (countCommitMembers q) (\<lambda>remaining.
             if remaining > 0 then ret ()
             else bindM (update_requests (\<lambda>r. req_RequestID r = q \<and> req_Status r = RequestStatusCollecting \<and>
                   req_TaskID r = req_TaskID request)
                 (\<lambda>r. r\<lparr>req_Status := RequestStatusAbandoned, req_TaskID := None,
                   req_LastError := Some ''no replicas are left to submit'', req_SealRequestedAt := None, req_UpdatedAt := n\<rparr>)) (\<lambda>rows.
               bindM (requireCommitRows rows) (\<lambda>_.
               case req_TaskID request of None \<Rightarrow> ret () | Some i \<Rightarrow> wakeCommitTasks locked [i] [])))))))) "

section \<open>Preparing a deletion\<close>

definition objectVersionPermanentDeleteStateError :: "ObjectState \<Rightarrow> error option" where
  "objectVersionPermanentDeleteStateError state = (case state of
       ObjectStateCached \<Rightarrow> None | ObjectStateUploading \<Rightarrow> None | ObjectStateCommitting \<Rightarrow> None
     | ObjectStateReplicating \<Rightarrow> None | ObjectStateStored \<Rightarrow> None | ObjectStateFailed \<Rightarrow> None)"

definition cancel_copy :: "int list \<Rightarrow> CopyView \<Rightarrow> unit SDB" where
  "cancel_copy locked c =
     (if CommitPinned c then fail ErrPermanentDeleteStorageBusy
      else if \<not> storageUploadCopyCanBeCancelledForPermanentDelete c then ret ()
      else bindM now (\<lambda>n. bindM (releaseCollectingCommitMembership locked (cpy_ID c) n) (\<lambda>_.
        bindM (update_copies (\<lambda>t y. cpy_ID y = cpy_ID c \<and> storageUploadCopyCanBeCancelledForPermanentDelete y \<and>
            (case cpy_ActiveTaskID y of None \<Rightarrow> True
             | Some i \<Rightarrow> list_ex (\<lambda>r. task_ID r = i \<and> terminalTaskStatus (task_Status r)) (tasks t)) \<and>
            cpy_CommitPosition y = None)
          (\<lambda>y. y\<lparr>cpy_Status := StorageCopyStatusFailed, cpy_ActiveTaskID := None, cpy_CommitReadyAt := None,
             cpy_LastError := Some ''cancelled because the last object version was permanently deleted'', cpy_UpdatedAt := n\<rparr>))
        (\<lambda>rows. if rows = 0 then fail ErrPermanentDeleteStorageBusy else ret ()))))"

fun cancel_copies :: "int list \<Rightarrow> CopyView list \<Rightarrow> unit SDB" where
  "cancel_copies locked [] = ret ()"
| "cancel_copies locked (c # cs) = bindM (cancel_copy locked c) (\<lambda>_. cancel_copies locked cs)"

definition close_content :: "int list \<Rightarrow> string list \<Rightarrow> CopyView list \<Rightarrow> int \<Rightarrow> unit SDB" where
  "close_content locked deletingVersionIDs copies cid =
     bindM (selectLiveObjectVersionForStorageContent cid deletingVersionIDs) (\<lambda>liveVersion.
     if liveVersion \<noteq> None then ret ()
     else bindM (sread (\<lambda>d. list_ex (\<lambda>p. pull_ContentID p = cid \<and> pull_ResolvedAt p = None) (storage_pull_attempts d))) (\<lambda>openPull.
       if openPull then fail ErrPermanentDeleteStorageBusy
       else bindM (cancel_copies locked (filter (\<lambda>c. cpy_ContentID c = cid) copies)) (\<lambda>_.
         bindM now (\<lambda>n. bindM (update_contents (\<lambda>c. cnt_ID c = cid)
           (\<lambda>c. c\<lparr>cnt_ErrorMessage := Some ''the last object version referencing this content was permanently deleted'',
              cnt_UpdatedAt := n\<rparr>)) (\<lambda>_. ret ())))))"

fun close_contents :: "int list \<Rightarrow> string list \<Rightarrow> CopyView list \<Rightarrow> int list \<Rightarrow> unit SDB" where
  "close_contents locked ids copies [] = ret ()"
| "close_contents locked ids copies (c # cs) =
     bindM (close_content locked ids copies c) (\<lambda>_. close_contents locked ids copies cs)"

definition related_tasks :: "int list \<Rightarrow> storage_db tables \<Rightarrow> Task list" where
  "related_tasks contentIDs t = filter (\<lambda>r. live_task r \<and> task_SubjectType r = TaskSubjectStorageContent \<and>
     task_SubjectKey r \<in> set (map FormatInt contentIDs)) (tasks t)"

definition prepareObjectVersionsForPermanentDelete :: "int list \<Rightarrow> VersionView list \<Rightarrow> uploads \<Rightarrow> unit SDB" where
  "prepareObjectVersionsForPermanentDelete locked versions uploadsByID =
     (if versions = [] then ret ()
      else if list_ex (\<lambda>v. ver_VersionID v = '''') versions then fail ErrInvalidInput
      else let deletingVersionIDs = sort (map ver_VersionID versions); contentIDs = sortedContentIDs uploadsByID in
        if contentIDs = [] then ret ()
        else bindM (catchM (query (related_tasks contentIDs))
            (\<lambda>e. fail (if as_PgError e = Some LockNotAvailable then ErrPermanentDeleteStorageBusy else e))) (\<lambda>relatedTasks.
          if list_ex (\<lambda>r. task_Status r = TaskStatusPending \<or> task_Status r = TaskStatusRunning) relatedTasks
          then fail ErrPermanentDeleteStorageBusy
          else bindM (sread (\<lambda>d. map cpy_ID (sort_key cpy_ID (filter (\<lambda>c. cpy_ContentID c \<in> set contentIDs) (storage_copies d)))))
            (\<lambda>lockedCopyIDs. bindM (if lockedCopyIDs = [] then ret []
               else sread (\<lambda>d. map (project_copy d) (sort_key cpy_ID (filter (\<lambda>c. cpy_ID c \<in> set lockedCopyIDs) (storage_copies d)))))
            (\<lambda>copies. close_contents locked deletingVersionIDs copies contentIDs))))"

section \<open>Reserving cleanup\<close>

record StorageCleanupReservation =
  rsv_ContentID :: int
  rsv_Generation :: int
  rsv_TaskID :: "int option"

definition storageCleanupCopySnapshots :: "int \<Rightarrow> StorageCleanupCopy list SDB" where
  "storageCleanupCopySnapshots cid = sread (\<lambda>d. concat (map (\<lambda>(c, s). case find_content d (cpy_ContentID c) of
       None \<Rightarrow> []
     | Some x \<Rightarrow> [\<lparr>ccp_ID = 0, ccp_ContentID = cpy_ContentID c, ccp_BucketID = cpy_BucketID c, ccp_CopyIndex = cpy_CopyIndex c,
         ccp_ProviderID = cpy_ProviderID c, ccp_StorageDataSetID = cpy_StorageDataSetID c, ccp_DataSetID = sds_DataSetID s,
         ccp_ClientDataSetID = sds_ClientDataSetID s,
         ccp_PieceID = (case cpy_PieceID c of None \<Rightarrow> '''' | Some p \<Rightarrow> p),
         ccp_PieceCID = (case cnt_PieceCID x of None \<Rightarrow> '''' | Some p \<Rightarrow> p), ccp_Checksum = cnt_Checksum x,
         ccp_RetrievalURL = cpy_RetrievalURL c, ccp_Status = StorageCleanupCopyStatusPending, ccp_DeleteTxHash = None,
         ccp_LastError = None, ccp_ScheduledAt = None, ccp_RemovedAt = None, ccp_CreatedAt = 0, ccp_UpdatedAt = 0\<rparr>])
     (sort_key (\<lambda>(c, s). cpy_CopyIndex c)
       (filter (\<lambda>(c, s). cpy_Status c = StorageCopyStatusCommitted) (copy_joins d cid)))))"

fun number_snapshots :: "time \<Rightarrow> StorageCleanupCopy list \<Rightarrow> StorageCleanupCopy list SDB" where
  "number_snapshots n [] = ret []"
| "number_snapshots n (c # cs) = bindM next_seq (\<lambda>i. bindM (number_snapshots n cs)
     (\<lambda>rest. ret (c\<lparr>ccp_ID := i, ccp_CreatedAt := n, ccp_UpdatedAt := n\<rparr> # rest)))"

definition same_physical :: "StorageCleanupCopy \<Rightarrow> StorageCleanupCopy \<Rightarrow> bool" where
  "same_physical a b = (ccp_ContentID a = ccp_ContentID b \<and> ccp_StorageDataSetID a = ccp_StorageDataSetID b \<and>
     ccp_PieceID a = ccp_PieceID b)"

definition insert_snapshots :: "StorageCleanupCopy list \<Rightarrow> unit SDB" where
  "insert_snapshots cs = swrite (\<lambda>d. ((), d\<lparr>storage_cleanup_copies := fold (\<lambda>c rows.
     if list_ex (same_physical c) rows then rows else rows @ [c]) cs (storage_cleanup_copies d)\<rparr>))"

definition reserve_generation :: "int \<Rightarrow> time \<Rightarrow> StorageCleanupReservation option SDB" where
  "reserve_generation cid n = swrite (\<lambda>d.
     let rows = update_where (\<lambda>c. cnt_ID c = cid) (\<lambda>c. c\<lparr>
           cnt_CleanupGeneration := cnt_CleanupGeneration c + (if cnt_CleanupTaskID c = None then 1 else 0),
           cnt_UpdatedAt := n\<rparr>) (storage_contents d) in
     (map_option (\<lambda>c. \<lparr>rsv_ContentID = cnt_ID c, rsv_Generation = cnt_CleanupGeneration c, rsv_TaskID = cnt_CleanupTaskID c\<rparr>)
        (find (\<lambda>c. cnt_ID c = cid) rows),
      d\<lparr>storage_contents := rows\<rparr>))"

definition reserveStorageCleanupForDeletedVersions :: "int \<Rightarrow> string list \<Rightarrow> StorageCleanupReservation option SDB" where
  "reserveStorageCleanupForDeletedVersions cid deletedVersionIDs =
     (if cid = 0 \<or> deletedVersionIDs = [] then fail ErrInvalidInput
      else bindM (selectLiveObjectVersionForStorageContent cid deletedVersionIDs) (\<lambda>live.
        if live \<noteq> None then ret None
        else bindM (storageCleanupCopySnapshots cid) (\<lambda>copies.
          bindM now (\<lambda>n.
          bindM (if copies = [] then ret () else bindM (number_snapshots n copies) insert_snapshots) (\<lambda>_.
          bindM (reserve_generation cid n) (\<lambda>r. case r of None \<Rightarrow> fail ErrNoRows | Some r \<Rightarrow> ret (Some r)))))))"

section \<open>Permanent deletion\<close>

record DeleteObjectVersionInput =
  dov_BucketID :: int
  dov_Key :: string
  dov_VersionID :: string
  dov_Condition :: "ObjectCondition option"

record DeleteObjectVersionResult =
  dovr_DeletionID :: int
  dovr_ContentID :: "int option"
  dovr_StorageCleanup :: "StorageCleanupReservation option"

definition deletion_of :: "int \<Rightarrow> time \<Rightarrow> ('v ObjectVersion_scheme) \<Rightarrow> ObjectDeletion" where
  "deletion_of i n v = \<lparr>del_ID = i, del_BucketID = ver_BucketID v, del_ObjectID = ver_ObjectID v, del_Key = ver_Key v,
     del_VersionID = ver_VersionID v, del_ContentID = ver_ContentID v, del_Size = ver_Size v, del_DeletedAt = n\<rparr>"

definition insert_deletions :: "ObjectDeletion list \<Rightarrow> unit SDB" where
  "insert_deletions ds = catchM (swrite (\<lambda>d. ((), d\<lparr>object_deletions := object_deletions d @ ds\<rparr>)))
     (\<lambda>e. fail (if isUniqueViolation e then ErrAlreadyExists else e))"

definition lock_uploads :: "uploads \<Rightarrow> uploads SDB" where
  "lock_uploads m = bindM (catchM (lockStorageContentsByID (sortedContentIDs m))
       (\<lambda>e. fail (if errors_is e ErrNotFound then ErrPermanentDeleteStorageBusy else e)))
     (\<lambda>rows. ret (map (\<lambda>c. (cnt_ID c, c)) rows))"

text \<open>The body of the transaction after its checks: the ledger row, the reservation, the pointer,
  the row and, when the object has no version left, its identity.\<close>

definition remove_version :: "VersionView \<Rightarrow> DeleteObjectVersionResult SDB" where
  "remove_version version =
     bindM now (\<lambda>n.
     bindM next_seq (\<lambda>i.
     bindM (insert_deletions [deletion_of i n version]) (\<lambda>_.
     bindM (case ver_ContentID version of None \<Rightarrow> ret None
         | Some cid \<Rightarrow> reserveStorageCleanupForDeletedVersions cid [ver_VersionID version]) (\<lambda>cleanup.
     bindM (if ver_IsCurrent version then repointObjectAwayFromVersion (ver_ObjectID version) (ver_VersionID version) else ret ()) (\<lambda>_.
     bindM (delete_versions (\<lambda>v. ver_VersionID v = ver_VersionID version)) (\<lambda>rows.
     if rows = 0 then fail ErrNotFound
     else bindM (if ver_IsCurrent version then deleteObjectIdentityIfEmpty (ver_ObjectID version) else ret ()) (\<lambda>_.
       ret \<lparr>dovr_DeletionID = i, dovr_ContentID = ver_ContentID version, dovr_StorageCleanup = cleanup\<rparr>)))))))"

definition deleteObjectVersionPermanently :: "int list \<Rightarrow> DeleteObjectVersionInput \<Rightarrow> DeleteObjectVersionResult SDB" where
  "deleteObjectVersionPermanently locked input =
     (let b = dov_BucketID input; k = dov_Key input; i = dov_VersionID input in
      bindM (sread (\<lambda>d. version_at d b k i)) (\<lambda>version. case version of
        None \<Rightarrow> fail ErrNotFound
      | Some version \<Rightarrow>
          bindM (authoritativeStorageContentsForVersions [version] []) (\<lambda>preliminaryUploads.
          bindM (lock_uploads preliminaryUploads) (\<lambda>lockedUploads.
          bindM (lockCurrentObjectIfExists b k) (\<lambda>_.
          bindM (lockObjectVersionsByID [i]) (\<lambda>_.
          bindM (sread (\<lambda>d. version_at d b k i)) (\<lambda>version. case version of
            None \<Rightarrow> fail ErrNotFound
          | Some version \<Rightarrow> if ver_IsDeleteMarker version then fail ErrConflict
              else bindM (checkObjectConditions (Some version) [dov_Condition input]) (\<lambda>_.
                case objectVersionPermanentDeleteStateError (ver_State version) of
                  Some e \<Rightarrow> fail e
                | None \<Rightarrow> bindM (authoritativeStorageContentsForVersions [version] []) (\<lambda>currentUploads.
                    if \<not> sameContentIDs preliminaryUploads currentUploads then fail ErrPermanentDeleteStorageBusy
                    else bindM (prepareObjectVersionsForPermanentDelete locked [version] lockedUploads) (\<lambda>_.
                      remove_version version))))))))))"

definition DeleteObjectVersionPermanently :: "bool \<Rightarrow> int list \<Rightarrow> DeleteObjectVersionInput \<Rightarrow> DeleteObjectVersionResult SDB" where
  "DeleteObjectVersionPermanently intx locked input =
     (if dov_BucketID input = 0 \<or> dov_Key input = '''' \<or> dov_VersionID input = '''' then fail ErrInvalidInput
      else obj_tx intx (deleteObjectVersionPermanently locked input))"

record DeleteDeletedObjectInput =
  ddo_BucketID :: int
  ddo_Key :: string
  ddo_DeleteMarkerVersionID :: string

record DeleteDeletedObjectResult =
  ddor_Key :: string
  ddor_DeleteMarkerVersionID :: string
  ddor_DataVersionsDeleted :: nat
  ddor_DeleteMarkersDeleted :: nat
  ddor_DeletedVersions :: "(string \<times> int option) list"
  ddor_StorageCleanups :: "StorageCleanupReservation list"

fun number_deletions :: "time \<Rightarrow> VersionView list \<Rightarrow> ObjectDeletion list SDB" where
  "number_deletions n [] = ret []"
| "number_deletions n (v # vs) = bindM next_seq (\<lambda>i. bindM (number_deletions n vs) (\<lambda>ds. ret (deletion_of i n v # ds)))"

fun reserve_all :: "(int \<times> string list) list \<Rightarrow> StorageCleanupReservation list SDB" where
  "reserve_all [] = ret []"
| "reserve_all ((cid, ids) # m) = bindM (reserveStorageCleanupForDeletedVersions cid ids) (\<lambda>cleanup.
     bindM (reserve_all m) (\<lambda>rest. ret (case cleanup of None \<Rightarrow> rest | Some c \<Rightarrow> c # rest)))"

definition deleted_by_upload :: "VersionView list \<Rightarrow> (int \<times> string list) list" where
  "deleted_by_upload vs = map (\<lambda>cid. (cid, map ver_VersionID (filter (\<lambda>v. ver_ContentID v = Some cid) vs)))
     (remdups (List.map_filter ver_ContentID vs))"

definition remove_object :: "DeleteDeletedObjectInput \<Rightarrow> int \<Rightarrow> VersionView list \<Rightarrow> DeleteDeletedObjectResult SDB" where
  "remove_object input objectID versions =
     (let dataVersions = filter (\<lambda>v. \<not> ver_IsDeleteMarker v) versions in
      bindM now (\<lambda>n.
      bindM (if dataVersions = [] then ret () else bindM (number_deletions n dataVersions) insert_deletions) (\<lambda>_.
      bindM (reserve_all (deleted_by_upload dataVersions)) (\<lambda>cleanups.
      bindM (point_at objectID None n) (\<lambda>_.
      bindM (delete_versions (\<lambda>v. ver_ObjectID v = objectID)) (\<lambda>_.
      bindM (delete_objects (\<lambda>o'. obj_ID o' = objectID)) (\<lambda>_.
      ret \<lparr>ddor_Key = ddo_Key input, ddor_DeleteMarkerVersionID = ddo_DeleteMarkerVersionID input,
        ddor_DataVersionsDeleted = length dataVersions,
        ddor_DeleteMarkersDeleted = length (filter ver_IsDeleteMarker versions),
        ddor_DeletedVersions = map (\<lambda>v. (ver_VersionID v, ver_ContentID v)) dataVersions,
        ddor_StorageCleanups = cleanups\<rparr>)))))))"

definition sameObjectVersionIDs :: "VersionView list \<Rightarrow> string list \<Rightarrow> bool" where
  "sameObjectVersionIDs versions expectedIDs =
     (length versions = length expectedIDs \<and> sort (map ver_VersionID versions) = sort expectedIDs)"

definition deleteDeletedObjectPermanently :: "int list \<Rightarrow> DeleteDeletedObjectInput \<Rightarrow> DeleteDeletedObjectResult SDB" where
  "deleteDeletedObjectPermanently locked input =
     (let b = ddo_BucketID input; k = ddo_Key input; m = ddo_DeleteMarkerVersionID input in
      bindM (sread (\<lambda>d. current_at d b k)) (\<lambda>current. case current of
        None \<Rightarrow> fail ErrNotFound
      | Some current \<Rightarrow> if \<not> ver_IsDeleteMarker current \<or> ver_VersionID current \<noteq> m then fail ErrConflict
        else bindM (selectVersionsByObjectNewestFirst (ver_ObjectID current)) (\<lambda>versions.
          if versions = [] then fail ErrNotFound
          else let versionIDs = map ver_VersionID versions in
            bindM (authoritativeStorageContentsForVersions (filter (\<lambda>v. \<not> ver_IsDeleteMarker v) versions) []) (\<lambda>preliminaryUploads.
            bindM (lock_uploads preliminaryUploads) (\<lambda>lockedUploads.
            bindM (lockCurrentObjectIfExists b k) (\<lambda>_.
            bindM (lockObjectVersionsByID versionIDs) (\<lambda>_.
            bindM (sread (\<lambda>d. current_at d b k)) (\<lambda>current. case current of
              None \<Rightarrow> fail ErrNotFound
            | Some current \<Rightarrow> if \<not> ver_IsDeleteMarker current \<or> ver_VersionID current \<noteq> m then fail ErrConflict
              else bindM (selectVersionsByObjectNewestFirst (ver_ObjectID current)) (\<lambda>versions.
                if \<not> sameObjectVersionIDs versions versionIDs then fail ErrConflict
                else let dataVersions = filter (\<lambda>v. \<not> ver_IsDeleteMarker v) versions in
                  case List.map_filter (\<lambda>v. objectVersionPermanentDeleteStateError (ver_State v)) dataVersions of
                    e # _ \<Rightarrow> fail e
                  | [] \<Rightarrow> bindM (authoritativeStorageContentsForVersions dataVersions []) (\<lambda>currentUploads.
                      if \<not> sameContentIDs preliminaryUploads currentUploads then fail ErrPermanentDeleteStorageBusy
                      else bindM (prepareObjectVersionsForPermanentDelete locked dataVersions lockedUploads) (\<lambda>_.
                        remove_object input (ver_ObjectID current) versions)))))))))))"

definition DeleteDeletedObjectPermanently :: "bool \<Rightarrow> int list \<Rightarrow> DeleteDeletedObjectInput \<Rightarrow> DeleteDeletedObjectResult SDB" where
  "DeleteDeletedObjectPermanently intx locked input =
     (if ddo_BucketID input = 0 \<or> ddo_Key input = '''' \<or> ddo_DeleteMarkerVersionID input = '''' then fail ErrInvalidInput
      else obj_tx intx (deleteDeletedObjectPermanently locked input))"

section \<open>The cache index\<close>

definition clear_presence :: "int \<Rightarrow> unit SDB" where
  "clear_presence cid = bindM now (\<lambda>n. swrite (\<lambda>d. ((), d\<lparr>object_cache := update_where (\<lambda>e. oc_ContentID e = cid)
     (\<lambda>e. e\<lparr>oc_InCache := False, oc_CachePresenceGeneration := oc_CachePresenceGeneration e + 1, oc_UpdatedAt := n\<rparr>)
     (object_cache d)\<rparr>)))"

definition ClearContentCachePresence :: "int \<Rightarrow> unit SDB" where
  "ClearContentCachePresence cid = (if cid < 1 then fail ErrInvalidInput else clear_presence cid)"

definition contentIsUnreferenced :: "int \<Rightarrow> bool SDB" where
  "contentIsUnreferenced cid = sread (\<lambda>d. length (filter (\<lambda>v. ver_ContentID v = Some cid) (object_versions d)) = 0)"

definition ContentIsUnreferenced :: "int \<Rightarrow> bool SDB" where
  "ContentIsUnreferenced cid = (if cid \<le> 0 then fail ErrInvalidInput else contentIsUnreferenced cid)"

text \<open>\<open>release\<close> deletes the cached file; it is an action of its own, whose error is the callback's.\<close>

definition ReleaseContentCacheIfUnreferenced :: "bool \<Rightarrow> int \<Rightarrow> unit SDB option \<Rightarrow> bool SDB" where
  "ReleaseContentCacheIfUnreferenced intx cid release = (case release of
       None \<Rightarrow> fail ErrInvalidInput
     | Some release \<Rightarrow> if cid < 1 then fail ErrInvalidInput
       else obj_tx intx (bindM (catchM (bindM (lockStorageContentsByID [cid]) (\<lambda>rows. ret (Some rows)))
           (\<lambda>e. if errors_is e ErrNotFound then ret None else fail e))
         (\<lambda>contents. case contents of
           None \<Rightarrow> bindM release (\<lambda>_. ret True)
         | Some rows \<Rightarrow> if find (\<lambda>c. cnt_ID c = cid) rows = None then fail ErrNotFound
             else bindM (contentIsUnreferenced cid) (\<lambda>unreferenced.
               if \<not> unreferenced then ret False
               else bindM release (\<lambda>_. bindM (clear_presence cid) (\<lambda>_. ret True))))))"

definition contentIDForVersion :: "string \<Rightarrow> int option SDB" where
  "contentIDForVersion v = bindM (sread (\<lambda>d. find (\<lambda>x. ver_VersionID x = v) (object_versions d)))
     (\<lambda>x. case x of None \<Rightarrow> fail (ErrText ''version not found'') | Some x \<Rightarrow> ret (ver_ContentID x))"

definition SetVersionCachePresence :: "bool \<Rightarrow> string \<Rightarrow> bool \<Rightarrow> unit SDB" where
  "SetVersionCachePresence intx v inCache = obj_tx intx (bindM (contentIDForVersion v)
     (\<lambda>cid. case cid of None \<Rightarrow> ret () | Some cid \<Rightarrow> upsertContentCachePresence cid inCache None))"

text \<open>\<open>NormalizeAccessTime\<close> truncates to microseconds.\<close>

definition NormalizeAccessTime :: "time \<Rightarrow> time" where
  "NormalizeAccessTime t = t - t mod 1000"

definition recordContentCacheAccess :: "bool \<Rightarrow> int \<Rightarrow> time \<Rightarrow> bool \<Rightarrow> unit SDB" where
  "recordContentCacheAccess intx cid accessedAt present = obj_tx intx
     (if cid < 1 then ret ()
      else let normalized = NormalizeAccessTime accessedAt in
        if present then upsertContentCachePresence cid True (Some normalized)
        else bindM now (\<lambda>n. swrite (\<lambda>d. ((), d\<lparr>object_cache := update_where (\<lambda>e. oc_ContentID e = cid)
          (\<lambda>e. e\<lparr>oc_CacheAccessedAt := (case oc_CacheAccessedAt e of None \<Rightarrow> Some normalized
              | Some t \<Rightarrow> Some (if t < normalized then normalized else t)), oc_UpdatedAt := n\<rparr>) (object_cache d)\<rparr>))))"

definition RecordContentCacheAccess :: "bool \<Rightarrow> int \<Rightarrow> time \<Rightarrow> unit SDB" where
  "RecordContentCacheAccess intx cid accessedAt = recordContentCacheAccess intx cid accessedAt False"

definition RecordContentCacheCommit :: "bool \<Rightarrow> int \<Rightarrow> time \<Rightarrow> unit SDB" where
  "RecordContentCacheCommit intx cid accessedAt = recordContentCacheAccess intx cid accessedAt True"

end
