(* ===== verification/Object_Spec.thy ===== *)
theory Object_Spec
  imports Object_Delete
begin

text \<open>
  What the object repository promises, and that the table operations keep it.

  The specification is a versioned store: a key has a current version and a set of versions.
  \<open>abs_objects\<close> reads it off the two tables. \<open>object_spec\<close> says what each operation may do to it;
  the refinement theorem shows that an operation that succeeds does exactly that and one that
  fails does nothing, whatever statements fail and whatever the clock does.
\<close>

section \<open>The specification\<close>

type_synonym object_key = "int \<times> string"
type_synonym abstract_store = "object_key \<Rightarrow> (string option \<times> ObjectVersion set) option"

definition version_key :: "('v ObjectVersion_scheme) \<Rightarrow> object_key" where
  "version_key v = (ver_BucketID v, ver_Key v)"

definition age :: "('v ObjectVersion_scheme) \<Rightarrow> time \<times> string" where
  "age v = (ver_CreatedAt v, ver_VersionID v)"

definition versions_in :: "abstract_store \<Rightarrow> object_key \<Rightarrow> ObjectVersion set" where
  "versions_in st key = (case st key of None \<Rightarrow> {} | Some (_, vs) \<Rightarrow> vs)"

definition is_newest :: "ObjectVersion set \<Rightarrow> string \<Rightarrow> bool" where
  "is_newest vs i = (\<exists>v \<in> vs. ver_VersionID v = i \<and> (\<forall>u \<in> vs. age u \<le> age v))"

text \<open>\<open>records v a\<close>: the stored version \<open>a\<close> is what a caller asked to store with \<open>v\<close>; times left
  zero and an empty content type are filled in. The numeric object id is not part of the
  specification.\<close>

definition records :: "ObjectVersion \<Rightarrow> ObjectVersion \<Rightarrow> bool" where
  "records v a = (ver_VersionID a = ver_VersionID v \<and> version_key a = version_key v \<and>
     ver_ContentID a = ver_ContentID v \<and> ver_Size a = ver_Size v \<and> ver_ETag a = ver_ETag v \<and>
     ver_Metadata a = ver_Metadata v \<and> ver_SystemMetadata a = ver_SystemMetadata v \<and>
     ver_IsDeleteMarker a = ver_IsDeleteMarker v \<and>
     (ver_CreatedAt v \<noteq> 0 \<longrightarrow> ver_CreatedAt a = ver_CreatedAt v) \<and>
     (ver_ContentType v \<noteq> '''' \<longrightarrow> ver_ContentType a = ver_ContentType v))"

definition put_spec :: "ObjectVersion \<Rightarrow> abstract_store \<Rightarrow> abstract_store \<Rightarrow> bool" where
  "put_spec v st st' = (\<exists>a. records v a \<and> ver_VersionID v \<notin> ver_VersionID ` versions_in st (version_key v) \<and>
     st' = st(version_key v \<mapsto> (Some (ver_VersionID v), insert a (versions_in st (version_key v)))))"

definition remove_spec :: "object_key \<Rightarrow> string \<Rightarrow> bool \<Rightarrow> abstract_store \<Rightarrow> abstract_store \<Rightarrow> bool" where
  "remove_spec key i marker st st' = (\<exists>cur vs a. st key = Some (cur, vs) \<and> a \<in> vs \<and> ver_VersionID a = i \<and>
     ver_IsDeleteMarker a = marker \<and>
     (let rest = {u \<in> vs. ver_VersionID u \<noteq> i} in
      if cur \<noteq> Some i then st' = st(key \<mapsto> (cur, rest))
      else if rest = {} then st' = st(key := None)
      else \<exists>j. is_newest rest j \<and> st' = st(key \<mapsto> (Some j, rest))))"

definition restore_spec :: "object_key \<Rightarrow> string \<Rightarrow> abstract_store \<Rightarrow> abstract_store \<Rightarrow> bool" where
  "restore_spec key m st st' = (\<exists>vs t. st key = Some (Some m, vs) \<and>
     t \<in> vs \<and> \<not> ver_IsDeleteMarker t \<and> is_newest {u \<in> vs. \<not> ver_IsDeleteMarker u} (ver_VersionID t) \<and>
     (\<exists>u \<in> vs. ver_VersionID u = m \<and> ver_IsDeleteMarker u) \<and> (\<exists>u \<in> vs. age t < age u) \<and>
     st' = st(key \<mapsto> (Some (ver_VersionID t), {u \<in> vs. age u \<le> age t})))"

definition purge_spec :: "object_key \<Rightarrow> string \<Rightarrow> abstract_store \<Rightarrow> abstract_store \<Rightarrow> bool" where
  "purge_spec key m st st' = (\<exists>vs. st key = Some (Some m, vs) \<and>
     (\<exists>u \<in> vs. ver_VersionID u = m \<and> ver_IsDeleteMarker u) \<and> st' = st(key := None))"

section \<open>The operations\<close>

datatype object_op =
    OpCreate ObjectVersion "ObjectCondition option list"
  | OpCreateIfChanged ObjectVersion
  | OpCreateRestored ObjectVersion string string
  | OpDeleteMarker int string string "ObjectCondition option list"
  | OpDeleteMarkerVersion int string string "ObjectCondition option list"
  | OpRestoreStack int string string
  | OpDeletePermanently "int list" DeleteObjectVersionInput
  | OpPurge "int list" DeleteDeletedObjectInput

fun run_object_op :: "object_op \<Rightarrow> unit SDB" where
  "run_object_op (OpCreate v cs) = bindM (CreateVersionAndSetCurrent False v cs) (\<lambda>_. ret ())"
| "run_object_op (OpCreateIfChanged v) = bindM (CreateVersionAndSetCurrentIfChanged False v) (\<lambda>_. ret ())"
| "run_object_op (OpCreateRestored v s c) = bindM (CreateRestoredVersionAndSetCurrent False v s c) (\<lambda>_. ret ())"
| "run_object_op (OpDeleteMarker b k i cs) = bindM (CreateDeleteMarkerAndSetCurrent False b k i cs) (\<lambda>_. ret ())"
| "run_object_op (OpDeleteMarkerVersion b k i cs) = DeleteMarkerVersion False b k i cs"
| "run_object_op (OpRestoreStack b k i) = bindM (RestoreCurrentDeleteMarkerStack False b k i) (\<lambda>_. ret ())"
| "run_object_op (OpDeletePermanently l inp) = bindM (DeleteObjectVersionPermanently False l inp) (\<lambda>_. ret ())"
| "run_object_op (OpPurge l inp) = bindM (DeleteDeletedObjectPermanently False l inp) (\<lambda>_. ret ())"

fun object_spec :: "object_op \<Rightarrow> abstract_store \<Rightarrow> abstract_store \<Rightarrow> bool" where
  "object_spec (OpCreate v cs) st st' = put_spec (normalizeObjectVersion v) st st'"
| "object_spec (OpCreateIfChanged v) st st' = (st' = st \<or> put_spec (normalizeObjectVersion v) st st')"
| "object_spec (OpCreateRestored v s c) st st' = put_spec v st st'"
| "object_spec (OpDeleteMarker b k i cs) st st' = put_spec (new_marker b k i) st st'"
| "object_spec (OpDeleteMarkerVersion b k i cs) st st' = remove_spec (b, k) i True st st'"
| "object_spec (OpRestoreStack b k i) st st' = restore_spec (b, k) i st st'"
| "object_spec (OpDeletePermanently l inp) st st' = remove_spec (dov_BucketID inp, dov_Key inp) (dov_VersionID inp) False st st'"
| "object_spec (OpPurge l inp) st st' = purge_spec (ddo_BucketID inp, ddo_Key inp) (ddo_DeleteMarkerVersionID inp) st st'"

section \<open>The abstraction\<close>

definition av :: "ObjectVersion \<Rightarrow> ObjectVersion" where
  "av v = v\<lparr>ver_ObjectID := 0\<rparr>"

definition vers :: "storage_db \<Rightarrow> int \<Rightarrow> ObjectVersion set" where
  "vers d i = {v \<in> set (object_versions d). ver_ObjectID v = i}"

definition abs_objects :: "storage_db \<Rightarrow> abstract_store" where
  "abs_objects d key = map_option (\<lambda>ob. (obj_CurrentVersionID ob, av ` vers d (obj_ID ob))) (object_at d (fst key) (snd key))"

definition schema_ok :: "storage_db tables world \<Rightarrow> bool" where
  "schema_ok w = (schema_violation (map task_ID (tasks (db w))) (domain (db w)) = None)"

definition pointers_ok :: "storage_db \<Rightarrow> bool" where
  "pointers_ok d = list_all (\<lambda>ob. obj_CurrentVersionID ob \<noteq> None) (objects d)"

text \<open>A state between two operations: the schema's constraints hold and every object names its
  current version, which the schema alone does not demand.\<close>

definition objects_ok :: "storage_db tables world \<Rightarrow> bool" where
  "objects_ok w = (schema_ok w \<and> pointers_ok (domain (db w)))"

text \<open>What the proofs use of the schema.\<close>

definition obj_wf :: "storage_db \<Rightarrow> bool" where
  "obj_wf d = (distinct (map obj_ID (objects d)) \<and>
     distinct (map (\<lambda>r. (obj_BucketID r, obj_Key r)) (objects d)) \<and>
     distinct (map ver_VersionID (object_versions d)) \<and>
     (\<forall>v \<in> set (object_versions d). \<exists>ob \<in> set (objects d). obj_ID ob = ver_ObjectID v \<and>
        obj_BucketID ob = ver_BucketID v \<and> obj_Key ob = ver_Key v) \<and>
     (\<forall>ob \<in> set (objects d). \<forall>i. obj_CurrentVersionID ob = Some i \<longrightarrow>
        (\<exists>v \<in> set (object_versions d). ver_VersionID v = i \<and> ver_ObjectID v = obj_ID ob)))"

lemma schema_okD:
  assumes "schema_ok w"
  shows "row_checks (domain (db w))" "unique_object_tables (domain (db w))" "unique_storage_tables (domain (db w))"
    "foreign_object_tables (map task_ID (tasks (db w))) (domain (db w))"
  using assms by (simp_all add: schema_ok_def schema_violation_def unique_checks_def split: if_splits)

lemma refersD: "refers k rs ts \<Longrightarrow> r \<in> set rs \<Longrightarrow> k r = Some x \<Longrightarrow> x \<in> set ts"
  by (auto simp: refers_def list_all_iff)

lemma unique_keyD: "unique_key (\<lambda>_. True) k rs \<Longrightarrow> distinct (map k rs)"
  by (simp add: unique_key_def)

lemma schema_ok_wf:
  assumes "schema_ok w"
  shows "obj_wf (domain (db w))"
proof -
  let ?d = "domain (db w)"
  note u = schema_okD(2) [OF assms, unfolded unique_object_tables_def]
  note f = schema_okD(4) [OF assms, unfolded foreign_object_tables_def Let_def]
  have r1: "refers (\<lambda>r. map_option (\<lambda>v. (v, obj_ID r)) (obj_CurrentVersionID r)) (objects ?d)
       (map (\<lambda>v. (ver_VersionID v, ver_ObjectID v)) (object_versions ?d))"
    and r2: "refers (\<lambda>r. Some (ver_ObjectID r, ver_BucketID r, ver_Key r)) (object_versions ?d)
       (map (\<lambda>r. (obj_ID r, obj_BucketID r, obj_Key r)) (objects ?d))" using f by blast+
  have 1: "distinct (map obj_ID (objects ?d))" "distinct (map (\<lambda>r. (obj_BucketID r, obj_Key r)) (objects ?d))"
    "distinct (map ver_VersionID (object_versions ?d))" using u unique_keyD by blast+
  have 2: "\<exists>ob \<in> set (objects ?d). obj_ID ob = ver_ObjectID v \<and> obj_BucketID ob = ver_BucketID v \<and> obj_Key ob = ver_Key v"
    if "v \<in> set (object_versions ?d)" for v using refersD [OF r2 that] by auto
  have 3: "\<exists>v \<in> set (object_versions ?d). ver_VersionID v = i \<and> ver_ObjectID v = obj_ID ob"
    if "ob \<in> set (objects ?d)" "obj_CurrentVersionID ob = Some i" for ob i
    using refersD [OF r1 that(1)] that(2) by auto
  show ?thesis unfolding obj_wf_def using 1 2 3 by blast
qed

lemma obj_wfD:
  assumes "obj_wf d"
  shows "distinct (map obj_ID (objects d))" "distinct (map (\<lambda>r. (obj_BucketID r, obj_Key r)) (objects d))"
    "distinct (map ver_VersionID (object_versions d))"
    "v \<in> set (object_versions d) \<Longrightarrow> \<exists>ob \<in> set (objects d). obj_ID ob = ver_ObjectID v \<and> obj_BucketID ob = ver_BucketID v \<and> obj_Key ob = ver_Key v"
    "ob \<in> set (objects d) \<Longrightarrow> obj_CurrentVersionID ob = Some i \<Longrightarrow>
       \<exists>v \<in> set (object_versions d). ver_VersionID v = i \<and> ver_ObjectID v = obj_ID ob"
  using assms by (simp_all add: obj_wf_def)

section \<open>Lookups in a consistent database\<close>

lemma find_SomeD: "find P xs = Some x \<Longrightarrow> x \<in> set xs \<and> P x"
  by (induction xs) (auto split: if_splits)

lemma find_SomeI:
  assumes "x \<in> set xs" "P x" "\<And>y. y \<in> set xs \<Longrightarrow> P y \<Longrightarrow> y = x"
  shows "find P xs = Some x"
proof (cases "find P xs")
  case None
  with assms(1,2) show ?thesis by (simp add: find_None_iff)
next
  case (Some y)
  with find_SomeD [OF Some] assms(3) [of y] show ?thesis by blast
qed

lemma distinct_map_inj: "distinct (map f xs) \<Longrightarrow> x \<in> set xs \<Longrightarrow> y \<in> set xs \<Longrightarrow> f x = f y \<Longrightarrow> x = y"
  by (metis distinct_map inj_onD)

lemma same_object_key:
  assumes "obj_wf d" "x \<in> set (objects d)" "y \<in> set (objects d)" "obj_BucketID x = obj_BucketID y" "obj_Key x = obj_Key y"
  shows "x = y"
  by (rule distinct_map_inj [OF obj_wfD(2) [OF assms(1)] assms(2,3)]) (simp add: assms)

lemma same_object_id:
  "obj_wf d \<Longrightarrow> x \<in> set (objects d) \<Longrightarrow> y \<in> set (objects d) \<Longrightarrow> obj_ID x = obj_ID y \<Longrightarrow> x = y"
  by (rule distinct_map_inj [OF obj_wfD(1)])

lemma same_version_id:
  "obj_wf d \<Longrightarrow> x \<in> set (object_versions d) \<Longrightarrow> y \<in> set (object_versions d) \<Longrightarrow> ver_VersionID x = ver_VersionID y \<Longrightarrow> x = y"
  by (rule distinct_map_inj [OF obj_wfD(3)])

lemma object_at_iff:
  assumes "obj_wf d"
  shows "(object_at d b k = Some ob) = (ob \<in> set (objects d) \<and> obj_BucketID ob = b \<and> obj_Key ob = k)"
proof
  assume "ob \<in> set (objects d) \<and> obj_BucketID ob = b \<and> obj_Key ob = k"
  then show "object_at d b k = Some ob" unfolding object_at_def
    by (intro find_SomeI) (auto intro: same_object_key [OF assms])
qed (auto simp: object_at_def dest: find_SomeD)

lemma find_object_iff:
  assumes "obj_wf d"
  shows "(find_object d i = Some ob) = (ob \<in> set (objects d) \<and> obj_ID ob = i)"
proof
  assume "ob \<in> set (objects d) \<and> obj_ID ob = i"
  then show "find_object d i = Some ob" unfolding find_object_def
    by (intro find_SomeI) (auto intro: same_object_id [OF assms])
qed (auto simp: find_object_def dest: find_SomeD)

lemma object_at_None: "object_at d b k = None \<longleftrightarrow> (\<forall>ob \<in> set (objects d). (obj_BucketID ob, obj_Key ob) \<noteq> (b, k))"
  by (auto simp: object_at_def find_None_iff)

lemma version_object:
  assumes "obj_wf d" "ob \<in> set (objects d)" "v \<in> set (object_versions d)" "ver_ObjectID v = obj_ID ob"
  shows "version_key v = (obj_BucketID ob, obj_Key ob)"
proof -
  obtain ob' where "ob' \<in> set (objects d)" "obj_ID ob' = ver_ObjectID v" "version_key v = (obj_BucketID ob', obj_Key ob')"
    using obj_wfD(4) [OF assms(1,3)] by (auto simp: version_key_def)
  moreover from this have "ob' = ob" using same_object_id assms by metis
  ultimately show ?thesis by simp
qed

lemma key_object:
  assumes "obj_wf d" "ob \<in> set (objects d)" "v \<in> set (object_versions d)" "version_key v = (obj_BucketID ob, obj_Key ob)"
  shows "ver_ObjectID v = obj_ID ob"
proof -
  obtain ob' where "ob' \<in> set (objects d)" "obj_ID ob' = ver_ObjectID v" "version_key v = (obj_BucketID ob', obj_Key ob')"
    using obj_wfD(4) [OF assms(1,3)] by (auto simp: version_key_def)
  moreover from this assms have "ob' = ob" by (intro same_object_key [OF assms(1)]) auto
  ultimately show ?thesis by simp
qed

lemma project_Some:
  assumes "project d v = Some x"
  shows "ObjectVersion.truncate x = v"
    "\<exists>ob. find_object d (ver_ObjectID v) = Some ob \<and> ver_IsCurrent x = (obj_CurrentVersionID ob = Some (ver_VersionID v))"
  using assms by (auto simp: project_def Let_def ObjectVersion.defs VersionView.defs)

lemma project_total: "obj_wf d \<Longrightarrow> v \<in> set (object_versions d) \<Longrightarrow> \<exists>x. project d v = Some x"
  using obj_wfD(4) [of d v] find_object_iff [of d "ver_ObjectID v"] unfolding project_def by fastforce

lemma truncate_fields [simp]:
  "ver_VersionID (ObjectVersion.truncate x) = ver_VersionID x" "ver_ObjectID (ObjectVersion.truncate x) = ver_ObjectID x"
  "ver_BucketID (ObjectVersion.truncate x) = ver_BucketID x" "ver_Key (ObjectVersion.truncate x) = ver_Key x"
  "ver_ContentID (ObjectVersion.truncate x) = ver_ContentID x" "ver_IsDeleteMarker (ObjectVersion.truncate x) = ver_IsDeleteMarker x"
  "ver_CreatedAt (ObjectVersion.truncate x) = ver_CreatedAt x" "ver_Size (ObjectVersion.truncate x) = ver_Size x"
  "version_key (ObjectVersion.truncate x) = version_key x" "age (ObjectVersion.truncate x) = age x"
  by (simp_all add: ObjectVersion.defs version_key_def age_def)

lemma views_iff: "(x \<in> set (views d)) = (\<exists>v \<in> set (object_versions d). project d v = Some x)"
  by (force simp: views_def List.map_filter_def)

lemma viewD:
  assumes "x \<in> set (views d)"
  shows "ObjectVersion.truncate x \<in> set (object_versions d)"
    "\<exists>ob. find_object d (ver_ObjectID x) = Some ob \<and> ver_IsCurrent x = (obj_CurrentVersionID ob = Some (ver_VersionID x))"
proof -
  obtain v where v: "v \<in> set (object_versions d)" "project d v = Some x" using assms by (auto simp: views_iff)
  from project_Some(1) [OF v(2)] v(1) show "ObjectVersion.truncate x \<in> set (object_versions d)" by simp
  show "\<exists>ob. find_object d (ver_ObjectID x) = Some ob \<and> ver_IsCurrent x = (obj_CurrentVersionID ob = Some (ver_VersionID x))"
    using project_Some(2) [OF v(2)] unfolding project_Some(1) [OF v(2), symmetric] by simp
qed

lemma view_of: "obj_wf d \<Longrightarrow> v \<in> set (object_versions d) \<Longrightarrow> \<exists>x \<in> set (views d). ObjectVersion.truncate x = v"
  using project_total project_Some(1) by (metis views_iff)

lemma version_at_Some:
  assumes "version_at d b k i = Some x"
  shows "x \<in> set (views d)" "version_key x = (b, k)" "ver_VersionID x = i"
  using find_SomeD [OF assms [unfolded version_at_def]] by (auto simp: version_key_def)

lemma current_at_Some:
  assumes "current_at d b k = Some x"
  shows "x \<in> set (views d)" "version_key x = (b, k)" "ver_IsCurrent x"
  using find_SomeD [OF assms [unfolded current_at_def]] by (auto simp: version_key_def)

text \<open>A version a read returns belongs to the object at its key.\<close>

lemma view_object:
  assumes "obj_wf d" "x \<in> set (views d)"
  shows "\<exists>ob. object_at d (ver_BucketID x) (ver_Key x) = Some ob \<and> obj_ID ob = ver_ObjectID x \<and>
    ver_IsCurrent x = (obj_CurrentVersionID ob = Some (ver_VersionID x))"
proof -
  obtain ob where ob: "ob \<in> set (objects d)" "obj_ID ob = ver_ObjectID x"
    "ver_IsCurrent x = (obj_CurrentVersionID ob = Some (ver_VersionID x))"
    using viewD(2) [OF assms(2)] find_object_iff [OF assms(1)] by blast
  have "version_key (ObjectVersion.truncate x) = (obj_BucketID ob, obj_Key ob)"
    by (rule version_object [OF assms(1) ob(1) viewD(1) [OF assms(2)]]) (simp add: ob)
  then have "obj_BucketID ob = ver_BucketID x" "obj_Key ob = ver_Key x" by (auto simp: version_key_def)
  with ob show ?thesis using object_at_iff [OF assms(1)] by blast
qed

section \<open>Changes of the tables\<close>

lemma abs_cong: "objects d' = objects d \<Longrightarrow> object_versions d' = object_versions d \<Longrightarrow> abs_objects d' = abs_objects d"
  by (simp add: abs_objects_def fun_eq_iff object_at_def vers_def)

lemma abs_at:
  "obj_wf d \<Longrightarrow> ob \<in> set (objects d) \<Longrightarrow>
     abs_objects d (obj_BucketID ob, obj_Key ob) = Some (obj_CurrentVersionID ob, av ` vers d (obj_ID ob))"
  using object_at_iff [of d "obj_BucketID ob" "obj_Key ob" ob] by (simp add: abs_objects_def)

lemma abs_SomeD:
  assumes "obj_wf d" "abs_objects d key = Some (c, vs)"
  shows "\<exists>ob \<in> set (objects d). key = (obj_BucketID ob, obj_Key ob) \<and> c = obj_CurrentVersionID ob \<and> vs = av ` vers d (obj_ID ob)"
  using assms by (cases key) (auto simp: abs_objects_def object_at_iff)

lemma abs_insert_version:
  assumes "obj_wf d'" "objects d' = objects d" "object_versions d' = object_versions d @ [r]"
  shows "abs_objects d' = (abs_objects d)(version_key r := map_option (\<lambda>(c, vs). (c, insert (av r) vs)) (abs_objects d (version_key r)))"
proof -
  have r: "r \<in> set (object_versions d')" using assms by simp
  have eq: "object_at d' b k = object_at d b k" for b k by (simp add: object_at_def assms(2))
  have vs: "vers d' i = (if ver_ObjectID r = i then insert r (vers d i) else vers d i)" for i
    using assms(3) by (auto simp: vers_def)
  have "abs_objects d' key = ((abs_objects d)(version_key r := map_option (\<lambda>(c, vs). (c, insert (av r) vs)) (abs_objects d (version_key r)))) key" for key
  proof (cases "object_at d (fst key) (snd key)")
    case None
    then show ?thesis by (auto simp: abs_objects_def eq)
  next
    case (Some ob)
    then have ob: "ob \<in> set (objects d')" "key = (obj_BucketID ob, obj_Key ob)"
      using object_at_iff [OF assms(1)] by (auto simp: eq [symmetric])
    have "(ver_ObjectID r = obj_ID ob) = (version_key r = key)"
      using version_object [OF assms(1) ob(1) r] key_object [OF assms(1) ob(1) r] ob(2) by metis
    with Some show ?thesis by (auto simp: abs_objects_def eq vs)
  qed
  then show ?thesis by blast
qed

lemma find_app: "find P (xs @ ys) = (case find P xs of None \<Rightarrow> find P ys | Some x \<Rightarrow> Some x)"
  by (induction xs) auto

lemma find_map_same: "(\<And>x. P (f x) = P x) \<Longrightarrow> find P (map f xs) = map_option f (find P xs)"
  by (induction xs) auto

lemma abs_update_objects:
  assumes "obj_wf d" "ob \<in> set (objects d)"
    and "objects d' = update_where (\<lambda>o'. obj_ID o' = obj_ID ob) (\<lambda>o'. o'\<lparr>obj_CurrentVersionID := c, obj_UpdatedAt := n\<rparr>) (objects d)"
    and "object_versions d' = object_versions d"
  shows "abs_objects d' = (abs_objects d)((obj_BucketID ob, obj_Key ob) \<mapsto> (c, av ` vers d (obj_ID ob)))"
proof -
  have at: "object_at d' b k = map_option (\<lambda>o'. if obj_ID o' = obj_ID ob then o'\<lparr>obj_CurrentVersionID := c, obj_UpdatedAt := n\<rparr> else o') (object_at d b k)" for b k
    unfolding object_at_def assms(3) update_where_def by (rule find_map_same) auto
  have vs: "vers d' i = vers d i" for i by (simp add: vers_def assms(4))
  have "abs_objects d' key = ((abs_objects d)((obj_BucketID ob, obj_Key ob) \<mapsto> (c, av ` vers d (obj_ID ob)))) key" for key
  proof (cases "object_at d (fst key) (snd key)")
    case None
    then have "key \<noteq> (obj_BucketID ob, obj_Key ob)" using assms(2) by (auto simp: object_at_None)
    with None show ?thesis by (simp add: abs_objects_def at)
  next
    case (Some o')
    then have o': "o' \<in> set (objects d)" "key = (obj_BucketID o', obj_Key o')" using object_at_iff [OF assms(1)] by auto
    have "(obj_ID o' = obj_ID ob) = (key = (obj_BucketID ob, obj_Key ob))"
      using same_object_id [OF assms(1) o'(1) assms(2)] same_object_key [OF assms(1) o'(1) assms(2)] o'(2) by auto
    with Some show ?thesis by (auto simp: abs_objects_def at vs)
  qed
  then show ?thesis by blast
qed

lemma abs_insert_object:
  assumes "obj_wf d" "obj_wf d'" "objects d' = objects d @ [ob]" "object_versions d' = object_versions d" "obj_CurrentVersionID ob = None"
  shows "abs_objects d' = (abs_objects d)((obj_BucketID ob, obj_Key ob) \<mapsto> (None, {}))" "abs_objects d (obj_BucketID ob, obj_Key ob) = None"
proof -
  have new: "object_at d (obj_BucketID ob) (obj_Key ob) = None"
    using obj_wfD(2) [OF assms(2)] assms(3) by (auto simp: object_at_None image_iff)
  then show "abs_objects d (obj_BucketID ob, obj_Key ob) = None" by (simp add: abs_objects_def)
  have at: "object_at d' b k = (if (b, k) = (obj_BucketID ob, obj_Key ob) then Some ob else object_at d b k)" for b k
    using new by (cases "object_at d b k") (auto simp: object_at_def assms(3) find_app)
  have "ver_ObjectID v \<noteq> obj_ID ob" if "v \<in> set (object_versions d)" for v
  proof -
    have "obj_ID ob \<notin> obj_ID ` set (objects d)" using obj_wfD(1) [OF assms(2)] assms(3) by auto
    with obj_wfD(4) [OF assms(1) that] show ?thesis by (metis imageI)
  qed
  then have "vers d' (obj_ID ob) = {}" by (auto simp: vers_def assms(4))
  then show "abs_objects d' = (abs_objects d)((obj_BucketID ob, obj_Key ob) \<mapsto> (None, {}))"
    by (auto simp: fun_eq_iff abs_objects_def at assms(5) vers_def assms(4))
qed

lemma abs_delete_versions:
  assumes "obj_wf d" "ob \<in> set (objects d)" "objects d' = objects d" "object_versions d' = filter (\<lambda>v. \<not> P v) (object_versions d)"
    and "\<And>v. v \<in> set (object_versions d) \<Longrightarrow> P v = (ver_ObjectID v = obj_ID ob \<and> ver_VersionID v \<in> X)"
  shows "abs_objects d' = (abs_objects d)((obj_BucketID ob, obj_Key ob) \<mapsto>
    (obj_CurrentVersionID ob, {u \<in> av ` vers d (obj_ID ob). ver_VersionID u \<notin> X}))"
proof -
  have eq: "object_at d' b k = object_at d b k" for b k by (simp add: object_at_def assms(3))
  have same: "av ` vers d' (obj_ID ob) = {u \<in> av ` vers d (obj_ID ob). ver_VersionID u \<notin> X}"
    using assms(5) by (auto simp: vers_def assms(4) av_def)
  have other: "vers d' i = vers d i" if "i \<noteq> obj_ID ob" for i using that assms(5) by (auto simp: vers_def assms(4))
  have "abs_objects d' key = ((abs_objects d)((obj_BucketID ob, obj_Key ob) \<mapsto>
    (obj_CurrentVersionID ob, {u \<in> av ` vers d (obj_ID ob). ver_VersionID u \<notin> X}))) key" for key
  proof (cases "key = (obj_BucketID ob, obj_Key ob)")
    case True
    moreover have "object_at d (obj_BucketID ob) (obj_Key ob) = Some ob" using object_at_iff [OF assms(1)] assms(2) by blast
    ultimately show ?thesis by (simp add: abs_objects_def eq same)
  next
    case False
    show ?thesis
    proof (cases "object_at d (fst key) (snd key)")
      case (Some o')
      then have "o' \<in> set (objects d)" "key = (obj_BucketID o', obj_Key o')" using object_at_iff [OF assms(1)] by auto
      with False have "obj_ID o' \<noteq> obj_ID ob" using same_object_id [OF assms(1) _ assms(2)] by blast
      with False Some show ?thesis by (simp add: abs_objects_def eq other)
    qed (use False in \<open>simp add: abs_objects_def eq\<close>)
  qed
  then show ?thesis by blast
qed

lemma abs_delete_object:
  assumes "obj_wf d" "ob \<in> set (objects d)" "objects d' = filter (\<lambda>o'. \<not> obj_ID o' = obj_ID ob) (objects d)"
    "object_versions d' = object_versions d"
  shows "abs_objects d' = (abs_objects d)((obj_BucketID ob, obj_Key ob) := None)"
proof -
  have "object_at d' b k = (if (b, k) = (obj_BucketID ob, obj_Key ob) then None else object_at d b k)" for b k
  proof (cases "object_at d b k")
    case None
    then have "object_at d' b k = None" using assms(3) by (auto simp: object_at_None)
    with None show ?thesis by simp
  next
    case (Some o')
    then have o': "o' \<in> set (objects d)" "obj_BucketID o' = b" "obj_Key o' = k" using object_at_iff [OF assms(1)] by auto
    show ?thesis
    proof (cases "(b, k) = (obj_BucketID ob, obj_Key ob)")
      case True
      have "o'' = ob" if "o'' \<in> set (objects d)" "obj_BucketID o'' = b" "obj_Key o'' = k" for o''
        using that True assms(2) by (intro same_object_key [OF assms(1)]) auto
      then show ?thesis using True assms(3) by (auto simp: object_at_None)
    next
      case False
      then have "obj_ID o' \<noteq> obj_ID ob" using same_object_id [OF assms(1) o'(1) assms(2)] o' by auto
      with o' have "object_at d' b k = Some o'"
        unfolding object_at_def assms(3)
        by (intro find_SomeI) (auto intro: same_object_key [OF assms(1)])
      with False Some show ?thesis by simp
    qed
  qed
  then show ?thesis by (auto simp: fun_eq_iff abs_objects_def vers_def assms(4))
qed

end
