(* ===== verification/Object_Refine.thy ===== *)
theory Object_Refine
  imports Object_Spec
begin

text \<open>
  The object operations implement the versioned store of \<open>Object_Spec\<close>. \<open>obj_frame\<close> is the
  relation kept by everything that leaves the two object tables alone; the operations are then
  walked through statement by statement.
\<close>

section \<open>What leaves the object tables alone\<close>

definition obj_frame :: "storage_db tables world \<Rightarrow> storage_db tables world \<Rightarrow> bool" where
  "obj_frame w w' = ((schema_ok w \<longrightarrow> schema_ok w') \<and> objects (domain (db w')) = objects (domain (db w)) \<and>
     object_versions (domain (db w')) = object_versions (domain (db w)))"

interpretation ofr: kept_relation obj_frame
proof unfold_locales
  fix u v w :: "storage_db tables world"
  show "obj_frame u v \<Longrightarrow> obj_frame v w \<Longrightarrow> obj_frame u w" by (simp add: obj_frame_def)
  show "db v = db w \<Longrightarrow> seq w \<le> seq v \<Longrightarrow> clock w \<le> clock v \<Longrightarrow> obj_frame w v" by (simp add: obj_frame_def schema_ok_def)
  show "obj_frame w v \<Longrightarrow> obj_frame w (v\<lparr>db := db w\<rparr>)" by (simp add: obj_frame_def schema_ok_def)
qed

lemma frame_sread [keep]: "keeps obj_frame (sread f)"
  unfolding sread_def by (rule ofr.keeps_query)

lemma frame_twrite:
  assumes "\<And>t. objects (snd (f t)) = objects (domain t)" "\<And>t. object_versions (snd (f t)) = object_versions (domain t)"
  shows "keeps obj_frame (twrite f)"
  by (rule keeps_wp, rule wp_twrite) (auto simp: obj_frame_def schema_ok_def assms)

lemma frame_swrite:
  assumes "\<And>d. objects (snd (f d)) = objects d" "\<And>d. object_versions (snd (f d)) = object_versions d"
  shows "keeps obj_frame (swrite f)"
  unfolding swrite_def by (rule frame_twrite) (auto simp: assms)

lemma frame_update_tasks:
  assumes "\<And>r. task_ID (f r) = task_ID r"
  shows "keeps obj_frame (update_tasks P f)"
proof -
  have "map task_ID (update_where P f ts) = map task_ID ts" for ts by (simp add: update_where_def assms)
  then show ?thesis unfolding update_tasks_def
    by (intro ofr.keeps_stmtE) (auto simp: update_result_def obj_frame_def schema_ok_def split: if_splits)
qed

lemma frame_update_contents [keep]: "keeps obj_frame (update_contents P f)"
  unfolding update_contents_def by (rule frame_swrite) auto

lemma frame_update_copies [keep]: "keeps obj_frame (update_copies P f)"
  unfolding update_copies_def by (rule frame_twrite) auto

lemma frame_update_requests [keep]: "keeps obj_frame (update_requests P f)"
  unfolding update_requests_def by (rule frame_swrite) auto

lemma frame_upsert [keep]: "keeps obj_frame (upsertContentCachePresence c i a)"
  unfolding upsertContentCachePresence_def by (intro keep frame_swrite) auto

lemma frame_freeze [keep]: "keeps obj_frame (freezeRequestedCopiesOnFirstReference c n)"
  unfolding freezeRequestedCopiesOnFirstReference_def by (intro keep)

lemma frame_lock [keep]: "keeps obj_frame (lockStorageContentsByID ids)"
  unfolding lockStorageContentsByID_def by (intro keep)

lemma frame_prepare [keep]: "keeps obj_frame (prepareNewObjectVersionStorageReference v)"
  unfolding prepareNewObjectVersionStorageReference_def bucketCopyPolicyForReference_def by (intro keep)

lemma frame_conditions [keep]: "keeps obj_frame (checkObjectConditions v cs)"
proof -
  have "snd (checkObjectConditions v cs w) = w" for w :: "storage_db tables world"
    by (induction v cs w rule: checkObjectConditions.induct) (auto split: option.splits)
  then show ?thesis by (simp add: keeps_def obj_frame_def)
qed

lemma frame_current_conditions [keep]: "keeps obj_frame (checkCurrentObjectConditions b k cs)"
  unfolding checkCurrentObjectConditions_def GetCurrentVersionByBucketAndKey_def by (intro keep)

lemma frame_lock_object [keep]: "keeps obj_frame (lockCurrentObjectIfExists b k)"
  unfolding lockCurrentObjectIfExists_def by (rule frame_sread)

lemma frame_wake [keep]: "keeps obj_frame (wakeCommitTasks l ids rs)"
  unfolding wakeCommitTasks_def by (intro keep frame_update_tasks) auto

lemma frame_release [keep]: "keeps obj_frame (releaseCollectingCommitMembership l c n)"
  unfolding releaseCollectingCommitMembership_def lockCommitRequest_def requireCommitRows_def countCommitMembers_def
  by (intro keep)

lemma frame_live [keep]: "keeps obj_frame (selectLiveObjectVersionForStorageContent c xs)"
  unfolding selectLiveObjectVersionForStorageContent_def by (intro keep)

lemma frame_cancel [keep]: "keeps obj_frame (cancel_copies l cs)"
proof (induction cs)
  case (Cons c cs)
  then show ?case by (simp only: cancel_copies.simps cancel_copy_def) (intro keep)
qed (simp only: cancel_copies.simps, intro keep)

lemma frame_close [keep]: "keeps obj_frame (close_contents l ids copies cs)"
proof (induction cs)
  case (Cons c cs)
  then show ?case by (simp only: close_contents.simps close_content_def) (intro keep)
qed (simp only: close_contents.simps, intro keep)

lemma frame_prepare_delete [keep]: "keeps obj_frame (prepareObjectVersionsForPermanentDelete l vs m)"
  unfolding prepareObjectVersionsForPermanentDelete_def by (intro keep ofr.keeps_query)

lemma frame_number [keep]: "keeps obj_frame (number_snapshots n cs)"
proof (induction cs)
  case (Cons c cs)
  then show ?case by (simp only: number_snapshots.simps) (intro keep)
qed (simp only: number_snapshots.simps, intro keep)

lemma frame_reserve [keep]: "keeps obj_frame (reserveStorageCleanupForDeletedVersions c ids)"
proof -
  have "keeps obj_frame (insert_snapshots cs)" for cs unfolding insert_snapshots_def by (rule frame_swrite) auto
  moreover have "keeps obj_frame (reserve_generation c n)" for n
    unfolding reserve_generation_def by (rule frame_swrite) (auto simp: Let_def)
  ultimately show ?thesis
    unfolding reserveStorageCleanupForDeletedVersions_def storageCleanupCopySnapshots_def by (intro keep)
qed

lemma frame_insert_deletions [keep]: "keeps obj_frame (insert_deletions ds)"
  unfolding insert_deletions_def by (intro keep frame_swrite) auto

lemma frame_number_deletions [keep]: "keeps obj_frame (number_deletions n vs)"
proof (induction vs)
  case (Cons v vs)
  then show ?case by (simp only: number_deletions.simps) (intro keep)
qed (simp only: number_deletions.simps, intro keep)

lemma frame_reserve_all [keep]: "keeps obj_frame (reserve_all m)"
proof (induction m)
  case (Cons x m)
  then show ?case by (cases x) (simp only: reserve_all.simps, intro keep)
qed (simp only: reserve_all.simps, intro keep)

lemma frame_authoritative [keep]: "keeps obj_frame (authoritativeStorageContentsForVersions vs m)"
proof (induction vs arbitrary: m)
  case (Cons v vs)
  then show ?case
    by (simp only: authoritativeStorageContentsForVersions.simps authoritativeStorageContentForVersion_def) (intro keep)
qed (simp only: authoritativeStorageContentsForVersions.simps, intro keep)

lemma frame_lock_uploads [keep]: "keeps obj_frame (lock_uploads m)"
  unfolding lock_uploads_def by (intro keep)

lemma frame_lock_versions [keep]: "keeps obj_frame (lockObjectVersionsByID ids)"
  unfolding lockObjectVersionsByID_def by (intro keep)

section \<open>Walking through an operation\<close>

text \<open>\<open>holds w d\<close>: the constraints hold and the storage tables are \<open>d\<close>.\<close>

definition holds :: "storage_db tables world \<Rightarrow> storage_db \<Rightarrow> bool" where
  "holds w d = (schema_ok w \<and> domain (db w) = d)"

lemma holds_wf: "holds w d \<Longrightarrow> obj_wf d"
  unfolding holds_def using schema_ok_wf by blast

lemma step_read:
  assumes "holds w d" "\<And>w'. holds w' d \<Longrightarrow> post (g (f d)) Q w'"
  shows "post (bindM (sread f) g) Q w"
  unfolding wp_bind by (rule wp_sread) (use assms in \<open>auto simp: holds_def schema_ok_def\<close>)

lemma step_write:
  assumes "holds w d" "\<And>w'. holds w' (snd (f d)) \<Longrightarrow> post (g (fst (f d))) Q w'"
  shows "post (bindM (swrite f) g) Q w"
  unfolding wp_bind by (rule wp_swrite) (use assms in \<open>auto simp: holds_def schema_ok_def\<close>)

lemma step_now:
  assumes "holds w d" "\<And>n w'. holds w' d \<Longrightarrow> post (g n) Q w'"
  shows "post (bindM now g) Q w"
  unfolding wp_bind by (rule wp_now) (use assms in \<open>auto simp: holds_def schema_ok_def\<close>)

lemma step_seq:
  assumes "holds w d" "\<And>i w'. holds w' d \<Longrightarrow> post (g i) Q w'"
  shows "post (bindM next_seq g) Q w"
  using assms by (auto simp: holds_def schema_ok_def)

lemma step_frame:
  assumes "keeps obj_frame m" "holds w d"
    "\<And>x w' d'. holds w' d' \<Longrightarrow> objects d' = objects d \<Longrightarrow> object_versions d' = object_versions d \<Longrightarrow> post (g x) Q w'"
  shows "post (bindM m g) Q w"
  by (rule post_bind_kept [OF assms(1)]) (use assms(2,3) in \<open>auto simp: holds_def obj_frame_def\<close>)

lemma step_catch: "post (bindM (catchM m (\<lambda>e. fail (h e))) g) Q w = post (bindM m g) Q w"
  by (auto simp: wpM_def bindM_def catchM_def fail_def split: prod.splits sum.splits)

lemma bindM_assoc: "bindM (bindM m f) g = bindM m (\<lambda>x. bindM (f x) g)"
  by (auto simp: bindM_def fun_eq_iff split: prod.splits sum.splits)

lemma bindM_ret: "bindM (ret x) g = g x"
  by (simp add: bindM_def ret_def)

section \<open>Storing a version\<close>

lemma step_store:
  assumes "holds w d" "ob \<in> set (objects d)" "ver_ObjectID r = obj_ID ob"
    and others: "\<And>o'. o' \<in> set (objects d) \<Longrightarrow> obj_ID o' \<noteq> obj_ID ob \<Longrightarrow> obj_CurrentVersionID o' \<noteq> None"
    and cont: "\<And>x w' d'. holds w' d' \<Longrightarrow> pointers_ok d' \<Longrightarrow> version_key r = (obj_BucketID ob, obj_Key ob) \<Longrightarrow>
      ver_VersionID r \<notin> ver_VersionID ` av ` vers d (obj_ID ob) \<Longrightarrow>
      abs_objects d' = (abs_objects d)(version_key r \<mapsto> (Some (ver_VersionID r), insert (av r) (av ` vers d (obj_ID ob)))) \<Longrightarrow>
      post (g x) Q w'"
    and pt: "objects (snd (F (d\<lparr>object_versions := object_versions d @ [r]\<rparr>))) = update_where (\<lambda>o'. obj_ID o' = obj_ID ob)
      (\<lambda>o'. o'\<lparr>obj_CurrentVersionID := Some (ver_VersionID r), obj_UpdatedAt := n\<rparr>) (objects d)"
      "object_versions (snd (F (d\<lparr>object_versions := object_versions d @ [r]\<rparr>))) = object_versions d @ [r]"
  shows "post (bindM (swrite (\<lambda>d. ((), d\<lparr>object_versions := object_versions d @ [r]\<rparr>))) (\<lambda>_. bindM (swrite F) g)) Q w"
proof (rule step_write [OF assms(1)], simp only: fst_conv snd_conv)
  fix w1
  let ?d1 = "d\<lparr>object_versions := object_versions d @ [r]\<rparr>"
  assume w1: "holds w1 ?d1"
  have wf: "obj_wf d" "obj_wf ?d1" using holds_wf assms(1) w1 by blast+
  have key: "version_key r = (obj_BucketID ob, obj_Key ob)"
    using version_object [OF wf(2), of ob r] assms(2,3) by simp
  have fresh: "ver_VersionID r \<notin> ver_VersionID ` av ` vers d (obj_ID ob)"
    using obj_wfD(3) [OF wf(2)] by (auto simp: vers_def av_def)
  have vs: "vers ?d1 (obj_ID ob) = insert r (vers d (obj_ID ob))" using assms(3) by (auto simp: vers_def)
  have ins: "abs_objects ?d1 = (abs_objects d)(version_key r \<mapsto> (obj_CurrentVersionID ob, insert (av r) (av ` vers d (obj_ID ob))))"
    using abs_insert_version [OF wf(2), of d r] abs_at [OF wf(1) assms(2)] key by simp
  show "post (bindM (swrite F) g) Q w1"
  proof (rule step_write [OF w1])
    fix w2
    let ?d2 = "snd (F ?d1)"
    assume w2: "holds w2 ?d2"
    have "abs_objects ?d2 = (abs_objects d)(version_key r \<mapsto> (Some (ver_VersionID r), insert (av r) (av ` vers d (obj_ID ob))))"
      using abs_update_objects [OF wf(2), of ob ?d2] assms(2) ins key vs pt by simp
    moreover have "pointers_ok ?d2" unfolding pointers_ok_def pt using others by (auto simp: list_all_iff update_where_def)
    ultimately show "post (g (fst (F ?d1))) Q w2"
      using cont w2 key fresh by blast
  qed
qed

lemma put_specI:
  assumes "records v (av r)" "version_key r = version_key v" "ver_VersionID r = ver_VersionID v"
    "versions_in st (version_key v) = vs" "ver_VersionID r \<notin> ver_VersionID ` vs"
    "st' = st(version_key r \<mapsto> (Some (ver_VersionID r), insert (av r) vs))"
  shows "put_spec v st st'"
  unfolding put_spec_def using assms by (intro exI [of _ "av r"]) simp

lemma version_key_ObjectID [simp]: "version_key (v\<lparr>ver_ObjectID := i\<rparr>) = version_key v"
  by (simp add: version_key_def)

lemma stamped_fields [simp]:
  "ver_ObjectID (stamped n v) = ver_ObjectID v" "ver_VersionID (stamped n v) = ver_VersionID v"
  "version_key (stamped n v) = version_key v" "ver_ContentType (stamped n v) = ver_ContentType v"
  "ver_ETag (stamped n v) = ver_ETag v"
  by (simp_all add: stamped_def Let_def version_key_def)

text \<open>The row \<open>insertObjectVersion\<close> stores.\<close>

definition stored_row :: "ObjectVersion \<Rightarrow> ObjectVersion" where
  "stored_row v = (if ver_ContentType v = '''' then v\<lparr>ver_ContentType := ''application/octet-stream''\<rparr> else v)"

lemma insert_stored: "insertObjectVersion v = swrite (\<lambda>d. ((), d\<lparr>object_versions := object_versions d @ [stored_row v]\<rparr>))"
  by (simp add: insertObjectVersion_def stored_row_def)

lemma stored_fields [simp]:
  "ver_ObjectID (stored_row v) = ver_ObjectID v" "ver_VersionID (stored_row v) = ver_VersionID v"
  "version_key (stored_row v) = version_key v"
  by (simp_all add: stored_row_def version_key_def)

lemma stored_records: "records v (av (stored_row (stamped n (v\<lparr>ver_ObjectID := i\<rparr>))))"
  by (simp add: records_def av_def stored_row_def stamped_def Let_def version_key_def)

text \<open>The object's identity: the row at the key, or a new one. Its pointer is the only one that may
  be missing.\<close>

definition opened :: "storage_db \<Rightarrow> storage_db \<Rightarrow> Object \<Rightarrow> bool" where
  "opened d d' ob = (ob \<in> set (objects d') \<and>
     (\<forall>o' \<in> set (objects d'). obj_ID o' \<noteq> obj_ID ob \<longrightarrow> obj_CurrentVersionID o' \<noteq> None) \<and>
     versions_in (abs_objects d) (obj_BucketID ob, obj_Key ob) = av ` vers d' (obj_ID ob) \<and>
     (\<forall>x. (abs_objects d')((obj_BucketID ob, obj_Key ob) \<mapsto> x) = (abs_objects d)((obj_BucketID ob, obj_Key ob) \<mapsto> x)))"

lemma opened_existing:
  assumes "obj_wf d" "pointers_ok d" "ob \<in> set (objects d)"
  shows "opened d d ob"
  using assms abs_at [OF assms(1,3)] by (auto simp: opened_def versions_in_def pointers_ok_def list_all_iff)

lemma step_insert_object:
  assumes "holds w d" "pointers_ok d"
    and cont: "\<And>w' d' ob. holds w' d' \<Longrightarrow> opened d d' ob \<Longrightarrow> (obj_BucketID ob, obj_Key ob) = (b, k) \<Longrightarrow> post (g (obj_ID ob)) Q w'"
  shows "post (bindM (insert_object b k n) g) Q w"
  unfolding insert_object_def bindM_assoc bindM_ret
proof (rule step_seq [OF assms(1)], rule step_write, assumption, simp only: fst_conv snd_conv)
  fix i w1
  let ?ob = "\<lparr>obj_ID = i, obj_BucketID = b, obj_Key = k, obj_CurrentVersionID = None, obj_CreatedAt = n, obj_UpdatedAt = n\<rparr>"
  let ?d1 = "d\<lparr>objects := objects d @ [?ob]\<rparr>"
  assume w1: "holds w1 ?d1"
  have wf: "obj_wf d" "obj_wf ?d1" using holds_wf assms(1) w1 by blast+
  note a = abs_insert_object [OF wf, of ?ob, simplified]
  have "vers ?d1 i = {}" using abs_at [OF wf(2), of ?ob] a(1) by simp
  then have "opened d ?d1 ?ob" using assms(2) a by (auto simp: opened_def versions_in_def pointers_ok_def list_all_iff)
  then show "post (g i) Q w1" using cont [OF w1, of ?ob] by simp
qed

lemma step_put_at:
  assumes "holds w d'" "opened d d' ob" "ver_ObjectID r = obj_ID ob" "records v (av r)" "version_key r = version_key v"
    "ver_VersionID r = ver_VersionID v"
    and cont: "\<And>x w2 d2. holds w2 d2 \<Longrightarrow> pointers_ok d2 \<Longrightarrow> put_spec v (abs_objects d) (abs_objects d2) \<Longrightarrow> post (g x) Q w2"
    and pt: "objects (snd (F (d'\<lparr>object_versions := object_versions d' @ [r]\<rparr>))) = update_where (\<lambda>o'. obj_ID o' = obj_ID ob)
      (\<lambda>o'. o'\<lparr>obj_CurrentVersionID := Some (ver_VersionID r), obj_UpdatedAt := n\<rparr>) (objects d')"
      "object_versions (snd (F (d'\<lparr>object_versions := object_versions d' @ [r]\<rparr>))) = object_versions d' @ [r]"
  shows "post (bindM (swrite (\<lambda>d. ((), d\<lparr>object_versions := object_versions d @ [r]\<rparr>))) (\<lambda>_. bindM (swrite F) g)) Q w"
proof (rule step_store [where F = F and n = n, OF assms(1) _ assms(3) _ _ pt])
  show "ob \<in> set (objects d')" using assms(2) by (simp add: opened_def)
  show "o' \<in> set (objects d') \<Longrightarrow> obj_ID o' \<noteq> obj_ID ob \<Longrightarrow> obj_CurrentVersionID o' \<noteq> None" for o'
    using assms(2) by (simp add: opened_def)
  fix x w2 d2
  assume a: "holds w2 d2" "pointers_ok d2" "version_key r = (obj_BucketID ob, obj_Key ob)"
    "ver_VersionID r \<notin> ver_VersionID ` av ` vers d' (obj_ID ob)"
    "abs_objects d2 = (abs_objects d')(version_key r \<mapsto> (Some (ver_VersionID r), insert (av r) (av ` vers d' (obj_ID ob))))"
  have "put_spec v (abs_objects d) (abs_objects d2)"
    by (rule put_specI [OF assms(4-6) _ a(4)]) (use assms(2,5) a(3,5) in \<open>auto simp: opened_def\<close>)
  with a(1,2) show "post (g x) Q w2" by (rule cont)
qed

lemma step_put:
  assumes "holds w d'" "opened d d' ob" "ver_ObjectID r = obj_ID ob" "records v (av r)" "version_key r = version_key v"
    "ver_VersionID r = ver_VersionID v"
    and cont: "\<And>x w2 d2. holds w2 d2 \<Longrightarrow> pointers_ok d2 \<Longrightarrow> put_spec v (abs_objects d) (abs_objects d2) \<Longrightarrow> post (g x) Q w2"
  shows "post (bindM (swrite (\<lambda>d. ((), d\<lparr>object_versions := object_versions d @ [r]\<rparr>)))
    (\<lambda>_. bindM (point_at (obj_ID ob) (Some (ver_VersionID v)) n) g)) Q w"
  unfolding point_at_def update_objects_def
  by (rule step_put_at [OF assms, where n = n]) (simp_all add: assms)

abbreviation puts :: "ObjectVersion \<Rightarrow> storage_db \<Rightarrow> 'a \<Rightarrow> storage_db tables world \<Rightarrow> bool" where
  "puts v d \<equiv> \<lambda>_ w'. \<exists>d'. holds w' d' \<and> pointers_ok d' \<and> put_spec v (abs_objects d) (abs_objects d')"

lemma normalize_key [simp]:
  "version_key (normalizeObjectVersion v) = version_key v" "ver_BucketID (normalizeObjectVersion v) = ver_BucketID v"
  "ver_Key (normalizeObjectVersion v) = ver_Key v" "ver_VersionID (normalizeObjectVersion v) = ver_VersionID v"
  by (simp_all add: normalizeObjectVersion_def version_key_def)

lemma normalize_idem [simp]: "normalizeObjectVersion (normalizeObjectVersion v) = normalizeObjectVersion v"
  by (simp add: normalizeObjectVersion_def)

lemma create_tail:
  assumes "holds w d'" "opened d d' ob"
  shows "post (let version = stamped n (v\<lparr>ver_ObjectID := obj_ID ob\<rparr>) in
      bindM (insertObjectVersion version) (\<lambda>_. bindM (point_at (obj_ID ob) (Some (ver_VersionID version)) n) (\<lambda>_. ret (res version))))
    (puts v d) w"
proof -
  have "ver_VersionID (stamped n (v\<lparr>ver_ObjectID := obj_ID ob\<rparr>)) = ver_VersionID v" by simp
  then show ?thesis unfolding Let_def insert_stored
    by (simp only:) (rule step_put [OF assms, where v = v], auto simp: stored_records)
qed

lemma create_from_existing:
  assumes "holds w d" "pointers_ok d" "existing = object_at d (ver_BucketID v) (ver_Key v)"
  shows "post (createVersionAndSetCurrentFromExisting v existing) (puts (normalizeObjectVersion v) d) w"
  unfolding createVersionAndSetCurrentFromExisting_def Let_def [of "normalizeObjectVersion v"] normalize_key
proof (rule step_now [OF assms(1)], cases existing)
  fix n w1
  assume w1: "holds w1 d"
  let ?rest = "\<lambda>i. let version = stamped n ((normalizeObjectVersion v)\<lparr>ver_ObjectID := i\<rparr>) in
      bindM (insertObjectVersion version) (\<lambda>_. bindM (point_at i (Some (ver_VersionID version)) n)
        (\<lambda>_. ret \<lparr>wr_ObjectID = i, wr_VersionID = ver_VersionID version, wr_ETag = ver_ETag version, wr_Created = True\<rparr>))"
  let ?open = "\<lambda>e. case e of None \<Rightarrow> catchM (insert_object (ver_BucketID v) (ver_Key v) n)
          (\<lambda>e. fail (if isUniqueViolation e then ErrWrap ErrConcurrentObjectCreate e else e)) | Some ob \<Rightarrow> ret (obj_ID ob)"
  {
    assume None: "existing = None"
    show "post (bindM (?open existing) ?rest) (puts (normalizeObjectVersion v) d) w1"
      unfolding None option.case step_catch
      by (rule step_insert_object [OF w1 assms(2)]) (rule create_tail)
  next
    fix ob
    assume Some: "existing = Some ob"
    then have ob: "ob \<in> set (objects d)" using assms(3) object_at_iff [OF holds_wf [OF assms(1)]] by metis
    show "post (bindM (?open existing) ?rest) (puts (normalizeObjectVersion v) d) w1"
      unfolding Some option.case bindM_ret
      by (rule create_tail [OF w1 opened_existing [OF holds_wf [OF assms(1)] assms(2) ob]])
  }
qed

section \<open>The create operations\<close>

lemma object_at_cong: "objects d' = objects d \<Longrightarrow> object_at d' b k = object_at d b k"
  by (simp add: object_at_def)

lemma pointers_cong: "objects d' = objects d \<Longrightarrow> pointers_ok d' = pointers_ok d"
  by (simp add: pointers_ok_def)

lemma create_ok:
  assumes "holds w d" "pointers_ok d"
  shows "post (createVersionAndSetCurrent v cs) (puts (normalizeObjectVersion v) d) w"
  unfolding createVersionAndSetCurrent_def Let_def normalize_key
proof (rule step_frame [OF frame_prepare assms(1)], rule step_frame [OF frame_lock_object], assumption,
    rule step_read, assumption, rule step_frame [OF frame_current_conditions], assumption)
  fix w1 w2 w3 w4 and d1 d2 d4 :: storage_db
  assume same: "objects d1 = objects d" "object_versions d1 = object_versions d" "objects d2 = objects d1"
    "object_versions d2 = object_versions d1" "objects d4 = objects d2" "object_versions d4 = object_versions d2"
  assume w4: "holds w4 d4"
  have e: "abs_objects d4 = abs_objects d" by (rule abs_cong) (simp_all add: same)
  have p: "pointers_ok d4" using assms(2) same by (simp add: pointers_ok_def)
  have ex: "object_at d2 (ver_BucketID v) (ver_Key v)
    = object_at d4 (ver_BucketID (normalizeObjectVersion v)) (ver_Key (normalizeObjectVersion v))"
    using object_at_cong [of d4 d2] same by simp
  show "post (bindM (createVersionAndSetCurrentFromExisting (normalizeObjectVersion v) (object_at d2 (ver_BucketID v) (ver_Key v)))
      (\<lambda>r. ret (wr_ObjectID r))) (puts (normalizeObjectVersion v) d) w4"
    unfolding wp_bind by (rule wp_mono [OF create_from_existing [OF w4 p ex]]) (auto simp: e)
qed

lemma create_if_changed_ok:
  assumes "holds w d" "pointers_ok d"
  shows "post (createVersionAndSetCurrentIfChanged v)
    (\<lambda>_ w'. \<exists>d'. holds w' d' \<and> pointers_ok d' \<and>
       (abs_objects d' = abs_objects d \<or> put_spec (normalizeObjectVersion v) (abs_objects d) (abs_objects d'))) w"
  unfolding createVersionAndSetCurrentIfChanged_def Let_def normalize_key
proof (rule step_frame [OF frame_prepare assms(1)], rule step_frame [OF frame_lock_object], assumption, rule step_read, assumption)
  fix w1 w2 w3 and d1 d2 :: storage_db
  assume same: "objects d1 = objects d" "object_versions d1 = object_versions d" "objects d2 = objects d1"
    "object_versions d2 = object_versions d1"
  assume w3: "holds w3 d2"
  let ?n = "normalizeObjectVersion v"
  let ?Q = "\<lambda>_ w'. \<exists>d'. holds w' d' \<and> pointers_ok d' \<and> (abs_objects d' = abs_objects d \<or> put_spec ?n (abs_objects d) (abs_objects d'))"
  have e: "abs_objects d2 = abs_objects d" by (rule abs_cong) (simp_all add: same)
  have p: "pointers_ok d2" using assms(2) same by (simp add: pointers_ok_def)
  have create: "post (createVersionAndSetCurrentFromExisting ?n (object_at d2 (ver_BucketID v) (ver_Key v))) ?Q w'" if "holds w' d2" for w'
    by (rule wp_mono [OF create_from_existing [OF that p]]) (auto simp: e)
  show "post (case object_at d2 (ver_BucketID v) (ver_Key v) of
        None \<Rightarrow> createVersionAndSetCurrentFromExisting ?n None
      | Some ob \<Rightarrow> bindM (sread (\<lambda>d. current_of_object d (obj_ID ob))) (\<lambda>current. case current of
            None \<Rightarrow> createVersionAndSetCurrentFromExisting ?n (Some ob)
          | Some c \<Rightarrow> if objectVersionMatchesVersion c ?n
              then ret \<lparr>wr_ObjectID = obj_ID ob, wr_VersionID = ver_VersionID c, wr_ETag = ver_ETag c, wr_Created = False\<rparr>
              else createVersionAndSetCurrentFromExisting ?n (Some ob))) ?Q w3"
  proof (cases "object_at d2 (ver_BucketID v) (ver_Key v)")
    case None
    with create [OF w3] show ?thesis by simp
  next
    case (Some ob)
    show ?thesis unfolding Some option.case
    proof (rule step_read [OF w3])
      fix w4
      assume w4: "holds w4 d2"
      show "post (case current_of_object d2 (obj_ID ob) of
            None \<Rightarrow> createVersionAndSetCurrentFromExisting ?n (Some ob)
          | Some c \<Rightarrow> if objectVersionMatchesVersion c ?n
              then ret \<lparr>wr_ObjectID = obj_ID ob, wr_VersionID = ver_VersionID c, wr_ETag = ver_ETag c, wr_Created = False\<rparr>
              else createVersionAndSetCurrentFromExisting ?n (Some ob)) ?Q w4"
        using create [OF w4] w4 p e Some by (auto split: option.splits)
    qed
  qed
qed

lemma update_where_cong: "(\<And>x. x \<in> set xs \<Longrightarrow> P x = P' x) \<Longrightarrow> (\<And>x. x \<in> set xs \<Longrightarrow> P' x \<Longrightarrow> f x = f' x) \<Longrightarrow>
    update_where P f xs = update_where P' f' xs"
  by (auto simp: update_where_def)

text \<open>A current version's object and the pointer that names it.\<close>

lemma current_object:
  assumes "obj_wf d" "current_at d b k = Some x"
  shows "\<exists>ob \<in> set (objects d). obj_ID ob = ver_ObjectID x \<and> (obj_BucketID ob, obj_Key ob) = (b, k) \<and>
    obj_CurrentVersionID ob = Some (ver_VersionID x)"
proof -
  note c = current_at_Some [OF assms(2)]
  obtain ob where "object_at d (ver_BucketID x) (ver_Key x) = Some ob" "obj_ID ob = ver_ObjectID x"
    "obj_CurrentVersionID ob = Some (ver_VersionID x)"
    using view_object [OF assms(1) c(1)] c(3) by blast
  then show ?thesis using object_at_iff [OF assms(1)] c(2) by (auto simp: version_key_def)
qed

lemma restored_tail:
  assumes "holds w d" "pointers_ok d" "current_at d (ver_BucketID v) (ver_Key v) = Some c"
  shows "post (bindM (insertObjectVersion (stamped t (v\<lparr>ver_ObjectID := ver_ObjectID c\<rparr>))) (\<lambda>_.
      bindM (update_objects (\<lambda>o'. obj_ID o' = ver_ObjectID c \<and> obj_CurrentVersionID o' = Some (ver_VersionID c))
         (\<lambda>o'. o'\<lparr>obj_CurrentVersionID := Some (ver_VersionID v), obj_UpdatedAt := t\<rparr>)) (\<lambda>rows.
      if rows \<noteq> 1 then fail ErrConflict else ret (ver_ObjectID c)))) (puts v d) w"
proof -
  have wf: "obj_wf d" using holds_wf [OF assms(1)] .
  obtain ob where ob: "ob \<in> set (objects d)" "obj_ID ob = ver_ObjectID c" "obj_CurrentVersionID ob = Some (ver_VersionID c)"
    using current_object [OF wf assms(3)] by blast
  have u: "update_where (\<lambda>o'. obj_ID o' = obj_ID ob \<and> obj_CurrentVersionID o' = Some (ver_VersionID c)) f (objects d)
      = update_where (\<lambda>o'. obj_ID o' = obj_ID ob) f (objects d)" for f
    by (rule update_where_cong [OF _ refl]) (use ob(1,3) same_object_id [OF wf _ ob(1)] in blast)
  show ?thesis unfolding insert_stored update_objects_def ob(2) [symmetric]
    by (rule step_put_at [OF assms(1) opened_existing [OF wf assms(2) ob(1)], where v = v and n = t])
      (auto simp: stored_records u)
qed

lemma create_restored_ok:
  assumes "holds w d" "pointers_ok d" "\<not> ver_IsDeleteMarker v"
  shows "post (createRestoredVersionAndSetCurrent v src cur) (puts v d) w"
proof -
  have n: "normalizeObjectVersion v = v" using assms(3) by (simp add: normalizeObjectVersion_def)
  show ?thesis unfolding createRestoredVersionAndSetCurrent_def Let_def n
  proof (rule step_frame [OF frame_prepare assms(1)], rule step_frame [OF frame_lock_object], assumption,
      rule step_read, assumption, rule post_option [OF post_fail], rule post_if [OF post_fail], rule step_read, assumption,
      rule post_option [OF post_fail], rule post_if [OF post_fail], rule post_if [OF post_fail], rule step_now, assumption)
    fix w6 t source c and d1 d2 :: storage_db
    assume same: "objects d1 = objects d" "object_versions d1 = object_versions d" "objects d2 = objects d1"
      "object_versions d2 = object_versions d1" and c: "current_at d2 (ver_BucketID v) (ver_Key v) = Some c"
      and eq: "\<not> (ver_VersionID c \<noteq> cur \<or> ver_ObjectID c \<noteq> ver_ObjectID source)" and w6: "holds w6 d2"
    have e: "abs_objects d2 = abs_objects d" by (rule abs_cong) (simp_all add: same)
    have p: "pointers_ok d2" using assms(2) same by (simp add: pointers_ok_def)
    have ids: "ver_VersionID c = cur" "ver_ObjectID c = ver_ObjectID source" using eq by simp_all
    show "post (bindM (insertObjectVersion (stamped t (v\<lparr>ver_ObjectID := ver_ObjectID source\<rparr>))) (\<lambda>_.
        bindM (update_objects (\<lambda>o'. obj_ID o' = ver_ObjectID source \<and> obj_CurrentVersionID o' = Some cur)
          (\<lambda>o'. o'\<lparr>obj_CurrentVersionID := Some (ver_VersionID v), obj_UpdatedAt := t\<rparr>)) (\<lambda>rows.
        if rows \<noteq> 1 then fail ErrConflict else ret (ver_ObjectID source)))) (puts v d) w6"
      by (rule restored_tail [OF w6 p c, of t, unfolded ids e])
  qed
qed

section \<open>Delete markers\<close>

lemma opened_touched:
  assumes "obj_wf d" "pointers_ok d" "ob \<in> set (objects d)" "obj_wf d'" "object_versions d' = object_versions d"
    "objects d' = update_where (\<lambda>o'. obj_ID o' = obj_ID ob) (\<lambda>o'. o'\<lparr>obj_UpdatedAt := n\<rparr>) (objects d)"
  shows "opened d d' (ob\<lparr>obj_UpdatedAt := n\<rparr>)"
proof -
  have u: "objects d' = update_where (\<lambda>o'. obj_ID o' = obj_ID ob)
      (\<lambda>o'. o'\<lparr>obj_CurrentVersionID := obj_CurrentVersionID ob, obj_UpdatedAt := n\<rparr>) (objects d)"
    unfolding assms(6)
  proof (rule update_where_cong [OF refl])
    fix x assume "x \<in> set (objects d)" "obj_ID x = obj_ID ob"
    then have "x = ob" using same_object_id [OF assms(1) _ assms(3)] by blast
    then show "x\<lparr>obj_UpdatedAt := n\<rparr> = x\<lparr>obj_CurrentVersionID := obj_CurrentVersionID ob, obj_UpdatedAt := n\<rparr>" by simp
  qed
  have e: "abs_objects d' = abs_objects d"
    using abs_update_objects [OF assms(1,3) u assms(5)] abs_at [OF assms(1,3)] by (simp add: fun_upd_idem)
  have "ob\<lparr>obj_UpdatedAt := n\<rparr> \<in> set (objects d')" using assms(3,6) by (force simp: update_where_def)
  moreover have "pointers_ok d'" using assms(2,6) by (auto simp: pointers_ok_def update_where_def list_all_iff)
  ultimately have "opened d' d' (ob\<lparr>obj_UpdatedAt := n\<rparr>)" by (rule opened_existing [OF assms(4), rotated])
  then show ?thesis using e by (simp add: opened_def)
qed

lemma marker_tail:
  assumes "holds w d'" "opened d d' ob" "m = new_marker b k i" "(obj_BucketID ob, obj_Key ob) = (b, k)"
  shows "post (let marker = stamped n (m\<lparr>ver_ObjectID := obj_ID ob, ver_IsDeleteMarker := True, ver_Size := 0, ver_ETag := '''',
            ver_ContentType := '''', ver_ContentID := None\<rparr>) in
      bindM (swrite (\<lambda>d. ((), d\<lparr>object_versions := object_versions d @
        [marker\<lparr>ver_SystemMetadata := zero_system_metadata, ver_MultipartUploadID := None\<rparr>]\<rparr>))) (\<lambda>_.
      bindM (point_at (obj_ID ob) (Some (ver_VersionID marker)) n) (\<lambda>_. ret marker))) (puts m d) w"
proof -
  let ?mk = "stamped n (m\<lparr>ver_ObjectID := obj_ID ob, ver_IsDeleteMarker := True, ver_Size := 0, ver_ETag := '''',
            ver_ContentType := '''', ver_ContentID := None\<rparr>)"
  have "ver_VersionID ?mk = ver_VersionID m" by simp
  then show ?thesis unfolding Let_def
    by (simp only:) (rule step_put [OF assms(1,2), where v = m],
        auto simp: records_def av_def stamped_def Let_def version_key_def assms(3) new_marker_def)
qed

lemma delete_marker_ok:
  assumes "holds w d" "pointers_ok d"
  shows "post (createDeleteMarkerAndSetCurrent (new_marker b k i) cs) (puts (new_marker b k i) d) w"
proof -
  let ?m = "new_marker b k i"
  have bk: "ver_BucketID ?m = b" "ver_Key ?m = k" by (simp_all add: new_marker_def)
  show ?thesis unfolding createDeleteMarkerAndSetCurrent_def bk Let_def [of b] Let_def [of k]
  proof (rule step_now [OF assms(1)], rule step_frame [OF frame_lock_object], assumption, rule step_read, assumption,
      rule step_frame [OF frame_current_conditions], assumption)
    fix n w3 w4 and d1 d2 :: storage_db
    assume same: "objects d1 = objects d" "object_versions d1 = object_versions d" "objects d2 = objects d1"
      "object_versions d2 = object_versions d1" and w4: "holds w4 d2"
    have e: "abs_objects d2 = abs_objects d" by (rule abs_cong) (simp_all add: same)
    have puts: "puts ?m d2 = puts ?m d" by (simp add: e)
    have p: "pointers_ok d2" using assms(2) same by (simp add: pointers_ok_def)
    have wf: "obj_wf d2" using holds_wf [OF w4] .
    let ?rest = "\<lambda>i'. let marker = stamped n (?m\<lparr>ver_ObjectID := i', ver_IsDeleteMarker := True, ver_Size := 0, ver_ETag := '''',
            ver_ContentType := '''', ver_ContentID := None\<rparr>) in
      bindM (swrite (\<lambda>d. ((), d\<lparr>object_versions := object_versions d @
        [marker\<lparr>ver_SystemMetadata := zero_system_metadata, ver_MultipartUploadID := None\<rparr>]\<rparr>))) (\<lambda>_.
      bindM (point_at i' (Some (ver_VersionID marker)) n) (\<lambda>_. ret marker))"
    show "post (bindM (case object_at d1 b k of
          None \<Rightarrow> catchM (insert_object b k n) (\<lambda>e. fail (if isUniqueViolation e then ErrWrap ErrConcurrentObjectCreate e else e))
        | Some ob \<Rightarrow> bindM (update_objects (\<lambda>o'. obj_ID o' = obj_ID ob) (\<lambda>o'. o'\<lparr>obj_UpdatedAt := n\<rparr>)) (\<lambda>_. ret (obj_ID ob))) ?rest)
      (puts ?m d) w4"
      unfolding puts [symmetric]
    proof (cases "object_at d1 b k")
      case None
      show "post (bindM (case object_at d1 b k of
          None \<Rightarrow> catchM (insert_object b k n) (\<lambda>e. fail (if isUniqueViolation e then ErrWrap ErrConcurrentObjectCreate e else e))
        | Some ob \<Rightarrow> bindM (update_objects (\<lambda>o'. obj_ID o' = obj_ID ob) (\<lambda>o'. o'\<lparr>obj_UpdatedAt := n\<rparr>)) (\<lambda>_. ret (obj_ID ob))) ?rest)
      (puts ?m d2) w4"
        unfolding None option.case step_catch
        by (rule step_insert_object [OF w4 p]) (rule marker_tail, assumption+, rule refl, assumption)
    next
      case (Some ob)
      then have ob: "ob \<in> set (objects d2)" "(obj_BucketID ob, obj_Key ob) = (b, k)"
        using object_at_iff [OF wf, of b k ob] object_at_cong [of d2 d1 b k] same by auto
      show "post (bindM (case object_at d1 b k of
          None \<Rightarrow> catchM (insert_object b k n) (\<lambda>e. fail (if isUniqueViolation e then ErrWrap ErrConcurrentObjectCreate e else e))
        | Some ob \<Rightarrow> bindM (update_objects (\<lambda>o'. obj_ID o' = obj_ID ob) (\<lambda>o'. o'\<lparr>obj_UpdatedAt := n\<rparr>)) (\<lambda>_. ret (obj_ID ob))) ?rest)
      (puts ?m d2) w4"
        unfolding Some option.case bindM_assoc bindM_ret update_objects_def
      proof (rule step_write [OF w4], simp only: fst_conv snd_conv)
        fix w5
        let ?d5 = "d2\<lparr>objects := update_where (\<lambda>o'. obj_ID o' = obj_ID ob) (\<lambda>o'. o'\<lparr>obj_UpdatedAt := n\<rparr>) (objects d2)\<rparr>"
        assume w5: "holds w5 ?d5"
        have "opened d2 ?d5 (ob\<lparr>obj_UpdatedAt := n\<rparr>)" by (rule opened_touched [OF wf p ob(1) holds_wf [OF w5]]) simp_all
        from marker_tail [OF w5 this refl, where b = b and k = k and i = i and n = n] ob(2) show "post (?rest (obj_ID ob)) (puts ?m d2) w5" by simp
      qed
    qed
  qed
qed

end
