(* ===== verification/Object_Removals.thy ===== *)
theory Object_Removals
  imports Object_Refine
begin

text \<open>
  The removing half of the refinement: delete markers, permanent deletion of one version, restoring
  a stack of delete markers and emptying a deleted object.
\<close>

section \<open>Newest first\<close>

lemma newest_first_set [simp]: "set (newest_first xs) = set xs"
  by (simp add: newest_first_def)

lemma newest_first_desc: "sorted_wrt (\<lambda>a b. age b \<le> age a) (newest_first xs)"
proof -
  have "newest_first xs = rev (sort_key age xs)"
    unfolding newest_first_def by (rule arg_cong [of _ _ "\<lambda>f. rev (sort_key f xs)"]) (simp add: fun_eq_iff age_def)
  moreover have "sorted (map age (sort_key age xs))" by simp
  ultimately show ?thesis by (simp add: sorted_wrt_rev sorted_wrt_map sorted_map)
qed

lemma newest_first_Cons:
  assumes "newest_first xs = y # ys"
  shows "y \<in> set xs" "u \<in> set xs \<Longrightarrow> age u \<le> age y"
proof -
  have s: "set xs = insert y (set ys)" by (metis assms list.simps(15) newest_first_set)
  then show "y \<in> set xs" by simp
  show "u \<in> set xs \<Longrightarrow> age u \<le> age y" using newest_first_desc [of xs] s unfolding assms by auto
qed

lemma newest_first_Nil: "(newest_first xs = []) = (xs = [])"
  by (metis newest_first_set set_empty2)

lemma age_av [simp]: "age (av v) = age v" "ver_VersionID (av v) = ver_VersionID v" "ver_IsDeleteMarker (av v) = ver_IsDeleteMarker v"
  by (simp_all add: age_def av_def)

lemma vers_views:
  assumes "obj_wf d"
  shows "vers d i = ObjectVersion.truncate ` {x \<in> set (views d). ver_ObjectID x = i}"
proof (rule equalityI; rule subsetI)
  fix v assume v: "v \<in> vers d i"
  then obtain x where "x \<in> set (views d)" "ObjectVersion.truncate x = v" using view_of [OF assms] by (auto simp: vers_def)
  moreover from this v have "ver_ObjectID x = i" by (auto simp: vers_def)
  ultimately show "v \<in> ObjectVersion.truncate ` {x \<in> set (views d). ver_ObjectID x = i}" by blast
next
  fix v assume "v \<in> ObjectVersion.truncate ` {x \<in> set (views d). ver_ObjectID x = i}"
  then show "v \<in> vers d i" using viewD(1) by (auto simp: vers_def)
qed

lemma av_views:
  assumes "obj_wf d"
  shows "av ` vers d i = (\<lambda>x. av (ObjectVersion.truncate x)) ` {x \<in> set (views d). ver_ObjectID x = i}"
  unfolding vers_views [OF assms] by (simp add: image_image)

lemma latest_excluding_None:
  assumes "obj_wf d" "latest_excluding d i v = None"
  shows "{u \<in> av ` vers d i. ver_VersionID u \<noteq> v} = {}"
proof -
  have "newest_first (filter (\<lambda>x. ver_ObjectID x = i \<and> ver_VersionID x \<noteq> v) (views d)) = []"
    using assms(2) by (auto simp: latest_excluding_def split: list.splits)
  then show ?thesis unfolding av_views [OF assms(1)] newest_first_Nil by (auto simp: filter_empty_conv)
qed

lemma latest_excluding_Some:
  assumes "obj_wf d" "latest_excluding d i v = Some x"
  shows "is_newest {u \<in> av ` vers d i. ver_VersionID u \<noteq> v} (ver_VersionID x)"
    "ObjectVersion.truncate x \<in> set (object_versions d)" "ver_ObjectID x = i" "ver_VersionID x \<noteq> v"
proof -
  let ?xs = "filter (\<lambda>x. ver_ObjectID x = i \<and> ver_VersionID x \<noteq> v) (views d)"
  obtain ys where nf: "newest_first ?xs = x # ys"
    using assms(2) by (auto simp: latest_excluding_def split: list.splits)
  have x: "x \<in> set (views d)" "ver_ObjectID x = i" "ver_VersionID x \<noteq> v" using newest_first_Cons(1) [OF nf] by auto
  show "ObjectVersion.truncate x \<in> set (object_versions d)" "ver_ObjectID x = i" "ver_VersionID x \<noteq> v"
    using viewD(1) [OF x(1)] x by auto
  show "is_newest {u \<in> av ` vers d i. ver_VersionID u \<noteq> v} (ver_VersionID x)"
    unfolding is_newest_def av_views [OF assms(1)]
    by (rule bexI [of _ "av (ObjectVersion.truncate x)"]) (use x newest_first_Cons(2) [OF nf] in auto)
qed

section \<open>Removing one version\<close>

lemma filter_ids:
  assumes "obj_wf d" "x \<in> set (views d)" "v \<in> set (object_versions d)"
  shows "(ver_VersionID v = ver_VersionID x) = (ver_ObjectID v = ver_ObjectID x \<and> ver_VersionID v \<in> {ver_VersionID x})"
  using same_version_id [OF assms(1,3) viewD(1) [OF assms(2)]] truncate_fields(1,2) [of x] by (metis singleton_iff)

text \<open>Deleting the row of a version the object does not point at.\<close>

lemma step_delete:
  assumes "holds w d" "x \<in> set (views d)" "ob \<in> set (objects d)" "obj_ID ob = ver_ObjectID x"
    and P: "\<And>v. v \<in> set (object_versions d) \<Longrightarrow> P v = (ver_VersionID v = ver_VersionID x)"
    and cont: "\<And>n w' d'. holds w' d' \<Longrightarrow> objects d' = objects d \<Longrightarrow>
      object_versions d' = filter (\<lambda>v. \<not> P v) (object_versions d) \<Longrightarrow> 
      abs_objects d' = (abs_objects d)((obj_BucketID ob, obj_Key ob) \<mapsto>
        (obj_CurrentVersionID ob, {u \<in> av ` vers d (obj_ID ob). ver_VersionID u \<noteq> ver_VersionID x})) \<Longrightarrow> post (g n) Q w'"
  shows "post (bindM (delete_versions P) g) Q w"
  unfolding delete_versions_def
proof (rule step_write [OF assms(1)], simp only: fst_conv snd_conv)
  fix w'
  let ?d' = "d\<lparr>object_versions := filter (\<lambda>v. \<not> P v) (object_versions d)\<rparr>"
  assume w': "holds w' ?d'"
  have wf: "obj_wf d" using holds_wf [OF assms(1)] .
  have "abs_objects ?d' = (abs_objects d)((obj_BucketID ob, obj_Key ob) \<mapsto>
        (obj_CurrentVersionID ob, {u \<in> av ` vers d (obj_ID ob). ver_VersionID u \<notin> {ver_VersionID x}}))"
  proof (rule abs_delete_versions [OF wf assms(3)])
    show "v \<in> set (object_versions d) \<Longrightarrow> P v = (ver_ObjectID v = obj_ID ob \<and> ver_VersionID v \<in> {ver_VersionID x})" for v
      using P filter_ids [OF wf assms(2)] unfolding assms(4) by blast
  qed simp_all
  then show "post (g (rows_affected P (object_versions d))) Q w'" using cont [OF w'] by simp
qed

lemma view_in_abs:
  assumes "obj_wf d" "x \<in> set (views d)" "ob \<in> set (objects d)" "obj_ID ob = ver_ObjectID x"
  shows "av (ObjectVersion.truncate x) \<in> av ` vers d (obj_ID ob)"
    "abs_objects d (version_key x) = Some (obj_CurrentVersionID ob, av ` vers d (obj_ID ob))"
    "ver_IsCurrent x = (obj_CurrentVersionID ob = Some (ver_VersionID x))"
    "version_key x = (obj_BucketID ob, obj_Key ob)"
proof -
  show "av (ObjectVersion.truncate x) \<in> av ` vers d (obj_ID ob)"
    using viewD(1) [OF assms(2)] assms(4) by (simp add: vers_def)
  obtain ob' where o': "object_at d (ver_BucketID x) (ver_Key x) = Some ob'" "obj_ID ob' = ver_ObjectID x"
    "ver_IsCurrent x = (obj_CurrentVersionID ob' = Some (ver_VersionID x))" using view_object [OF assms(1,2)] by blast
  then have "ob' \<in> set (objects d)" "obj_BucketID ob' = ver_BucketID x" "obj_Key ob' = ver_Key x"
    using object_at_iff [OF assms(1)] by auto
  moreover from this o'(2) assms(3,4) have "ob' = ob" using same_object_id [OF assms(1)] by metis
  ultimately show "version_key x = (obj_BucketID ob, obj_Key ob)"
    "ver_IsCurrent x = (obj_CurrentVersionID ob = Some (ver_VersionID x))" using o'(3) by (simp_all add: version_key_def)
  then show "abs_objects d (version_key x) = Some (obj_CurrentVersionID ob, av ` vers d (obj_ID ob))"
    using abs_at [OF assms(1,3)] by simp
qed

text \<open>Deletion of a version, current or not, up to the identity that may remain empty: \<open>removed\<close>
  relates the database before it to the one after it.\<close>

definition removed :: "storage_db \<Rightarrow> VersionView \<Rightarrow> Object \<Rightarrow> Object \<Rightarrow> storage_db \<Rightarrow> bool" where
  "removed d x ob ob' d' = (ob \<in> set (objects d) \<and> obj_ID ob = ver_ObjectID x \<and> ob' \<in> set (objects d') \<and> obj_ID ob' = ver_ObjectID x \<and>
     version_key x = (obj_BucketID ob', obj_Key ob') \<and>
     obj_CurrentVersionID ob' = (if ver_IsCurrent x
       then map_option ver_VersionID (latest_excluding d (ver_ObjectID x) (ver_VersionID x)) else obj_CurrentVersionID ob) \<and>
     abs_objects d' = (abs_objects d)(version_key x \<mapsto>
       (obj_CurrentVersionID ob', {u \<in> av ` vers d (ver_ObjectID x). ver_VersionID u \<noteq> ver_VersionID x})) \<and>
     (\<forall>o' \<in> set (objects d'). obj_ID o' \<noteq> ver_ObjectID x \<longrightarrow> obj_CurrentVersionID o' \<noteq> None) \<and>
     object_versions d' = filter (\<lambda>v. ver_VersionID v \<noteq> ver_VersionID x) (object_versions d))"

lemma removedD:
  assumes "removed d x ob ob' d'"
  shows "ob \<in> set (objects d)" "obj_ID ob = ver_ObjectID x" "ob' \<in> set (objects d')" "obj_ID ob' = ver_ObjectID x"
    "version_key x = (obj_BucketID ob', obj_Key ob')"
    "obj_CurrentVersionID ob' = (if ver_IsCurrent x
       then map_option ver_VersionID (latest_excluding d (ver_ObjectID x) (ver_VersionID x)) else obj_CurrentVersionID ob)"
    "abs_objects d' = (abs_objects d)(version_key x \<mapsto>
       (obj_CurrentVersionID ob', {u \<in> av ` vers d (ver_ObjectID x). ver_VersionID u \<noteq> ver_VersionID x}))"
    "o' \<in> set (objects d') \<Longrightarrow> obj_ID o' \<noteq> ver_ObjectID x \<Longrightarrow> obj_CurrentVersionID o' \<noteq> None"
    "object_versions d' = filter (\<lambda>v. ver_VersionID v \<noteq> ver_VersionID x) (object_versions d)"
  using assms unfolding removed_def by blast+

lemma step_remove:
  assumes "holds w d" "pointers_ok d" "x \<in> set (views d)"
    and P: "\<And>v. v \<in> set (object_versions d) \<Longrightarrow> P v = (ver_VersionID v = ver_VersionID x)"
    and cont: "\<And>n w' d' ob ob'. holds w' d' \<Longrightarrow> removed d x ob ob' d' \<Longrightarrow> post (g n) Q w'"
  shows "post (bindM (if ver_IsCurrent x then repointObjectAwayFromVersion (ver_ObjectID x) (ver_VersionID x) else ret ())
    (\<lambda>_. bindM (delete_versions P) g)) Q w"
proof -
  have wf: "obj_wf d" using holds_wf [OF assms(1)] .
  obtain ob where ob: "ob \<in> set (objects d)" "obj_ID ob = ver_ObjectID x"
    using viewD(2) [OF assms(3)] find_object_iff [OF wf] by blast
  note vi = view_in_abs [OF wf assms(3) ob]
  have F: "filter (\<lambda>v. \<not> P v) (object_versions d) = filter (\<lambda>v. ver_VersionID v \<noteq> ver_VersionID x) (object_versions d)"
    by (rule filter_cong [OF refl]) (simp add: P)
  show ?thesis
  proof (cases "ver_IsCurrent x")
    case False
    show ?thesis unfolding if_not_P [OF False] bindM_ret
    proof (rule step_delete [OF assms(1,3) ob P])
      fix n w' d'
      assume a: "holds w' d'" "objects d' = objects d" "object_versions d' = filter (\<lambda>v. \<not> P v) (object_versions d)"
        "abs_objects d' = (abs_objects d)((obj_BucketID ob, obj_Key ob) \<mapsto>
          (obj_CurrentVersionID ob, {u \<in> av ` vers d (obj_ID ob). ver_VersionID u \<noteq> ver_VersionID x}))"
      have "removed d x ob ob d'" unfolding removed_def
      proof (intro conjI)
        show "\<forall>o' \<in> set (objects d'). obj_ID o' \<noteq> ver_ObjectID x \<longrightarrow> obj_CurrentVersionID o' \<noteq> None"
          unfolding a(2) using assms(2) by (simp add: pointers_ok_def list_all_iff)
      qed (use ob False a(2-4) F vi(4) in simp_all)
      with a(1) show "post (g n) Q w'" by (rule cont)
    qed assumption
  next
    case True
    let ?c = "map_option ver_VersionID (latest_excluding d (ver_ObjectID x) (ver_VersionID x))"
    show ?thesis unfolding if_P [OF True] repointObjectAwayFromVersion_def bindM_assoc bindM_ret point_at_def update_objects_def
    proof (rule step_read [OF assms(1)], rule step_now, assumption, rule step_write, assumption, simp only: fst_conv snd_conv)
      fix n w1
      let ?d1 = "d\<lparr>objects := update_where (\<lambda>o'. obj_ID o' = ver_ObjectID x)
        (\<lambda>o'. o'\<lparr>obj_CurrentVersionID := ?c, obj_UpdatedAt := n\<rparr>) (objects d)\<rparr>"
      assume w1: "holds w1 ?d1"
      let ?ob = "ob\<lparr>obj_CurrentVersionID := ?c, obj_UpdatedAt := n\<rparr>"
      have ob1: "?ob \<in> set (objects ?d1)" using ob by (force simp: update_where_def)
      have abs1: "abs_objects ?d1 = (abs_objects d)(version_key x \<mapsto> (?c, av ` vers d (obj_ID ob)))"
        using abs_update_objects [OF wf ob(1), of ?d1] ob(2) vi(4) by simp
      have x1: "\<exists>x1 \<in> set (views ?d1). ver_VersionID x1 = ver_VersionID x \<and> ver_ObjectID x1 = ver_ObjectID x"
      proof -
        have "ObjectVersion.truncate x \<in> set (object_versions ?d1)" using viewD(1) [OF assms(3)] by simp
        then obtain x1 where "x1 \<in> set (views ?d1)" "ObjectVersion.truncate x1 = ObjectVersion.truncate x"
          using view_of [OF holds_wf [OF w1]] by blast
        then show ?thesis using truncate_fields(1,2) [of x1] truncate_fields(1,2) [of x] by (intro bexI [of _ x1]) simp_all
      qed
      then obtain x1 where x1: "x1 \<in> set (views ?d1)" "ver_VersionID x1 = ver_VersionID x" "ver_ObjectID x1 = ver_ObjectID x" by blast
      show "post (bindM (delete_versions P) g) Q w1"
      proof (rule step_delete [OF w1 x1(1) ob1], unfold x1)
        show "obj_ID ?ob = ver_ObjectID x" using ob by simp
        show "v \<in> set (object_versions ?d1) \<Longrightarrow> P v = (ver_VersionID v = ver_VersionID x)" for v using P by simp
        fix k w' d'
        assume a: "holds w' d'" "objects d' = objects ?d1" "object_versions d' = filter (\<lambda>v. \<not> P v) (object_versions ?d1)"
          "abs_objects d' = (abs_objects ?d1)((obj_BucketID ?ob, obj_Key ?ob) \<mapsto>
            (obj_CurrentVersionID ?ob, {u \<in> av ` vers ?d1 (obj_ID ?ob). ver_VersionID u \<noteq> ver_VersionID x}))"
        have vs: "vers ?d1 i = vers d i" for i by (simp add: vers_def)
        have "removed d x ob ?ob d'" unfolding removed_def
        proof (intro conjI)
          show "abs_objects d' = (abs_objects d)(version_key x \<mapsto>
              (obj_CurrentVersionID ?ob, {u \<in> av ` vers d (ver_ObjectID x). ver_VersionID u \<noteq> ver_VersionID x}))"
            unfolding a(4) abs1 vs by (simp add: vi(4) ob(2))
          show "?ob \<in> set (objects d')" unfolding a(2) by (rule ob1)
          show "\<forall>o' \<in> set (objects d'). obj_ID o' \<noteq> ver_ObjectID x \<longrightarrow> obj_CurrentVersionID o' \<noteq> None"
            unfolding a(2) using assms(2) by (auto simp: pointers_ok_def list_all_iff update_where_def)
        qed (use ob True a(3) F vi(4) in simp_all)
        with a(1) show "post (g k) Q w'" by (rule cont)
      qed
    qed
  qed
qed

lemma remove_specI:
  assumes "obj_wf d" "x \<in> set (views d)" "ob \<in> set (objects d)" "obj_ID ob = ver_ObjectID x"
    and "if ver_IsCurrent x
      then (let rest = {u \<in> av ` vers d (ver_ObjectID x). ver_VersionID u \<noteq> ver_VersionID x} in
        if rest = {} then st = (abs_objects d)(version_key x := None)
        else \<exists>j. is_newest rest j \<and> st = (abs_objects d)(version_key x \<mapsto> (Some j, rest)))
      else st = (abs_objects d)(version_key x \<mapsto>
        (obj_CurrentVersionID ob, {u \<in> av ` vers d (ver_ObjectID x). ver_VersionID u \<noteq> ver_VersionID x}))"
  shows "remove_spec (version_key x) (ver_VersionID x) (ver_IsDeleteMarker x) (abs_objects d) st"
proof -
  note v = view_in_abs [OF assms(1-4)]
  let ?a = "av (ObjectVersion.truncate x)"
  have "ver_VersionID ?a = ver_VersionID x" "ver_IsDeleteMarker ?a = ver_IsDeleteMarker x" by (simp_all add: av_def)
  moreover have "let rest = {u \<in> av ` vers d (obj_ID ob). ver_VersionID u \<noteq> ver_VersionID x} in
      if obj_CurrentVersionID ob \<noteq> Some (ver_VersionID x) then st = (abs_objects d)(version_key x \<mapsto> (obj_CurrentVersionID ob, rest))
      else if rest = {} then st = (abs_objects d)(version_key x := None)
      else \<exists>j. is_newest rest j \<and> st = (abs_objects d)(version_key x \<mapsto> (Some j, rest))"
    using assms(5) unfolding Let_def v(3) assms(4) if_bool_eq_conj by blast
  ultimately show ?thesis unfolding remove_spec_def using v(1,2) by blast
qed

lemma removed_pointers:
  assumes "removed d x ob ob' d'" "obj_wf d'" "obj_CurrentVersionID ob' \<noteq> None"
  shows "pointers_ok d'"
  unfolding pointers_ok_def list_all_iff
proof
  fix o' assume o': "o' \<in> set (objects d')"
  note r = removedD [OF assms(1)]
  show "obj_CurrentVersionID o' \<noteq> None"
  proof (cases "obj_ID o' = ver_ObjectID x")
    case True
    then have "o' = ob'" using same_object_id [OF assms(2) o' r(3)] r(4) by simp
    with assms(3) show ?thesis by simp
  qed (rule r(8) [OF o'])
qed

lemma removed_kept:
  assumes "removed d x ob ob' d'" "obj_wf d" "obj_wf d'" "pointers_ok d" "x \<in> set (views d)"
    and "\<not> ver_IsCurrent x \<or> latest_excluding d (ver_ObjectID x) (ver_VersionID x) \<noteq> None"
  shows "pointers_ok d'" "remove_spec (version_key x) (ver_VersionID x) (ver_IsDeleteMarker x) (abs_objects d) (abs_objects d')"
proof -
  note r = removedD [OF assms(1)]
  have "obj_CurrentVersionID ob \<noteq> None" using assms(4) r(1) by (simp add: pointers_ok_def list_all_iff)
  then have "obj_CurrentVersionID ob' \<noteq> None" unfolding r(6) using assms(6) by simp
  then show "pointers_ok d'" by (rule removed_pointers [OF assms(1,3)])
  show "remove_spec (version_key x) (ver_VersionID x) (ver_IsDeleteMarker x) (abs_objects d) (abs_objects d')"
  proof (rule remove_specI [OF assms(2,5) r(1,2)], cases "ver_IsCurrent x")
    case True
    then obtain y where y: "latest_excluding d (ver_ObjectID x) (ver_VersionID x) = Some y" using assms(6) by blast
    let ?rest = "{u \<in> av ` vers d (ver_ObjectID x). ver_VersionID u \<noteq> ver_VersionID x}"
    have c: "obj_CurrentVersionID ob' = Some (ver_VersionID y)" unfolding r(6) using True y by simp
    have n: "is_newest ?rest (ver_VersionID y)" by (rule latest_excluding_Some(1) [OF assms(2) y])
    moreover from n have "?rest \<noteq> {}" unfolding is_newest_def by blast
    ultimately show "if ver_IsCurrent x then let rest = ?rest in
        if rest = {} then abs_objects d' = (abs_objects d)(version_key x := None)
        else \<exists>j. is_newest rest j \<and> abs_objects d' = (abs_objects d)(version_key x \<mapsto> (Some j, rest))
      else abs_objects d' = (abs_objects d)(version_key x \<mapsto> (obj_CurrentVersionID ob, ?rest))"
      unfolding if_P [OF True] Let_def r(7) c by (simp only: if_False) blast
  next
    case False
    then show "if ver_IsCurrent x then let rest = {u \<in> av ` vers d (ver_ObjectID x). ver_VersionID u \<noteq> ver_VersionID x} in
        if rest = {} then abs_objects d' = (abs_objects d)(version_key x := None)
        else \<exists>j. is_newest rest j \<and> abs_objects d' = (abs_objects d)(version_key x \<mapsto> (Some j, rest))
      else abs_objects d' = (abs_objects d)(version_key x \<mapsto>
        (obj_CurrentVersionID ob, {u \<in> av ` vers d (ver_ObjectID x). ver_VersionID u \<noteq> ver_VersionID x}))"
      unfolding r(7) r(6) by (simp only: if_False)
  qed
qed

lemma removed_emptied:
  assumes "removed d x ob ob' d'" "obj_wf d" "obj_wf d'" "x \<in> set (views d)" "ver_IsCurrent x"
    "latest_excluding d (ver_ObjectID x) (ver_VersionID x) = None"
    and d2: "d2 = d'\<lparr>objects := filter (\<lambda>o'. \<not> obj_ID o' = ver_ObjectID x) (objects d')\<rparr>"
  shows "pointers_ok d2" "remove_spec (version_key x) (ver_VersionID x) (ver_IsDeleteMarker x) (abs_objects d) (abs_objects d2)"
proof -
  note r = removedD [OF assms(1)]
  show "pointers_ok d2" unfolding pointers_ok_def list_all_iff d2 using r(8) by simp
  have "abs_objects d2 = (abs_objects d')((obj_BucketID ob', obj_Key ob') := None)"
    by (rule abs_delete_object [OF assms(3) r(3)]) (simp_all add: d2 r(4))
  then have "abs_objects d2 = (abs_objects d)(version_key x := None)" unfolding r(7) r(5) [symmetric] by simp
  then show "remove_spec (version_key x) (ver_VersionID x) (ver_IsDeleteMarker x) (abs_objects d) (abs_objects d2)"
    by (intro remove_specI [OF assms(2,4) r(1,2)])
      (simp only: if_P [OF assms(5)] Let_def latest_excluding_None [OF assms(2,6)] simp_thms if_True)
qed

lemma removed_count:
  assumes "removed d x ob ob' d'" "obj_wf d"
  shows "(0 < length (filter (\<lambda>v. ver_ObjectID v = ver_ObjectID x) (object_versions d')))
    = (latest_excluding d (ver_ObjectID x) (ver_VersionID x) \<noteq> None)"
proof (cases "latest_excluding d (ver_ObjectID x) (ver_VersionID x)")
  case None
  have "v \<notin> set (object_versions d')" if "ver_ObjectID v = ver_ObjectID x" for v
  proof
    assume "v \<in> set (object_versions d')"
    then have "v \<in> vers d (ver_ObjectID x)" "ver_VersionID v \<noteq> ver_VersionID x"
      unfolding removedD(9) [OF assms(1)] using that by (simp_all add: vers_def)
    then have "av v \<in> {u \<in> av ` vers d (ver_ObjectID x). ver_VersionID u \<noteq> ver_VersionID x}" by (simp add: av_def)
    then show False unfolding latest_excluding_None [OF assms(2) None] by simp
  qed
  then have "filter (\<lambda>v. ver_ObjectID v = ver_ObjectID x) (object_versions d') = []" by (auto simp: filter_empty_conv)
  then show ?thesis using None by simp
next
  case (Some y)
  note l = latest_excluding_Some [OF assms(2) Some]
  have "ObjectVersion.truncate y \<in> set (filter (\<lambda>v. ver_ObjectID v = ver_ObjectID x) (object_versions d'))"
    unfolding removedD(9) [OF assms(1)] using l(2-4) by simp
  from length_pos_if_in_set [OF this] Some show ?thesis by simp
qed

lemma step_identity:
  assumes "holds w d'" "removed d x ob ob' d'" "obj_wf d" "pointers_ok d" "x \<in> set (views d)"
    and cont: "\<And>w2 d2. holds w2 d2 \<Longrightarrow> pointers_ok d2 \<Longrightarrow>
      remove_spec (version_key x) (ver_VersionID x) (ver_IsDeleteMarker x) (abs_objects d) (abs_objects d2) \<Longrightarrow> post (g ()) Q w2"
  shows "post (bindM (if ver_IsCurrent x then deleteObjectIdentityIfEmpty (ver_ObjectID x) else ret ()) g) Q w"
proof (cases "ver_IsCurrent x")
  case False
  have "post (g ()) Q w" by (rule cont [OF assms(1) removed_kept [OF assms(2,3) holds_wf [OF assms(1)] assms(4,5)]]) (simp_all add: False)
  then show ?thesis unfolding if_not_P [OF False] bindM_ret .
next
  case True
  show ?thesis unfolding if_P [OF True] deleteObjectIdentityIfEmpty_def bindM_assoc
  proof (rule step_read [OF assms(1)], unfold removed_count [OF assms(2,3)])
    fix w1 assume w1: "holds w1 d'"
    show "post (bindM (if latest_excluding d (ver_ObjectID x) (ver_VersionID x) \<noteq> None then ret ()
        else bindM (delete_objects (\<lambda>o'. obj_ID o' = ver_ObjectID x)) (\<lambda>_. ret ())) g) Q w1"
    proof (cases "latest_excluding d (ver_ObjectID x) (ver_VersionID x) \<noteq> None")
      case some: True
      have "post (g ()) Q w1" by (rule cont [OF w1 removed_kept [OF assms(2,3) holds_wf [OF assms(1)] assms(4,5)]]) (simp_all add: some)
      then show ?thesis unfolding if_P [OF some] bindM_ret .
    next
      case none: False
      show ?thesis unfolding if_not_P [OF none] bindM_assoc bindM_ret delete_objects_def
      proof (rule step_write [OF w1], simp only: fst_conv snd_conv)
        fix w2
        assume w2: "holds w2 (d'\<lparr>objects := filter (\<lambda>o'. \<not> obj_ID o' = ver_ObjectID x) (objects d')\<rparr>)"
        from none have "latest_excluding d (ver_ObjectID x) (ver_VersionID x) = None" by simp
        from removed_emptied [OF assms(2,3) holds_wf [OF assms(1)] assms(5) True this refl]
        show "post (g ()) Q w2" by (rule cont [OF w2])
      qed
    qed
  qed
qed

end
