(* ===== verification/Object_Operations.thy ===== *)
theory Object_Operations
  imports Object_Removals
begin

text \<open>
  Every operation of the object repository implements its step of the versioned store: the removing
  operations statement by statement, then the transaction and restart around each operation.
\<close>

section \<open>Removing a version, whole operations\<close>

abbreviation removes :: "object_key \<Rightarrow> string \<Rightarrow> bool \<Rightarrow> storage_db \<Rightarrow> 'a \<Rightarrow> storage_db tables world \<Rightarrow> bool" where
  "removes key i marker d \<equiv> \<lambda>_ w'. \<exists>d'. holds w' d' \<and> pointers_ok d' \<and> remove_spec key i marker (abs_objects d) (abs_objects d')"

lemma conditions_same: "snd (checkObjectConditions v cs w) = w"
  by (induction v cs w rule: checkObjectConditions.induct) (auto split: option.splits)

lemma step_conditions:
  assumes "post (g ()) Q w"
  shows "post (bindM (checkObjectConditions v cs) g) Q w"
  unfolding wp_bind using assms conditions_same [of v cs w] by (auto simp: wpM_def split: prod.splits sum.splits)

lemma bindM_ret_right: "bindM m ret = m"
  by (auto simp: bindM_def ret_def fun_eq_iff split: prod.splits sum.splits)

lemma delete_marker_version_ok:
  assumes "holds w d" "pointers_ok d"
  shows "post (deleteMarkerVersion b k i cs) (removes (b, k) i True d) w"
  unfolding deleteMarkerVersion_def
proof (rule step_frame [OF frame_lock_object assms(1)], rule step_read, assumption, rule post_option [OF post_fail],
    rule post_if [OF post_fail], rule step_conditions)
  fix w1 w2 x and d1 :: storage_db
  assume same: "objects d1 = objects d" "object_versions d1 = object_versions d"
    and w2: "holds w2 d1" and x: "version_at d1 b k i = Some x" "\<not> \<not> ver_IsDeleteMarker x"
  note at = version_at_Some [OF x(1)]
  have e: "abs_objects d1 = abs_objects d" by (rule abs_cong) (simp_all add: same)
  have p: "pointers_ok d1" using assms(2) same by (simp add: pointers_ok_def)
  have wf: "obj_wf d1" by (rule holds_wf [OF w2])
  have P: "(ver_BucketID v = b \<and> ver_Key v = k \<and> ver_VersionID v = i) = (ver_VersionID v = ver_VersionID x)"
    if "v \<in> set (object_versions d1)" for v
  proof -
    have "ver_VersionID v = ver_VersionID x \<Longrightarrow> version_key v = (b, k)"
      using same_version_id [OF wf that viewD(1) [OF at(1)]] at(2) truncate_fields(1,9) [of x] by metis
    then show ?thesis using at(3) by (auto simp: version_key_def)
  qed
  have m: "ver_IsDeleteMarker x = True" using x(2) by simp
  show "post (bindM (if ver_IsCurrent x then repointObjectAwayFromVersion (ver_ObjectID x) i else ret ()) (\<lambda>_.
      bindM (delete_versions (\<lambda>v. ver_BucketID v = b \<and> ver_Key v = k \<and> ver_VersionID v = i)) (\<lambda>_.
      if ver_IsCurrent x then deleteObjectIdentityIfEmpty (ver_ObjectID x) else ret ()))) (removes (b, k) i True d) w2"
    unfolding at(3) [symmetric]
  proof (rule step_remove [OF w2 p at(1)])
    fix v assume "v \<in> set (object_versions d1)"
    then show "(ver_BucketID v = b \<and> ver_Key v = k \<and> ver_VersionID v = ver_VersionID x) = (ver_VersionID v = ver_VersionID x)"
      using P at(3) by simp
  next
    fix n w3 d3 ob ob'
    assume r: "holds w3 d3" "removed d1 x ob ob' d3"
    have "post (bindM (if ver_IsCurrent x then deleteObjectIdentityIfEmpty (ver_ObjectID x) else ret ()) ret)
        (removes (b, k) (ver_VersionID x) True d) w3"
      by (rule step_identity [OF r wf p at(1)], unfold at(2) m e wp_ret, blast)
    then show "post (if ver_IsCurrent x then deleteObjectIdentityIfEmpty (ver_ObjectID x) else ret ())
        (removes (b, k) (ver_VersionID x) True d) w3" unfolding bindM_ret_right .
  qed
qed

text \<open>The same version, read before other tables changed.\<close>

lemma view_again:
  assumes "obj_wf d'" "objects d' = objects d" "object_versions d' = object_versions d" "x \<in> set (views d)"
  shows "\<exists>x' \<in> set (views d'). ObjectVersion.truncate x' = ObjectVersion.truncate x \<and> ver_IsCurrent x' = ver_IsCurrent x"
proof -
  have "ObjectVersion.truncate x \<in> set (object_versions d')" using viewD(1) [OF assms(4)] assms(3) by simp
  then obtain x' where x': "x' \<in> set (views d')" "ObjectVersion.truncate x' = ObjectVersion.truncate x"
    using view_of [OF assms(1)] by blast
  have f: "find_object d' i = find_object d i" for i by (simp add: find_object_def assms(2))
  have ids: "ver_ObjectID x' = ver_ObjectID x" "ver_VersionID x' = ver_VersionID x"
    using x'(2) truncate_fields(1,2) [of x'] truncate_fields(1,2) [of x] by simp_all
  have "ver_IsCurrent x' = ver_IsCurrent x"
    using viewD(2) [OF x'(1)] viewD(2) [OF assms(4)] unfolding f ids by auto
  with x' show ?thesis by blast
qed

lemma same_view:
  assumes "ObjectVersion.truncate x' = ObjectVersion.truncate x"
  shows "ver_ObjectID x' = ver_ObjectID x" "ver_VersionID x' = ver_VersionID x" "version_key x' = version_key x"
    "ver_IsDeleteMarker x' = ver_IsDeleteMarker x"
  using truncate_fields(1,2,6,9) [of x'] truncate_fields(1,2,6,9) [of x] unfolding assms by simp_all

lemma frame_reserve_version [keep]:
  "keeps obj_frame (case c of None \<Rightarrow> ret None | Some cid \<Rightarrow> reserveStorageCleanupForDeletedVersions cid ids)"
  by (intro keep)

lemma remove_version_ok:
  assumes "holds w d" "pointers_ok d" "y0 \<in> set (views d)" "ObjectVersion.truncate y0 = ObjectVersion.truncate x"
    "ver_IsCurrent y0 = ver_IsCurrent x"
  shows "post (remove_version x) (removes (version_key x) (ver_VersionID x) (ver_IsDeleteMarker x) d) w"
  unfolding remove_version_def
proof (rule step_now [OF assms(1)], rule step_seq, assumption, rule step_frame [OF frame_insert_deletions], assumption,
    rule step_frame [OF frame_reserve_version], assumption)
  fix n i w3 w4 cleanup and d3 d4 :: storage_db
  assume same: "objects d3 = objects d" "object_versions d3 = object_versions d" "objects d4 = objects d3"
    "object_versions d4 = object_versions d3" and w4: "holds w4 d4"
  have s: "objects d4 = objects d" "object_versions d4 = object_versions d" using same by simp_all
  have e: "abs_objects d4 = abs_objects d" by (rule abs_cong [OF s])
  have p: "pointers_ok d4" using assms(2) s by (simp add: pointers_ok_def)
  have wf: "obj_wf d4" by (rule holds_wf [OF w4])
  obtain y where y: "y \<in> set (views d4)" "ObjectVersion.truncate y = ObjectVersion.truncate x" "ver_IsCurrent y = ver_IsCurrent x"
    using view_again [OF wf s assms(3)] assms(4,5) by auto
  note eq = same_view [OF y(2)]
  let ?res = "\<lparr>dovr_DeletionID = i, dovr_ContentID = ver_ContentID x, dovr_StorageCleanup = cleanup\<rparr>"
  show "post (bindM (if ver_IsCurrent x then repointObjectAwayFromVersion (ver_ObjectID x) (ver_VersionID x) else ret ()) (\<lambda>_.
      bindM (delete_versions (\<lambda>v. ver_VersionID v = ver_VersionID x)) (\<lambda>rows.
      if rows = 0 then fail ErrNotFound
      else bindM (if ver_IsCurrent x then deleteObjectIdentityIfEmpty (ver_ObjectID x) else ret ()) (\<lambda>_. ret ?res))))
    (removes (version_key x) (ver_VersionID x) (ver_IsDeleteMarker x) d) w4"
    unfolding eq [symmetric] y(3) [symmetric] e [symmetric]
  proof (rule step_remove [OF w4 p y(1) refl], rule post_if [OF post_fail])
    fix w5 d5 ob ob'
    assume r: "holds w5 d5" "removed d4 y ob ob' d5"
    show "post (bindM (if ver_IsCurrent y then deleteObjectIdentityIfEmpty (ver_ObjectID y) else ret ()) (\<lambda>_. ret ?res))
      (removes (version_key y) (ver_VersionID y) (ver_IsDeleteMarker y) d4) w5"
      by (rule step_identity [OF r wf p y(1)], unfold wp_ret, blast)
  qed
qed

lemma delete_permanently_ok:
  assumes "holds w d" "pointers_ok d"
  shows "post (deleteObjectVersionPermanently l inp) (removes (dov_BucketID inp, dov_Key inp) (dov_VersionID inp) False d) w"
  unfolding deleteObjectVersionPermanently_def Let_def
proof (rule step_read [OF assms(1)], rule post_option [OF post_fail],
    rule step_frame [OF frame_authoritative], assumption, rule step_frame [OF frame_lock_uploads], assumption,
    rule step_frame [OF frame_lock_object], assumption, rule step_frame [OF frame_lock_versions], assumption,
    rule step_read, assumption, rule post_option [OF post_fail], rule post_if [OF post_fail], rule step_conditions,
    rule post_option [rotated, OF post_fail], rule step_frame [OF frame_authoritative], assumption, rule post_if [OF post_fail],
    rule step_frame [OF frame_prepare_delete], assumption)
  fix w8 x and d1 d2 d3 d4 d5 d6 :: storage_db
  let ?key = "(dov_BucketID inp, dov_Key inp)"
  assume same: "objects d1 = objects d" "object_versions d1 = object_versions d" "objects d2 = objects d1"
    "object_versions d2 = object_versions d1" "objects d3 = objects d2" "object_versions d3 = object_versions d2"
    "objects d4 = objects d3" "object_versions d4 = object_versions d3"
    and same': "objects d5 = objects d4" "object_versions d5 = object_versions d4" "objects d6 = objects d5"
    "object_versions d6 = object_versions d5"
    and x: "version_at d4 (dov_BucketID inp) (dov_Key inp) (dov_VersionID inp) = Some x" "\<not> ver_IsDeleteMarker x"
    and w8: "holds w8 d6"
  note at = version_at_Some [OF x(1)]
  have s: "objects d6 = objects d4" "object_versions d6 = object_versions d4" using same' by simp_all
  have e: "abs_objects d6 = abs_objects d" by (rule abs_cong) (simp_all add: same same')
  have p: "pointers_ok d6" using assms(2) same same' by (simp add: pointers_ok_def)
  obtain y where y: "y \<in> set (views d6)" "ObjectVersion.truncate y = ObjectVersion.truncate x" "ver_IsCurrent y = ver_IsCurrent x"
    using view_again [OF holds_wf [OF w8] s at(1)] by blast
  from remove_version_ok [OF w8 p y] x(2) show "post (remove_version x) (removes ?key (dov_VersionID inp) False d) w8"
    unfolding at(2,3) e by simp
qed

section \<open>Restoring a stack of delete markers\<close>

lemma same_row:
  assumes "obj_wf d" "x \<in> set (views d)" "y \<in> set (views d)" "ver_VersionID x = ver_VersionID y"
  shows "ObjectVersion.truncate x = ObjectVersion.truncate y"
  by (rule same_version_id [OF assms(1) viewD(1) [OF assms(2)] viewD(1) [OF assms(3)]]) (simp add: assms(4))

lemma stack_split:
  fixes d :: storage_db
  defines "vs \<equiv> \<lambda>i. av ` vers d i"
  assumes "obj_wf d" "L = newest_first (filter (\<lambda>v. ver_ObjectID v = i) (views d))"
    "dropWhile ver_IsDeleteMarker L = t # B"
  shows "is_newest {u \<in> vs i. \<not> ver_IsDeleteMarker u} (ver_VersionID t)"
    "{u \<in> vs i. ver_VersionID u \<notin> set (map ver_VersionID (takeWhile ver_IsDeleteMarker L))} = {u \<in> vs i. age u \<le> age t}"
    "av (ObjectVersion.truncate t) \<in> vs i" "\<not> ver_IsDeleteMarker t" "t \<in> set (views d)"
    "takeWhile ver_IsDeleteMarker L \<noteq> [] \<Longrightarrow> \<exists>u \<in> vs i. age t < age u"
proof -
  let ?A = "takeWhile ver_IsDeleteMarker L"
  have L: "L = ?A @ t # B" using assms(4) takeWhile_dropWhile_id [of ver_IsDeleteMarker L] by simp
  have setL: "set L = {x \<in> set (views d). ver_ObjectID x = i}" unfolding assms(3) by auto
  have t: "t \<in> set L" by (subst L) simp
  show nt: "\<not> ver_IsDeleteMarker t" using assms(4) hd_dropWhile [of ver_IsDeleteMarker L] by simp
  show "t \<in> set (views d)" using t setL by simp
  have img: "vs i = (\<lambda>x. av (ObjectVersion.truncate x)) ` set L" unfolding vs_def av_views [OF assms(2)] setL by simp
  show "av (ObjectVersion.truncate t) \<in> vs i" unfolding img using t by simp
  have mk: "ver_IsDeleteMarker x" if "x \<in> set ?A" for x using that by (auto dest: set_takeWhileD)
  have "sorted_wrt (\<lambda>a b. age b \<le> age a) L" unfolding assms(3) by (rule newest_first_desc)
  then have desc: "sorted_wrt (\<lambda>a b. age b \<le> age a) (?A @ t # B)" by (simp only: L [symmetric])
  have above: "age t < age x" if "x \<in> set ?A" for x
  proof -
    have "age t \<le> age x" using desc that by (simp add: sorted_wrt_append)
    moreover have "ver_VersionID x \<noteq> ver_VersionID t"
    proof
      assume id: "ver_VersionID x = ver_VersionID t"
      have "x \<in> set (views d)" "t \<in> set (views d)" using set_takeWhileD [OF that] t setL by auto
      from same_row [OF assms(2) this id] have "ObjectVersion.truncate x = ObjectVersion.truncate t" .
      then show False using mk [OF that] nt same_view(4) by blast
    qed
    ultimately show ?thesis by (auto simp: age_def)
  qed
  show "?A \<noteq> [] \<Longrightarrow> \<exists>u \<in> vs i. age t < age u"
  proof -
    assume "?A \<noteq> []"
    then have a: "hd ?A \<in> set ?A" (is "?a \<in> _") by simp
    then have "?a \<in> set L" by (auto dest: set_takeWhileD)
    with above [OF a] show "\<exists>u \<in> vs i. age t < age u" unfolding img by (intro bexI [of _ "av (ObjectVersion.truncate ?a)"]) simp_all
  qed
  have below: "age x \<le> age t" if "x \<in> set (t # B)" for x using desc that by (auto simp: sorted_wrt_append)
  have cases: "x \<in> set L \<Longrightarrow> x \<in> set ?A \<or> x \<in> set (t # B)" for x by (subst (asm) L) auto
  show "is_newest {u \<in> vs i. \<not> ver_IsDeleteMarker u} (ver_VersionID t)"
    unfolding is_newest_def img
  proof (rule bexI [of _ "av (ObjectVersion.truncate t)"], intro conjI ballI)
    fix u assume "u \<in> {u \<in> (\<lambda>x. av (ObjectVersion.truncate x)) ` set L. \<not> ver_IsDeleteMarker u}"
    then obtain x where x: "x \<in> set L" "u = av (ObjectVersion.truncate x)" "\<not> ver_IsDeleteMarker x" by auto
    then have "age x \<le> age t" using cases mk below by blast
    then show "age u \<le> age (av (ObjectVersion.truncate t))" using x(2) by simp
  qed (use t nt in auto)
  show "{u \<in> vs i. ver_VersionID u \<notin> set (map ver_VersionID ?A)} = {u \<in> vs i. age u \<le> age t}"
  proof (rule Collect_cong, rule conj_cong [OF refl])
    fix u assume "u \<in> vs i"
    then obtain x where x: "x \<in> set L" "u = av (ObjectVersion.truncate x)" unfolding img by blast
    then have f: "ver_VersionID u = ver_VersionID x" "age u = age x" by simp_all
    show "(ver_VersionID u \<notin> set (map ver_VersionID ?A)) = (age u \<le> age t)"
    proof (cases "x \<in> set ?A")
      case True
      then show ?thesis using above [OF True] f by auto
    next
      case False
      then have le: "age x \<le> age t" using cases x(1) below by blast
      have "ver_VersionID x \<noteq> ver_VersionID a" if a: "a \<in> set ?A" for a
      proof
        assume id: "ver_VersionID x = ver_VersionID a"
        have "x \<in> set (views d)" "a \<in> set (views d)" using set_takeWhileD [OF a] x(1) setL by auto
        from same_row [OF assms(2) this id] have "ObjectVersion.truncate x = ObjectVersion.truncate a" .
        then have "age x = age a" using truncate_fields(10) by metis
        with above [OF a] le show False by simp
      qed
      then show ?thesis using le f by auto
    qed
  qed
qed

lemma step_point:
  assumes "holds w d" "ob \<in> set (objects d)" "obj_ID ob = i"
    and cont: "\<And>x w' d' ob'. holds w' d' \<Longrightarrow> ob' \<in> set (objects d') \<Longrightarrow> obj_ID ob' = i \<Longrightarrow>
      (obj_BucketID ob', obj_Key ob') = (obj_BucketID ob, obj_Key ob) \<Longrightarrow> obj_CurrentVersionID ob' = c \<Longrightarrow>
      object_versions d' = object_versions d \<Longrightarrow>
      objects d' = update_where (\<lambda>o'. obj_ID o' = i) (\<lambda>o'. o'\<lparr>obj_CurrentVersionID := c, obj_UpdatedAt := n\<rparr>) (objects d) \<Longrightarrow>
      abs_objects d' = (abs_objects d)((obj_BucketID ob, obj_Key ob) \<mapsto> (c, av ` vers d i)) \<Longrightarrow> post (g x) Q w'"
  shows "post (bindM (point_at i c n) g) Q w"
  unfolding point_at_def update_objects_def
proof (rule step_write [OF assms(1)], simp only: fst_conv snd_conv)
  fix w'
  let ?d' = "d\<lparr>objects := update_where (\<lambda>o'. obj_ID o' = i) (\<lambda>o'. o'\<lparr>obj_CurrentVersionID := c, obj_UpdatedAt := n\<rparr>) (objects d)\<rparr>"
  let ?ob = "ob\<lparr>obj_CurrentVersionID := c, obj_UpdatedAt := n\<rparr>"
  assume w': "holds w' ?d'"
  have "?ob \<in> set (objects ?d')" using assms(2,3) by (force simp: update_where_def)
  moreover have "abs_objects ?d' = (abs_objects d)((obj_BucketID ob, obj_Key ob) \<mapsto> (c, av ` vers d i))"
    using abs_update_objects [OF holds_wf [OF assms(1)] assms(2), where d' = ?d' and c = c and n = n] assms(3) by simp
  ultimately show "post (g (rows_affected (\<lambda>o'. obj_ID o' = i) (objects d))) Q w'"
    by (intro cont [OF w', of ?ob]) (simp_all add: assms(3))
qed

lemma restore_stack_ok:
  assumes "holds w d" "pointers_ok d"
  shows "post (restoreCurrentDeleteMarkerStack b k m)
    (\<lambda>_ w'. \<exists>d'. holds w' d' \<and> pointers_ok d' \<and> restore_spec (b, k) m (abs_objects d) (abs_objects d')) w"
  unfolding restoreCurrentDeleteMarkerStack_def selectVersionsByObjectNewestFirst_def
proof (rule step_frame [OF frame_lock_object assms(1)], rule step_read, assumption, rule post_option [OF post_fail],
    rule post_if [OF post_fail], rule step_read, assumption)
  fix w1 x and d1 :: storage_db
  assume same: "objects d1 = objects d" "object_versions d1 = object_versions d"
    and x: "current_at d1 b k = Some x" "\<not> (\<not> ver_IsDeleteMarker x \<or> ver_VersionID x \<noteq> m)" and w1: "holds w1 d1"
  let ?L = "newest_first (filter (\<lambda>v. ver_ObjectID v = ver_ObjectID x) (views d1))"
  let ?ids = "map ver_VersionID (takeWhile ver_IsDeleteMarker ?L)"
  have e: "abs_objects d1 = abs_objects d" by (rule abs_cong) (simp_all add: same)
  have wf: "obj_wf d1" by (rule holds_wf [OF w1])
  obtain ob where ob: "ob \<in> set (objects d1)" "obj_ID ob = ver_ObjectID x" "(obj_BucketID ob, obj_Key ob) = (b, k)"
    "obj_CurrentVersionID ob = Some (ver_VersionID x)" using current_object [OF wf x(1)] by blast
  note at = current_at_Some [OF x(1)] and v = view_in_abs [OF wf current_at_Some(1) [OF x(1)] ob(1,2)]
  show "post (let markerIDs = ?ids in case dropWhile ver_IsDeleteMarker ?L of [] \<Rightarrow> fail ErrNotFound
      | restoreTarget # _ \<Rightarrow> if markerIDs = [] then fail ErrConflict else bindM now (\<lambda>n.
          bindM (point_at (ver_ObjectID x) (Some (ver_VersionID restoreTarget)) n) (\<lambda>_.
          bindM (delete_versions (\<lambda>v. ver_ObjectID v = ver_ObjectID x \<and> ver_VersionID v \<in> set markerIDs)) (\<lambda>_.
          ret (restoreTarget\<lparr>ver_IsCurrent := True\<rparr>)))))
    (\<lambda>_ w'. \<exists>d'. holds w' d' \<and> pointers_ok d' \<and> restore_spec (b, k) m (abs_objects d) (abs_objects d')) w1"
  proof (cases "dropWhile ver_IsDeleteMarker ?L")
    case (Cons t B)
    note st = stack_split [OF wf refl Cons]
    show ?thesis unfolding Cons list.case Let_def
    proof (rule post_if [OF post_fail], rule step_now [OF w1], rule step_point, assumption, rule ob(1), rule ob(2),
        unfold delete_versions_def, rule step_write, assumption, unfold fst_conv snd_conv wp_ret)
      fix n w3 w4 d3 ob'
      assume ne: "\<not> ?ids = []" and d3: "holds w3 d3" "ob' \<in> set (objects d3)" "obj_ID ob' = ver_ObjectID x"
        "(obj_BucketID ob', obj_Key ob') = (obj_BucketID ob, obj_Key ob)" "obj_CurrentVersionID ob' = Some (ver_VersionID t)"
        "object_versions d3 = object_versions d1"
        "objects d3 = update_where (\<lambda>o'. obj_ID o' = ver_ObjectID x)
          (\<lambda>o'. o'\<lparr>obj_CurrentVersionID := Some (ver_VersionID t), obj_UpdatedAt := n\<rparr>) (objects d1)"
        "abs_objects d3 = (abs_objects d1)((obj_BucketID ob, obj_Key ob) \<mapsto> (Some (ver_VersionID t), av ` vers d1 (ver_ObjectID x)))"
      let ?P = "\<lambda>v. ver_ObjectID v = ver_ObjectID x \<and> ver_VersionID v \<in> set ?ids"
      let ?d4 = "d3\<lparr>object_versions := filter (\<lambda>v. \<not> ?P v) (object_versions d3)\<rparr>"
      assume w4: "holds w4 ?d4"
      have vs: "vers d3 i = vers d1 i" for i by (simp add: vers_def d3(6))
      have "abs_objects ?d4 = (abs_objects d3)((obj_BucketID ob', obj_Key ob') \<mapsto>
          (obj_CurrentVersionID ob', {u \<in> av ` vers d3 (obj_ID ob'). ver_VersionID u \<notin> set ?ids}))"
        by (rule abs_delete_versions [OF holds_wf [OF d3(1)] d3(2), where P = ?P]) (simp_all add: d3(3))
      then have a: "abs_objects ?d4 = (abs_objects d)((b, k) \<mapsto> (Some (ver_VersionID t), {u \<in> av ` vers d1 (ver_ObjectID x). age u \<le> age t}))"
        unfolding d3(3,4,5,8) vs ob(3) st(2) e by simp
      have "pointers_ok ?d4" using assms(2) same(1) by (auto simp: pointers_ok_def list_all_iff d3(7) update_where_def)
      moreover have "restore_spec (b, k) m (abs_objects d) (abs_objects ?d4)"
        unfolding restore_spec_def
      proof (intro exI conjI)
        show "abs_objects d (b, k) = Some (Some m, av ` vers d1 (ver_ObjectID x))"
          using v(2) unfolding e at(2) ob(2,4) using x(2) by simp
        show "av (ObjectVersion.truncate t) \<in> av ` vers d1 (ver_ObjectID x)" by (rule st(3))
        show "\<not> ver_IsDeleteMarker (av (ObjectVersion.truncate t))" using st(4) by simp
        show "is_newest {u \<in> av ` vers d1 (ver_ObjectID x). \<not> ver_IsDeleteMarker u} (ver_VersionID (av (ObjectVersion.truncate t)))"
          using st(1) by simp
        show "\<exists>u \<in> av ` vers d1 (ver_ObjectID x). ver_VersionID u = m \<and> ver_IsDeleteMarker u"
          using v(1) x(2) unfolding ob(2) by (intro bexI [of _ "av (ObjectVersion.truncate x)"]) simp_all
        show "\<exists>u \<in> av ` vers d1 (ver_ObjectID x). age (av (ObjectVersion.truncate t)) < age u" using st(6) ne by simp
        show "abs_objects ?d4 = (abs_objects d)((b, k) \<mapsto> (Some (ver_VersionID (av (ObjectVersion.truncate t))),
            {u \<in> av ` vers d1 (ver_ObjectID x). age u \<le> age (av (ObjectVersion.truncate t))}))" unfolding a by simp
      qed
      ultimately show "\<exists>d'. holds w4 d' \<and> pointers_ok d' \<and> restore_spec (b, k) m (abs_objects d) (abs_objects d')" using w4 by blast
    qed
  next
    case Nil
    show ?thesis unfolding Nil list.case Let_def by simp
  qed
qed

lemma remove_object_ok:
  assumes "holds w d" "pointers_ok d" "current_at d' b k = Some x" "ver_IsDeleteMarker x"
    "objects d = objects d'" "object_versions d = object_versions d'" "obj_wf d'"
  shows "post (remove_object inp (ver_ObjectID x) vs)
    (\<lambda>_ w'. \<exists>d2. holds w' d2 \<and> pointers_ok d2 \<and> purge_spec (b, k) (ver_VersionID x) (abs_objects d) (abs_objects d2)) w"
proof -
  let ?i = "ver_ObjectID x"
  obtain ob where ob: "ob \<in> set (objects d')" "obj_ID ob = ?i" "(obj_BucketID ob, obj_Key ob) = (b, k)"
    "obj_CurrentVersionID ob = Some (ver_VersionID x)" using current_object [OF assms(7,3)] by blast
  have e: "abs_objects d' = abs_objects d" by (rule abs_cong) (simp_all add: assms(5,6))
  note v = view_in_abs [OF assms(7) current_at_Some(1) [OF assms(3)] ob(1,2)] and at = current_at_Some [OF assms(3)]
  have spec: "purge_spec (b, k) (ver_VersionID x) (abs_objects d) ((abs_objects d)((b, k) := None))"
    unfolding purge_spec_def
  proof (intro exI conjI)
    show "abs_objects d (b, k) = Some (Some (ver_VersionID x), av ` vers d' (obj_ID ob))" using v(2) unfolding e at(2) ob(4) .
    show "\<exists>u \<in> av ` vers d' (obj_ID ob). ver_VersionID u = ver_VersionID x \<and> ver_IsDeleteMarker u"
      using v(1) assms(4) by (intro bexI [of _ "av (ObjectVersion.truncate x)"]) simp_all
  qed (rule refl)
  have num: "keeps obj_frame (if b then ret () else bindM (number_deletions n xs) insert_deletions)" for b n xs by (intro keep)
  show ?thesis unfolding remove_object_def Let_def
  proof (rule step_now [OF assms(1)], rule step_frame [OF num], assumption, rule step_frame [OF frame_reserve_all], assumption,
      rule step_point, assumption)
    fix n w3 and d1 d3 :: storage_db
    assume same: "objects d1 = objects d" "object_versions d1 = object_versions d" "objects d3 = objects d1"
      "object_versions d3 = object_versions d1"
    show "ob \<in> set (objects d3)" using ob(1) same(1,3) assms(5) by simp
    show "obj_ID ob = ?i" by (rule ob(2))
    have e3: "abs_objects d3 = abs_objects d" by (rule abs_cong) (simp_all add: same)
    fix w4 d4 ob' cl
    assume d4: "holds w4 d4" "ob' \<in> set (objects d4)" "obj_ID ob' = ?i"
      "(obj_BucketID ob', obj_Key ob') = (obj_BucketID ob, obj_Key ob)" "obj_CurrentVersionID ob' = None"
      "object_versions d4 = object_versions d3"
      "objects d4 = update_where (\<lambda>o'. obj_ID o' = ?i) (\<lambda>o'. o'\<lparr>obj_CurrentVersionID := None, obj_UpdatedAt := n\<rparr>) (objects d3)"
      "abs_objects d4 = (abs_objects d3)((obj_BucketID ob, obj_Key ob) \<mapsto> (None, av ` vers d3 ?i))"
    show "post (bindM (delete_versions (\<lambda>v. ver_ObjectID v = ?i)) (\<lambda>_. bindM (delete_objects (\<lambda>o'. obj_ID o' = ?i)) (\<lambda>_. ret (res cl))))
      (\<lambda>_ w'. \<exists>d2. holds w' d2 \<and> pointers_ok d2 \<and> purge_spec (b, k) (ver_VersionID x) (abs_objects d) (abs_objects d2)) w4" for res
      unfolding delete_versions_def delete_objects_def
    proof (rule step_write [OF d4(1)], rule step_write, assumption, unfold fst_conv snd_conv wp_ret)
      fix w5 w6
      let ?d5 = "d4\<lparr>object_versions := filter (\<lambda>v. \<not> ver_ObjectID v = ?i) (object_versions d4)\<rparr>"
      let ?d6 = "?d5\<lparr>objects := filter (\<lambda>o'. \<not> obj_ID o' = ?i) (objects ?d5)\<rparr>"
      assume w5: "holds w5 ?d5" and w6: "holds w6 ?d6"
      have "abs_objects ?d5 = (abs_objects d4)((obj_BucketID ob', obj_Key ob') \<mapsto>
          (obj_CurrentVersionID ob', {u \<in> av ` vers d4 (obj_ID ob'). ver_VersionID u \<notin> UNIV}))"
        by (rule abs_delete_versions [OF holds_wf [OF d4(1)] d4(2), where P = "\<lambda>v. ver_ObjectID v = ?i"]) (simp_all add: d4(3))
      moreover have "abs_objects ?d6 = (abs_objects ?d5)((obj_BucketID ob', obj_Key ob') := None)"
        by (rule abs_delete_object [OF holds_wf [OF w5]]) (simp_all add: d4(2,3))
      ultimately have "abs_objects ?d6 = (abs_objects d)((b, k) := None)" unfolding d4(4,8) ob(3) e3 by simp
      moreover have "pointers_ok ?d6"
        using assms(2) same by (auto simp: pointers_ok_def list_all_iff d4(7) update_where_def)
      ultimately show "\<exists>d2. holds w6 d2 \<and> pointers_ok d2 \<and> purge_spec (b, k) (ver_VersionID x) (abs_objects d) (abs_objects d2)"
        using w6 spec by metis
    qed
  qed
qed

lemma post_errors: "(xs = [] \<Longrightarrow> post m Q w) \<Longrightarrow> post (case xs of [] \<Rightarrow> m | e # _ \<Rightarrow> fail e) Q w"
  by (cases xs) auto

lemma purge_ok:
  assumes "holds w d" "pointers_ok d"
  shows "post (deleteDeletedObjectPermanently l inp) (\<lambda>_ w'. \<exists>d'. holds w' d' \<and> pointers_ok d' \<and>
    purge_spec (ddo_BucketID inp, ddo_Key inp) (ddo_DeleteMarkerVersionID inp) (abs_objects d) (abs_objects d')) w"
  unfolding deleteDeletedObjectPermanently_def Let_def selectVersionsByObjectNewestFirst_def
proof (rule step_read [OF assms(1)], rule post_option [OF post_fail], rule post_if [OF post_fail], rule step_read, assumption,
    rule post_if [OF post_fail], rule step_frame [OF frame_authoritative], assumption, rule step_frame [OF frame_lock_uploads], assumption,
    rule step_frame [OF frame_lock_object], assumption, rule step_frame [OF frame_lock_versions], assumption,
    rule step_read, assumption, rule post_option [OF post_fail], rule post_if [OF post_fail], rule step_read, assumption,
    rule post_if [OF post_fail], rule post_errors, rule step_frame [OF frame_authoritative], assumption, rule post_if [OF post_fail],
    rule step_frame [OF frame_prepare_delete], assumption)
  fix w8 w9 x vs and d1 d2 d3 d4 d5 d6 :: storage_db
  let ?key = "(ddo_BucketID inp, ddo_Key inp)"
  assume same: "objects d1 = objects d" "object_versions d1 = object_versions d" "objects d2 = objects d1"
    "object_versions d2 = object_versions d1" "objects d3 = objects d2" "object_versions d3 = object_versions d2"
    "objects d4 = objects d3" "object_versions d4 = object_versions d3"
    and same': "objects d5 = objects d4" "object_versions d5 = object_versions d4" "objects d6 = objects d5"
    "object_versions d6 = object_versions d5"
    and x: "current_at d4 (ddo_BucketID inp) (ddo_Key inp) = Some x"
      "\<not> (\<not> ver_IsDeleteMarker x \<or> ver_VersionID x \<noteq> ddo_DeleteMarkerVersionID inp)"
    and w8: "holds w8 d4" and w9: "holds w9 d6"
  have e: "abs_objects d6 = abs_objects d" by (rule abs_cong) (simp_all add: same same')
  have p: "pointers_ok d6" using assms(2) same same' by (simp add: pointers_ok_def)
  have x': "ver_IsDeleteMarker x" "ver_VersionID x = ddo_DeleteMarkerVersionID inp" using x(2) by simp_all
  have s: "objects d6 = objects d4" "object_versions d6 = object_versions d4" using same' by simp_all
  show "post (remove_object inp (ver_ObjectID x) (newest_first (filter (\<lambda>v. ver_ObjectID v = ver_ObjectID x) (views d4))))
    (\<lambda>_ w'. \<exists>d'. holds w' d' \<and> pointers_ok d' \<and> purge_spec ?key (ddo_DeleteMarkerVersionID inp) (abs_objects d) (abs_objects d')) w9"
    using remove_object_ok [OF w9 p x(1) x'(1) s holds_wf [OF w8]] unfolding e x'(2) .
qed

section \<open>Transactions and restarts\<close>

lemma obj_tx_outcome:
  assumes "\<And>w1. db w1 = db w \<Longrightarrow> post m Q w1" "\<And>e w1. db w1 = db w \<Longrightarrow> E e w1"
  shows "wpM (obj_tx False m) Q E w"
proof -
  have "wpM m Q (\<lambda>e w'. E e (w'\<lparr>db := db w\<rparr>)) w"
    by (rule wp_mono [OF assms(1) [OF refl]]) (use assms(2) in auto)
  then show ?thesis by (simp add: obj_tx_def)
qed

lemma write_loop_outcome:
  assumes "\<And>w1. db w1 = db w \<Longrightarrow> post m Q w1" "\<And>e w1. db w1 = db w \<Longrightarrow> E e w1"
  shows "wpM (object_write_loop n False m) Q E w"
  using assms
proof (induction n arbitrary: w)
  case 0
  show ?case unfolding object_write_loop.simps [of 0] wp_catch
    by (rule obj_tx_outcome [OF 0(1)]) (use 0(2) in auto)
next
  case (Suc n)
  show ?case unfolding object_write_loop.simps [of "Suc n"] wp_catch
  proof (rule obj_tx_outcome [OF Suc(2)])
    fix e and w1 :: "storage_db tables world"
    assume w1: "db w1 = db w"
    have "wpM ctx_done (\<lambda>x. wpM (if x then fail ErrContext else object_write_loop n False m) Q E) E w1"
    proof (rule wp_ctx_done)
      fix b bs
      have "wpM (object_write_loop n False m) Q E (w1\<lparr>ctx_script := bs\<rparr>)"
        by (rule Suc(1)) (use Suc(2,3) w1 in auto)
      then show "wpM (if b then fail ErrContext else object_write_loop n False m) Q E (w1\<lparr>ctx_script := bs\<rparr>)"
        using Suc(3) w1 by auto
    qed
    then show "wpM (if \<not> shouldRetryObjectWrite e (\<not> False) then fail e else case Suc n of 0 \<Rightarrow> fail e
        | Suc k \<Rightarrow> bindM ctx_done (\<lambda>d. if d then fail ErrContext else object_write_loop k False m)) Q E w1"
      using Suc(3) [OF w1] by simp
  qed simp_all
qed

section \<open>The refinement\<close>

text \<open>An operation, whatever its outcome: success is a step of the specification, failure leaves the
  database as it was.\<close>

abbreviation refines :: "object_op \<Rightarrow> storage_db tables world \<Rightarrow> bool" where
  "refines op w \<equiv> wpM (run_object_op op) (\<lambda>_ w'. objects_ok w' \<and>
     object_spec op (abs_objects (domain (db w))) (abs_objects (domain (db w')))) (\<lambda>_ w'. db w' = db w) w"

lemma objects_ok_holds: "objects_ok w \<Longrightarrow> holds w (domain (db w)) \<and> pointers_ok (domain (db w))"
  by (simp add: objects_ok_def holds_def)

lemma objects_ok_db: "db w1 = db w \<Longrightarrow> objects_ok w \<Longrightarrow> holds w1 (domain (db w)) \<and> pointers_ok (domain (db w))"
  by (simp add: objects_ok_def holds_def schema_ok_def)

lemma holds_objects_ok:
  "(\<exists>d'. holds w' d' \<and> pointers_ok d' \<and> R (abs_objects d')) \<Longrightarrow> objects_ok w' \<and> R (abs_objects (domain (db w')))"
  by (auto simp: holds_def objects_ok_def)

lemma wp_then_unit: "wpM m (\<lambda>_. Q) E w \<Longrightarrow> wpM (bindM m (\<lambda>_. ret ())) (\<lambda>_. Q) E w"
  unfolding wp_bind by (erule wp_mono) auto

lemma refine_loop:
  assumes "objects_ok w"
    and "\<And>w1. holds w1 (domain (db w)) \<Longrightarrow> post m (\<lambda>_ w'. \<exists>d'. holds w' d' \<and> pointers_ok d' \<and> R (abs_objects d')) w1"
  shows "wpM (object_write_loop 19 False m) (\<lambda>_ w'. objects_ok w' \<and> R (abs_objects (domain (db w')))) (\<lambda>_ w'. db w' = db w) w"
  by (rule write_loop_outcome, rule wp_mono [OF assms(2)]) (use objects_ok_db assms(1) holds_objects_ok in blast)+

lemma refine_tx:
  assumes "objects_ok w"
    and "\<And>w1. holds w1 (domain (db w)) \<Longrightarrow> post m (\<lambda>_ w'. \<exists>d'. holds w' d' \<and> pointers_ok d' \<and> R (abs_objects d')) w1"
  shows "wpM (obj_tx False m) (\<lambda>_ w'. objects_ok w' \<and> R (abs_objects (domain (db w')))) (\<lambda>_ w'. db w' = db w) w"
  by (rule obj_tx_outcome, rule wp_mono [OF assms(2)]) (use objects_ok_db assms(1) holds_objects_ok in blast)+

lemma refine_guard:
  "wpM m Q (\<lambda>_ w'. db w' = db w) w \<Longrightarrow> wpM (if b then fail e else m) Q (\<lambda>_ w'. db w' = db w) w"
  by simp

lemma object_op_refines:
  assumes "objects_ok w"
  shows "refines op w"
proof -
  note ok = conjunct2 [OF objects_ok_holds [OF assms]]
  show ?thesis
  proof (cases op)
    case (OpCreate v cs)
    show ?thesis unfolding OpCreate run_object_op.simps object_spec.simps CreateVersionAndSetCurrent_def
      by (rule wp_then_unit, rule refine_loop [OF assms], rule create_ok [OF _ ok])
  next
    case (OpCreateIfChanged v)
    show ?thesis unfolding OpCreateIfChanged run_object_op.simps object_spec.simps CreateVersionAndSetCurrentIfChanged_def
      by (rule wp_then_unit, rule refine_loop [OF assms], rule create_if_changed_ok [OF _ ok])
  next
    case (OpCreateRestored v s c)
    show ?thesis unfolding OpCreateRestored run_object_op.simps object_spec.simps CreateRestoredVersionAndSetCurrent_def
    proof (rule wp_then_unit, cases "ver_IsDeleteMarker v")
      case False
      show "wpM (if ver_BucketID v = 0 \<or> ver_Key v = '''' \<or> ver_VersionID v = '''' \<or> ver_IsDeleteMarker v \<or> s = '''' \<or> c = ''''
        then fail ErrInvalidInput else object_write_loop 19 False (createRestoredVersionAndSetCurrent v s c))
        (\<lambda>_ w'. objects_ok w' \<and> put_spec v (abs_objects (domain (db w))) (abs_objects (domain (db w')))) (\<lambda>_ w'. db w' = db w) w"
        by (rule refine_guard, rule refine_loop [OF assms], rule create_restored_ok [OF _ ok False])
    qed simp
  next
    case (OpDeleteMarker b k i cs)
    show ?thesis unfolding OpDeleteMarker run_object_op.simps object_spec.simps CreateDeleteMarkerAndSetCurrent_def
      by (rule wp_then_unit, rule refine_guard, rule refine_loop [OF assms], rule delete_marker_ok [OF _ ok])
  next
    case (OpDeleteMarkerVersion b k i cs)
    show ?thesis unfolding OpDeleteMarkerVersion run_object_op.simps object_spec.simps DeleteMarkerVersion_def
      by (rule refine_guard, rule refine_tx [OF assms], rule delete_marker_version_ok [OF _ ok])
  next
    case (OpRestoreStack b k m)
    show ?thesis unfolding OpRestoreStack run_object_op.simps object_spec.simps RestoreCurrentDeleteMarkerStack_def
      by (rule wp_then_unit, rule refine_guard, rule refine_tx [OF assms], rule restore_stack_ok [OF _ ok])
  next
    case (OpDeletePermanently l inp)
    show ?thesis unfolding OpDeletePermanently run_object_op.simps object_spec.simps DeleteObjectVersionPermanently_def
      by (rule wp_then_unit, rule refine_guard, rule refine_tx [OF assms], rule delete_permanently_ok [OF _ ok])
  next
    case (OpPurge l inp)
    show ?thesis unfolding OpPurge run_object_op.simps object_spec.simps DeleteDeletedObjectPermanently_def
      by (rule wp_then_unit, rule refine_guard, rule refine_tx [OF assms], rule purge_ok [OF _ ok])
  qed
qed

end
