(* ===== verification/Object_Store.thy ===== *)
theory Object_Store
  imports Object_Operations
begin

text \<open>
  What the object repository guarantees its callers: every operation is a step of the versioned
  store, objects name their current version in every run, a stored version is read back, deleting
  and restoring are inverse, and storage cleanup is reserved exactly for the last version that
  names a content.
\<close>

section \<open>An example\<close>

definition example_bucket :: Bucket where
  "example_bucket = \<lparr>bkt_ID = 1, bkt_Name = ''b'', bkt_ACL = None, bkt_OwnerAccessKey = None, bkt_DefaultCopies = 2,
     bkt_MinimumDurableCopies = 1, bkt_DurabilityGeneration = 0, bkt_DurabilityTaskID = None, bkt_Status = BucketStatusReady,
     bkt_CreatedAt = 1, bkt_UpdatedAt = 1, bkt_ProviderSelectionStrategy = ''auto''\<rparr>"

definition example_content :: StorageContent where
  "example_content = \<lparr>cnt_ID = 1, cnt_BucketID = 1, cnt_Checksum = replicate 64 CHR ''0'', cnt_ContentSize = 3, cnt_PieceCID = None,
     cnt_RequestedCopies = 2, cnt_ErrorMessage = None, cnt_AcceptedAt = None, cnt_CleanupGeneration = 0, cnt_CleanupTaskID = None,
     cnt_CreatedAt = 1, cnt_UpdatedAt = 1\<rparr>"

definition example_version :: "string \<Rightarrow> ObjectVersion" where
  "example_version i = \<lparr>ver_VersionID = i, ver_ObjectID = 1, ver_BucketID = 1, ver_Key = ''k'', ver_ContentID = Some 1, ver_Size = 3,
     ver_ETag = ''e'', ver_ContentType = ''text/plain'', ver_Metadata = [], ver_SystemMetadata = zero_system_metadata,
     ver_MultipartUploadID = None, ver_IsDeleteMarker = False, ver_CreatedAt = 1, ver_UpdatedAt = 1\<rparr>"

definition example_db :: storage_db where
  "example_db = \<lparr>s3_accounts = [], buckets = [example_bucket], bucket_replica_slots = [],
     objects = [\<lparr>obj_ID = 1, obj_BucketID = 1, obj_Key = ''k'', obj_CurrentVersionID = Some ''v1'', obj_CreatedAt = 1, obj_UpdatedAt = 1\<rparr>],
     object_versions = [example_version ''v1''], multipart_uploads = [], multipart_parts = [], storage_contents = [example_content],
     storage_data_sets = [], storage_commit_requests = [], storage_commit_request_pieces = [], storage_copies = [],
     storage_pull_attempts = [], object_cache = [], object_deletions = [], storage_cleanup_copies = []\<rparr>"

definition storage_world :: "storage_db \<Rightarrow> storage_db tables world" where
  "storage_world d = \<lparr>db = \<lparr>tasks = [], task_events = [], task_schedules = [], review_holds = [], removal_holds = [], domain = d\<rparr>,
     seq = 10, clock = 100, ticks = [], faults = [], ctx_script = [], lease_script = []\<rparr>"

section \<open>Refinement\<close>

text \<open>C2: every operation that changes objects implements its step of the versioned store: when it
  succeeds the store changes as the specification says and the tables stay consistent, and when
  it fails, for whatever statement or race, the database is the one before the call.\<close>

theorem object_operations_refine:
  assumes "objects_ok w"
  shows "case run_object_op op w of
      (Inr _, w') \<Rightarrow> objects_ok w' \<and> object_spec op (abs_objects (domain (db w))) (abs_objects (domain (db w')))
    | (Inl _, w') \<Rightarrow> db w' = db w"
  using object_op_refines [OF assms, of op] unfolding wpM_def by (auto split: prod.splits sum.splits)

theorem object_operations_refine_witness:
  "objects_ok (storage_world example_db) \<and>
   (case run_object_op (OpDeleteMarker 1 ''k'' ''v2'' []) (storage_world example_db) of
      (Inr _, w') \<Rightarrow> objects_ok w' \<and> object_spec (OpDeleteMarker 1 ''k'' ''v2'' []) (abs_objects example_db) (abs_objects (domain (db w')))
    | (Inl _, w') \<Rightarrow> False)"
proof -
  have ok: "objects_ok (storage_world example_db)" by code_simp
  have run: "\<exists>u. fst (run_object_op (OpDeleteMarker 1 ''k'' ''v2'' []) (storage_world example_db)) = Inr u" by code_simp
  from object_operations_refine [OF ok, of "OpDeleteMarker 1 ''k'' ''v2'' []"] run
  show ?thesis using ok by (auto simp: storage_world_def split: prod.splits sum.splits)
qed

section \<open>Runs\<close>

text \<open>A run is any sequence of operations, between which clock, faults and scripts are arbitrary.\<close>

inductive object_run :: "storage_db tables world \<Rightarrow> storage_db tables world \<Rightarrow> bool" where
  run_start: "object_run w w"
| run_op: "object_run w w1 \<Longrightarrow> db w2 = db w1 \<Longrightarrow> run_object_op op w2 = (r, w3) \<Longrightarrow> object_run w w3"

lemma objects_ok_same: "db w' = db w \<Longrightarrow> objects_ok w' = objects_ok w"
  by (simp add: objects_ok_def schema_ok_def)

lemma run_objects_ok: "object_run w w' \<Longrightarrow> objects_ok w \<Longrightarrow> objects_ok w'"
proof (induction rule: object_run.induct)
  case (run_op w w1 w2 op r w3)
  then have "objects_ok w2" using objects_ok_same by blast
  from object_op_refines [OF this, of op] have "objects_ok w3 \<or> db w3 = db w2"
    unfolding wpM_def run_op(3) by (auto split: sum.splits)
  with run_op \<open>objects_ok w2\<close> show ?case using objects_ok_same by blast
qed

text \<open>C9: in every run every object names a current version, which exists and is one of its own, for
  the same bucket and key.\<close>

theorem objects_name_their_current_version:
  assumes "objects_ok w" "object_run w w'"
  shows "\<forall>ob \<in> set (objects (domain (db w'))). \<exists>v \<in> set (object_versions (domain (db w'))).
      obj_CurrentVersionID ob = Some (ver_VersionID v) \<and> ver_ObjectID v = obj_ID ob \<and>
      ver_BucketID v = obj_BucketID ob \<and> ver_Key v = obj_Key ob"
proof
  let ?d = "domain (db w')"
  fix ob assume ob: "ob \<in> set (objects ?d)"
  have ok: "objects_ok w'" by (rule run_objects_ok [OF assms(2,1)])
  then have wf: "obj_wf ?d" unfolding objects_ok_def by (auto intro: schema_ok_wf)
  obtain i where i: "obj_CurrentVersionID ob = Some i" using ok ob by (auto simp: objects_ok_def pointers_ok_def list_all_iff)
  then obtain v where v: "v \<in> set (object_versions ?d)" "ver_VersionID v = i" "ver_ObjectID v = obj_ID ob"
    using obj_wfD(5) [OF wf ob] by blast
  moreover from version_object [OF wf ob v(1,3)] have "ver_BucketID v = obj_BucketID ob" "ver_Key v = obj_Key ob"
    by (simp_all add: version_key_def)
  ultimately show "\<exists>v \<in> set (object_versions ?d). obj_CurrentVersionID ob = Some (ver_VersionID v) \<and> ver_ObjectID v = obj_ID ob \<and>
      ver_BucketID v = obj_BucketID ob \<and> ver_Key v = obj_Key ob" using i by blast
qed

theorem objects_name_their_current_version_witness:
  "let w' = snd (run_object_op (OpDeleteMarker 1 ''k'' ''v2'' []) (storage_world example_db)) in
   objects (domain (db w')) \<noteq> [] \<and> (\<forall>ob \<in> set (objects (domain (db w'))). \<exists>v \<in> set (object_versions (domain (db w'))).
      obj_CurrentVersionID ob = Some (ver_VersionID v) \<and> ver_ObjectID v = obj_ID ob \<and>
      ver_BucketID v = obj_BucketID ob \<and> ver_Key v = obj_Key ob)"
proof -
  let ?w = "storage_world example_db" and ?op = "OpDeleteMarker 1 ''k'' ''v2'' []"
  have ok: "objects_ok ?w" by code_simp
  have run: "object_run ?w (snd (run_object_op ?op ?w))"
    by (rule run_op [OF run_start refl, where op = ?op and r = "fst (run_object_op ?op ?w)"]) simp
  have "objects (domain (db (snd (run_object_op ?op ?w)))) \<noteq> []" by code_simp
  with objects_name_their_current_version [OF ok run] show ?thesis unfolding Let_def by blast
qed

section \<open>Reading back\<close>

lemma abs_current:
  assumes "obj_wf d" "abs_objects d (b, k) = Some (Some i, vs)" "a \<in> vs" "ver_VersionID a = i"
  shows "\<exists>x. current_at d b k = Some x \<and> av (ObjectVersion.truncate x) = a"
proof -
  obtain ob where ob: "ob \<in> set (objects d)" "(b, k) = (obj_BucketID ob, obj_Key ob)" "obj_CurrentVersionID ob = Some i"
    "vs = av ` vers d (obj_ID ob)" using abs_SomeD [OF assms(1,2)] by auto
  obtain r where r: "r \<in> set (object_versions d)" "ver_ObjectID r = obj_ID ob" "a = av r" using assms(3) ob(4) by (auto simp: vers_def)
  obtain y where y: "y \<in> set (views d)" "ObjectVersion.truncate y = r" using view_of [OF assms(1) r(1)] by blast
  have yid: "ver_ObjectID y = obj_ID ob" "ver_VersionID y = i"
    using r(2,3) assms(4) truncate_fields(1,2) [of y] unfolding y(2) by (simp_all add: av_def)
  note vy = view_in_abs [OF assms(1) y(1) ob(1) yid(1) [symmetric]]
  have "ver_BucketID y = b \<and> ver_Key y = k \<and> ver_IsCurrent y" using vy(3,4) ob(2,3) yid(2) by (simp add: version_key_def)
  then obtain x where x: "current_at d b k = Some x"
    using y(1) unfolding current_at_def by (cases "find (\<lambda>v. ver_BucketID v = b \<and> ver_Key v = k \<and> ver_IsCurrent v) (views d)") (auto simp: find_None_iff)
  obtain ob' where ob': "ob' \<in> set (objects d)" "(obj_BucketID ob', obj_Key ob') = (b, k)" "obj_CurrentVersionID ob' = Some (ver_VersionID x)"
    using current_object [OF assms(1) x] by blast
  have "ob' = ob" by (rule same_object_key [OF assms(1) ob'(1) ob(1)]) (use ob(2) ob'(2) in auto)
  then have "ver_VersionID x = ver_VersionID y" using ob(3) ob'(3) yid(2) by simp
  from same_row [OF assms(1) current_at_Some(1) [OF x] y(1) this] x y(2) r(3) show ?thesis by (intro exI [of _ x]) simp
qed

lemma records_av: "records v (av r) = records v r"
  by (simp add: records_def av_def version_key_def)

lemma GetCurrent_run: "faults w = [] \<Longrightarrow> fst (GetCurrentVersionByBucketAndKey b k w) = Inr (current_at (domain (db w)) b k)"
  by (simp add: GetCurrentVersionByBucketAndKey_def sread_def query_def stmt_def)

lemma refines_success:
  assumes "objects_ok w" "run_object_op op w = (Inr u, w')"
  shows "objects_ok w'" "object_spec op (abs_objects (domain (db w))) (abs_objects (domain (db w')))"
  using object_op_refines [OF assms(1), of op] unfolding wpM_def assms(2) by simp_all



text \<open>C12: deleting an object and restoring it is the identity: when the current version is a data
  version and the newest one, a delete marker put on top of it and the restore of that marker
  stack leave the store as it was.\<close>

theorem delete_then_restore:
  assumes "objects_ok w" "current_at (domain (db w)) b k = Some x" "\<not> ver_IsDeleteMarker x"
    and newest: "\<forall>v \<in> set (object_versions (domain (db w))). ver_ObjectID v = ver_ObjectID x \<longrightarrow>
      (ver_CreatedAt v, ver_VersionID v) \<le> (ver_CreatedAt x, ver_VersionID x)"
    and "CreateDeleteMarkerAndSetCurrent False b k m cs w = (Inr marker, w1)"
    and "RestoreCurrentDeleteMarkerStack False b k m w1 = (Inr y, w2)"
  shows "abs_objects (domain (db w2)) = abs_objects (domain (db w))"
proof -
  let ?d = "domain (db w)" let ?st = "abs_objects ?d"
  have wf: "obj_wf ?d" using assms(1) unfolding objects_ok_def by (auto intro: schema_ok_wf)
  have "run_object_op (OpDeleteMarker b k m cs) w = (Inr (), w1)" using assms(5) by (simp add: bindM_def ret_def)
  note r1 = refines_success [OF assms(1) this]
  have "run_object_op (OpRestoreStack b k m) w1 = (Inr (), w2)" using assms(6) by (simp add: bindM_def ret_def)
  note r2 = refines_success [OF r1(1) this]
  obtain ob where ob: "ob \<in> set (objects ?d)" "obj_ID ob = ver_ObjectID x" "(obj_BucketID ob, obj_Key ob) = (b, k)"
    "obj_CurrentVersionID ob = Some (ver_VersionID x)" using current_object [OF wf assms(2)] by blast
  note v = view_in_abs [OF wf current_at_Some(1) [OF assms(2)] ob(1,2)]
  let ?vs = "av ` vers ?d (obj_ID ob)" and ?x = "av (ObjectVersion.truncate x)"
  have st: "?st (b, k) = Some (Some (ver_VersionID x), ?vs)" using v(2,4) ob(3,4) by simp
  have top: "age u \<le> age ?x" if "u \<in> ?vs" for u using that newest ob(2) by (auto simp: vers_def age_def av_def)
  have key: "version_key (new_marker b k m) = (b, k)" "ver_VersionID (new_marker b k m) = m" "ver_IsDeleteMarker (new_marker b k m)"
    by (simp_all add: new_marker_def version_key_def)
  obtain a where a: "records (new_marker b k m) a" "m \<notin> ver_VersionID ` ?vs"
    "abs_objects (domain (db w1)) = ?st((b, k) \<mapsto> (Some m, insert a ?vs))"
    using r1(2) unfolding object_spec.simps put_spec_def key versions_in_def st by auto
  have am: "ver_IsDeleteMarker a" using a(1) key(3) by (simp add: records_def)
  obtain t where t: "t \<in> insert a ?vs" "\<not> ver_IsDeleteMarker t" "is_newest {u \<in> insert a ?vs. \<not> ver_IsDeleteMarker u} (ver_VersionID t)"
    "\<exists>u \<in> insert a ?vs. age t < age u"
    "abs_objects (domain (db w2)) = ?st((b, k) \<mapsto> (Some (ver_VersionID t), {u \<in> insert a ?vs. age u \<le> age t}))"
    using r2(2) unfolding object_spec.simps restore_spec_def a(3) by auto
  have tv: "t \<in> ?vs" using t(1,2) am by auto
  obtain n where n: "n \<in> insert a ?vs" "\<not> ver_IsDeleteMarker n" "ver_VersionID n = ver_VersionID t" "age ?x \<le> age n"
  proof -
    have "?x \<in> {u \<in> insert a ?vs. \<not> ver_IsDeleteMarker u}" using v(1) assms(3) by simp
    then show thesis using t(3) that unfolding is_newest_def by blast
  qed
  then have "n \<in> ?vs" using am by auto
  then have "age n = age ?x" using top n(4) by (simp add: order_antisym)
  then have id: "ver_VersionID t = ver_VersionID x" using n(3) by (simp add: age_def)
  have "t = ?x"
  proof -
    obtain r where r: "r \<in> vers ?d (obj_ID ob)" "t = av r" using tv by blast
    then have "r = ObjectVersion.truncate x"
      using same_version_id [OF wf, of r "ObjectVersion.truncate x"] viewD(1) [OF current_at_Some(1) [OF assms(2)]] id
      by (simp add: vers_def)
    with r(2) show ?thesis by simp
  qed
  then have below: "\<And>u. u \<in> ?vs \<Longrightarrow> age u \<le> age t" and above: "\<not> age a \<le> age t" using top t(4) by fastforce+
  have "{u \<in> insert a ?vs. age u \<le> age t} = ?vs" using below above by auto
  then show ?thesis unfolding t(5) id using st by (simp add: fun_upd_idem)
qed

theorem delete_then_restore_witness:
  "let w1 = snd (CreateDeleteMarkerAndSetCurrent False 1 ''k'' ''v2'' [] (storage_world example_db));
       w2 = snd (RestoreCurrentDeleteMarkerStack False 1 ''k'' ''v2'' w1) in
   abs_objects (domain (db w2)) = abs_objects example_db \<and> length (object_versions (domain (db w1))) = 2"
proof -
  let ?w = "storage_world example_db"
  let ?m1 = "CreateDeleteMarkerAndSetCurrent False 1 ''k'' ''v2'' [] ?w"
  let ?m2 = "RestoreCurrentDeleteMarkerStack False 1 ''k'' ''v2'' (snd ?m1)"
  have ok: "objects_ok ?w" by code_simp
  have cur: "map_option (\<lambda>x. (ver_IsDeleteMarker x, ver_VersionID x, ver_CreatedAt x)) (current_at (domain (db ?w)) 1 ''k'') = Some (False, ''v1'', 1)"
    by code_simp
  then obtain x where x: "current_at (domain (db ?w)) 1 ''k'' = Some x" "\<not> ver_IsDeleteMarker x" "ver_VersionID x = ''v1''" "ver_CreatedAt x = 1"
    by auto
  have new: "\<forall>v \<in> set (object_versions (domain (db ?w))). ver_ObjectID v = ver_ObjectID x \<longrightarrow>
      (ver_CreatedAt v, ver_VersionID v) \<le> (ver_CreatedAt x, ver_VersionID x)"
    by (simp add: storage_world_def example_db_def example_version_def x)
  have "\<not> isl (fst ?m1)" "\<not> isl (fst ?m2)" by code_simp+
  then obtain m y where "?m1 = (Inr m, snd ?m1)" "?m2 = (Inr y, snd ?m2)" by (metis prod.collapse isl_def sum.exhaust)
  from delete_then_restore [OF ok x(1,2) new this] have "abs_objects (domain (db (snd ?m2))) = abs_objects example_db"
    by (simp add: storage_world_def)
  moreover have "length (object_versions (domain (db (snd ?m1)))) = 2" by code_simp
  ultimately show ?thesis by (simp add: Let_def)
qed

section \<open>Storage cleanup\<close>

text \<open>Every committed copy of the content has a row among the copies to clean up.\<close>

definition recorded :: "int \<Rightarrow> storage_db \<Rightarrow> bool" where
  "recorded cid d = (\<forall>c \<in> set (storage_copies d). cpy_ContentID c = cid \<and> cpy_Status c = StorageCopyStatusCommitted \<longrightarrow>
     (\<exists>k \<in> set (storage_cleanup_copies d). ccp_ContentID k = cid \<and> ccp_StorageDataSetID k = cpy_StorageDataSetID c \<and>
        cpy_PieceID c = Some (ccp_PieceID k)))"

definition snapshots_cover :: "storage_db \<Rightarrow> int \<Rightarrow> StorageCleanupCopy list \<Rightarrow> bool" where
  "snapshots_cover d cid ks = (\<forall>c \<in> set (storage_copies d). cpy_ContentID c = cid \<and> cpy_Status c = StorageCopyStatusCommitted \<longrightarrow>
     (\<exists>k \<in> set ks. ccp_ContentID k = cid \<and> ccp_StorageDataSetID k = cpy_StorageDataSetID c \<and> cpy_PieceID c = Some (ccp_PieceID k)))"

lemma schema_ok_copies:
  assumes "schema_ok w" "c \<in> set (storage_copies (domain (db w)))"
  shows "chk_storage_copies c" "\<exists>s \<in> set (storage_data_sets (domain (db w))). sds_ID s = cpy_StorageDataSetID c"
    "find_content (domain (db w)) (cpy_ContentID c) \<noteq> None"
proof -
  let ?d = "domain (db w)"
  show "chk_storage_copies c" using schema_okD(1) [OF assms(1)] assms(2) by (simp add: row_checks_def list_all_iff)
  have f: "foreign_storage_tables (map task_ID (tasks (db w))) ?d"
    using assms(1) by (simp add: schema_ok_def schema_violation_def split: if_splits)
  have "refers (\<lambda>r. Some (cpy_ContentID r, cpy_BucketID r, cpy_ContentSize r)) (storage_copies ?d)
       (map (\<lambda>c. (cnt_ID c, cnt_BucketID c, cnt_ContentSize c)) (storage_contents ?d))"
    and "refers (\<lambda>r. Some (cpy_StorageDataSetID r, cpy_BucketID r, cpy_CopyIndex r, cpy_ProviderID r)) (storage_copies ?d)
       (map (\<lambda>s. (sds_ID s, sds_BucketID s, sds_CopyIndex s, sds_ProviderID s)) (storage_data_sets ?d))"
    using f unfolding foreign_storage_tables_def Let_def by blast+
  from refersD [OF this(1) assms(2) refl] refersD [OF this(2) assms(2) refl]
  show "find_content ?d (cpy_ContentID c) \<noteq> None" "\<exists>s \<in> set (storage_data_sets ?d). sds_ID s = cpy_StorageDataSetID c"
    by (auto simp: find_content_def find_None_iff)
qed

lemma snapshots_ok:
  assumes "holds w d" "\<And>ks w'. holds w' d \<Longrightarrow> snapshots_cover d cid ks \<Longrightarrow> post (g ks) Q w'"
  shows "post (bindM (storageCleanupCopySnapshots cid) g) Q w"
  unfolding storageCleanupCopySnapshots_def
proof (rule step_read [OF assms(1)], rule assms(2), assumption)
  let ?j = "filter (\<lambda>(c, s). cpy_Status c = StorageCopyStatusCommitted) (copy_joins d cid)"
  let ?k = "\<lambda>(c, s). case find_content d (cpy_ContentID c) of None \<Rightarrow> []
     | Some x \<Rightarrow> [\<lparr>ccp_ID = 0, ccp_ContentID = cpy_ContentID c, ccp_BucketID = cpy_BucketID c, ccp_CopyIndex = cpy_CopyIndex c,
         ccp_ProviderID = cpy_ProviderID c, ccp_StorageDataSetID = cpy_StorageDataSetID c, ccp_DataSetID = sds_DataSetID s,
         ccp_ClientDataSetID = sds_ClientDataSetID s,
         ccp_PieceID = (case cpy_PieceID c of None \<Rightarrow> [] | Some p \<Rightarrow> p),
         ccp_PieceCID = (case cnt_PieceCID x of None \<Rightarrow> [] | Some p \<Rightarrow> p), ccp_Checksum = cnt_Checksum x,
         ccp_RetrievalURL = cpy_RetrievalURL c, ccp_Status = StorageCleanupCopyStatusPending, ccp_DeleteTxHash = None,
         ccp_LastError = None, ccp_ScheduledAt = None, ccp_RemovedAt = None, ccp_CreatedAt = 0, ccp_UpdatedAt = 0\<rparr>]"
  have d: "schema_ok w" "domain (db w) = d" using assms(1) by (simp_all add: holds_def)
  show "snapshots_cover d cid (concat (map ?k (sort_key (\<lambda>(c, s). cpy_CopyIndex c) ?j)))"
    unfolding snapshots_cover_def
  proof (intro ballI impI)
    fix c assume c: "c \<in> set (storage_copies d)" and st: "cpy_ContentID c = cid \<and> cpy_Status c = StorageCopyStatusCommitted"
    note k = schema_ok_copies [OF d(1), unfolded d(2), OF c]
    obtain s where s: "s \<in> set (storage_data_sets d)" "sds_ID s = cpy_StorageDataSetID c" using k(2) by blast
    obtain x where x: "find_content d cid = Some x" using k(3) st by auto
    obtain p where p: "cpy_PieceID c = Some p" using k(1) st by (auto simp: chk_storage_copies_def)
    have "(c, s) \<in> set ?j" using c s st by (auto simp: copy_joins_def copies_of_def)
    then have "set (?k (c, s)) \<subseteq> set (concat (map ?k (sort_key (\<lambda>(c, s). cpy_CopyIndex c) ?j)))" by fastforce
    moreover have "\<exists>k \<in> set (?k (c, s)). ccp_ContentID k = cid \<and> ccp_StorageDataSetID k = cpy_StorageDataSetID c \<and> cpy_PieceID c = Some (ccp_PieceID k)"
      using st x p by simp
    ultimately show "\<exists>k \<in> set (concat (map ?k (sort_key (\<lambda>(c, s). cpy_CopyIndex c) ?j))). ccp_ContentID k = cid \<and>
        ccp_StorageDataSetID k = cpy_StorageDataSetID c \<and> cpy_PieceID c = Some (ccp_PieceID k)" by blast
  qed
qed

definition add_snapshot :: "StorageCleanupCopy \<Rightarrow> StorageCleanupCopy list \<Rightarrow> StorageCleanupCopy list" where
  "add_snapshot c rows = (if list_ex (same_physical c) rows then rows else rows @ [c])"

lemma add_snapshots_grow: "set rows \<subseteq> set (fold add_snapshot cs rows)"
proof (induction cs arbitrary: rows)
  case (Cons c cs)
  have "set rows \<subseteq> set (add_snapshot c rows)" by (auto simp: add_snapshot_def)
  with Cons [of "add_snapshot c rows"] show ?case by simp
qed simp

lemma add_snapshots_cover: "k \<in> set cs \<Longrightarrow> \<exists>r \<in> set (fold add_snapshot cs rows). same_physical k r"
proof (induction cs arbitrary: rows)
  case (Cons c cs)
  have "\<exists>r \<in> set (add_snapshot c rows). same_physical c r" by (auto simp: add_snapshot_def list_ex_iff same_physical_def)
  then have "\<exists>r \<in> set (fold add_snapshot cs (add_snapshot c rows)). same_physical c r" using add_snapshots_grow by blast
  with Cons show ?case by (cases "k = c") auto
qed simp

lemma number_snapshots_ok:
  assumes "holds w d" "\<And>ks' w'. holds w' d \<Longrightarrow> map (\<lambda>k. (ccp_ContentID k, ccp_StorageDataSetID k, ccp_PieceID k)) ks' =
      map (\<lambda>k. (ccp_ContentID k, ccp_StorageDataSetID k, ccp_PieceID k)) ks \<Longrightarrow> post (g ks') Q w'"
  shows "post (bindM (number_snapshots n ks) g) Q w"
  using assms
proof (induction ks arbitrary: w g)
  case Nil
  then show ?case by (simp add: bindM_ret)
next
  case (Cons k ks)
  show ?case unfolding number_snapshots.simps bindM_assoc bindM_ret
    by (rule step_seq [OF Cons(2)], rule Cons(1), assumption, rule Cons(3)) auto
qed

lemma live_ok:
  assumes "holds w d" "\<And>r w'. holds w' d \<Longrightarrow> (r \<noteq> None) =
      (\<exists>v \<in> set (object_versions d). \<not> ver_IsDeleteMarker v \<and> ver_ContentID v = Some cid \<and> ver_VersionID v \<notin> set ids) \<Longrightarrow> post (g r) Q w'"
  shows "post (bindM (selectLiveObjectVersionForStorageContent cid ids) g) Q w"
proof -
  have "((case sort_key f (newest_first (filter P xs)) of [] \<Rightarrow> None | v # _ \<Rightarrow> Some v) \<noteq> None) = (\<exists>v \<in> set xs. P v)"
    for f :: "ObjectVersion \<Rightarrow> nat" and P and xs :: "ObjectVersion list"
  proof -
    have "set (sort_key f (newest_first (filter P xs))) = {v \<in> set xs. P v}" by auto
    then show ?thesis by (cases "sort_key f (newest_first (filter P xs))") auto
  qed
  note nonempty = this
  show ?thesis unfolding selectLiveObjectVersionForStorageContent_def
  proof (cases "cid \<le> 0")
    case True
    then show "post (bindM (if cid \<le> 0 then fail ErrInvalidInput else m) g) Q w" for m by simp
  next
    case False
    show "post (bindM (if cid \<le> 0 then fail ErrInvalidInput else sread (\<lambda>d. case sort_key (\<lambda>v. if list_ex (\<lambda>o'. obj_ID o' = ver_ObjectID v \<and>
            obj_CurrentVersionID o' = Some (ver_VersionID v)) (objects d) then 0 else (1::nat))
          (newest_first (filter (\<lambda>v. \<not> ver_IsDeleteMarker v \<and> ver_ContentID v = Some cid \<and>
            ver_VersionID v \<notin> set ids) (object_versions d))) of [] \<Rightarrow> None | v # _ \<Rightarrow> Some v)) g) Q w"
      unfolding if_not_P [OF False] by (rule step_read [OF assms(1)], rule assms(2), assumption, rule nonempty)
  qed
qed

lemma insert_snapshots_fold:
  "insert_snapshots cs = swrite (\<lambda>d. ((), d\<lparr>storage_cleanup_copies := fold add_snapshot cs (storage_cleanup_copies d)\<rparr>))"
  unfolding insert_snapshots_def by (rule arg_cong [where f = swrite]) (simp add: fun_eq_iff add_snapshot_def [abs_def])

lemma recorded_snapshots:
  assumes "snapshots_cover d cid ks" "map (\<lambda>k. (ccp_ContentID k, ccp_StorageDataSetID k, ccp_PieceID k)) ks' =
      map (\<lambda>k. (ccp_ContentID k, ccp_StorageDataSetID k, ccp_PieceID k)) ks"
    "storage_copies d' = storage_copies d" "storage_cleanup_copies d' = fold add_snapshot ks' rows"
  shows "recorded cid d'"
  unfolding recorded_def
proof (intro ballI impI)
  fix c assume "c \<in> set (storage_copies d')" "cpy_ContentID c = cid \<and> cpy_Status c = StorageCopyStatusCommitted"
  then obtain k where k: "k \<in> set ks" "ccp_ContentID k = cid \<and> ccp_StorageDataSetID k = cpy_StorageDataSetID c \<and> cpy_PieceID c = Some (ccp_PieceID k)"
    using assms(1,3) by (auto simp: snapshots_cover_def)
  have "(ccp_ContentID k, ccp_StorageDataSetID k, ccp_PieceID k) \<in> (\<lambda>k. (ccp_ContentID k, ccp_StorageDataSetID k, ccp_PieceID k)) ` set ks'"
    using k(1) arg_cong [OF assms(2), of set] by auto
  then obtain k' where k': "k' \<in> set ks'" "ccp_ContentID k' = ccp_ContentID k" "ccp_StorageDataSetID k' = ccp_StorageDataSetID k"
    "ccp_PieceID k' = ccp_PieceID k" by auto
  from add_snapshots_cover [OF k'(1), of rows] obtain r where "r \<in> set (storage_cleanup_copies d')" "same_physical k' r"
    unfolding assms(4) by blast
  with k' k(2) show "\<exists>k \<in> set (storage_cleanup_copies d'). ccp_ContentID k = cid \<and> ccp_StorageDataSetID k = cpy_StorageDataSetID c \<and>
      cpy_PieceID c = Some (ccp_PieceID k)" by (intro bexI [of _ r]) (simp_all add: same_physical_def)
qed

abbreviation named_beyond :: "storage_db \<Rightarrow> int \<Rightarrow> string list \<Rightarrow> bool" where
  "named_beyond d cid ids \<equiv> \<exists>v \<in> set (object_versions d). \<not> ver_IsDeleteMarker v \<and> ver_ContentID v = Some cid \<and> ver_VersionID v \<notin> set ids"

lemma reserve_ok:
  assumes "holds w d"
    and cont: "\<And>r w' d'. holds w' d' \<Longrightarrow> objects d' = objects d \<Longrightarrow> object_versions d' = object_versions d \<Longrightarrow>
      (r = None) = named_beyond d cid ids \<Longrightarrow> (r \<noteq> None \<Longrightarrow> recorded cid d') \<Longrightarrow> post (g r) Q w'"
  shows "post (bindM (reserveStorageCleanupForDeletedVersions cid ids) g) Q w"
proof (cases "cid = 0 \<or> ids = []")
  case True
  then show ?thesis unfolding reserveStorageCleanupForDeletedVersions_def by simp
next
  case False
  show ?thesis unfolding reserveStorageCleanupForDeletedVersions_def if_not_P [OF False] bindM_assoc
  proof (rule live_ok [OF assms(1)])
    fix live :: "ObjectVersion option" and w1
    assume w1: "holds w1 d" and live: "(live \<noteq> None) = named_beyond d cid ids"
    show "post (bindM (if live \<noteq> None then ret None else bindM (storageCleanupCopySnapshots cid) (\<lambda>copies. bindM now (\<lambda>n.
        bindM (if copies = [] then ret () else bindM (number_snapshots n copies) insert_snapshots) (\<lambda>_.
        bindM (reserve_generation cid n) (\<lambda>r. case r of None \<Rightarrow> fail ErrNoRows | Some r \<Rightarrow> ret (Some r)))))) g) Q w1"
    proof (cases "live \<noteq> None")
      case True
      have "post (g None) Q w1" by (rule cont [OF w1 refl refl]) (use live True in auto)
      then show ?thesis unfolding if_P [OF True] bindM_ret .
    next
      case none: False
      have tail: "post (bindM (reserve_generation cid n) (\<lambda>r. bindM (case r of None \<Rightarrow> fail ErrNoRows | Some r \<Rightarrow> ret (Some r)) g)) Q w'"
        if w': "holds w' d'" "recorded cid d'" "objects d' = objects d" "object_versions d' = object_versions d" for w' d' n
        unfolding reserve_generation_def Let_def
      proof (rule step_write [OF w'(1)], unfold fst_conv snd_conv)
        fix w2 and r :: "StorageCleanupReservation option" and cs
        assume w2: "holds w2 (d'\<lparr>storage_contents := cs\<rparr>)"
        have "post (g (Some q)) Q w2" for q
          by (rule cont [OF w2]) (use w' live none in \<open>auto simp: recorded_def\<close>)
        then show "post (bindM (case r of None \<Rightarrow> fail ErrNoRows | Some r \<Rightarrow> ret (Some r)) g) Q w2"
          by (cases r) (simp_all only: option.case bindM_ret, simp)
      qed
      show ?thesis unfolding if_not_P [OF none] bindM_assoc
      proof (rule snapshots_ok [OF w1], rule step_now, assumption)
        fix ks n w3
        assume cover: "snapshots_cover d cid ks" and w3: "holds w3 d"
        show "post (bindM (if ks = [] then ret () else bindM (number_snapshots n ks) insert_snapshots) (\<lambda>_.
            bindM (reserve_generation cid n) (\<lambda>r. bindM (case r of None \<Rightarrow> fail ErrNoRows | Some r \<Rightarrow> ret (Some r)) g))) Q w3"
        proof (cases "ks = []")
          case True
          have "recorded cid d" using cover True by (auto simp: recorded_def snapshots_cover_def)
          from tail [OF w3 this refl refl] show ?thesis unfolding if_P [OF True] bindM_ret .
        next
          case False
          show ?thesis unfolding if_not_P [OF False] bindM_assoc insert_snapshots_fold
            by (rule number_snapshots_ok [OF w3], rule step_write, assumption, unfold fst_conv snd_conv,
                erule tail, erule recorded_snapshots [OF cover]) simp_all
        qed
      qed
    qed
  qed
qed

lemma repoint_rest:
  assumes "holds w d" "\<And>w' os. holds w' (d\<lparr>objects := os\<rparr>) \<Longrightarrow> post (g ()) Q w'"
  shows "post (bindM (if c then repointObjectAwayFromVersion i v else ret ()) g) Q w"
proof (cases c)
  case False
  have "holds w (d\<lparr>objects := objects d\<rparr>)" using assms(1) by simp
  from assms(2) [OF this] show ?thesis unfolding if_not_P [OF False] bindM_ret .
next
  case True
  show ?thesis unfolding if_P [OF True] repointObjectAwayFromVersion_def point_at_def update_objects_def bindM_assoc bindM_ret
    by (rule step_read [OF assms(1)], rule step_now, assumption, rule step_write, assumption, unfold fst_conv snd_conv, erule assms(2))
qed

lemma identity_rest:
  assumes "holds w d" "\<And>w' os. holds w' (d\<lparr>objects := os\<rparr>) \<Longrightarrow> post (g ()) Q w'"
  shows "post (bindM (if c then deleteObjectIdentityIfEmpty i else ret ()) g) Q w"
proof -
  have same: "holds w' (d\<lparr>objects := objects d\<rparr>)" if "holds w' d" for w' using that by simp
  show ?thesis
  proof (cases c)
    case False
    from assms(2) [OF same [OF assms(1)]] show ?thesis unfolding if_not_P [OF False] bindM_ret .
  next
    case True
    show ?thesis unfolding if_P [OF True] deleteObjectIdentityIfEmpty_def bindM_assoc
    proof (rule step_read [OF assms(1)])
      fix w1 assume w1: "holds w1 d"
      show "post (bindM (if 0 < length (filter (\<lambda>v. ver_ObjectID v = i) (object_versions d)) then ret ()
          else bindM (delete_objects (\<lambda>o'. obj_ID o' = i)) (\<lambda>_. ret ())) g) Q w1"
      proof (cases "0 < length (filter (\<lambda>v. ver_ObjectID v = i) (object_versions d))")
        case some: True
        from assms(2) [OF same [OF w1]] show ?thesis unfolding if_P [OF some] bindM_ret .
      next
        case none: False
        show ?thesis unfolding if_not_P [OF none] bindM_assoc bindM_ret delete_objects_def
          by (rule step_write [OF w1], unfold fst_conv snd_conv, erule assms(2))
      qed
    qed
  qed
qed

definition cleanup_due :: "storage_db \<Rightarrow> DeleteObjectVersionResult \<Rightarrow> bool" where
  "cleanup_due d r = (case dovr_ContentID r of None \<Rightarrow> dovr_StorageCleanup r = None
     | Some cid \<Rightarrow> (dovr_StorageCleanup r \<noteq> None) = (\<forall>v \<in> set (object_versions d). ver_ContentID v \<noteq> Some cid) \<and>
         (dovr_StorageCleanup r \<noteq> None \<longrightarrow> recorded cid d))"

lemma named_after:
  assumes "holds w d'" "object_versions d' = filter (\<lambda>v. \<not> ver_VersionID v = i) (object_versions d)"
  shows "named_beyond d cid [i] = (\<exists>v \<in> set (object_versions d'). ver_ContentID v = Some cid)"
proof -
  have "\<not> ver_IsDeleteMarker v" if "v \<in> set (object_versions d')" "ver_ContentID v = Some cid" for v
  proof -
    have "chk_object_versions v"
      using assms(1) that(1) schema_okD(1) [of w] by (auto simp: holds_def row_checks_def list_all_iff)
    then show ?thesis using that(2) by (auto simp: chk_object_versions_def split: if_splits)
  qed
  then show ?thesis using assms(2) by auto
qed

lemma remove_version_cleanup:
  assumes "holds w d"
  shows "post (remove_version x) (\<lambda>r w'. \<exists>d'. holds w' d' \<and> cleanup_due d' r) w"
  unfolding remove_version_def
proof (rule step_now [OF assms], rule step_seq, assumption, rule step_frame [OF frame_insert_deletions], assumption)
  fix n i w3 and d3 :: storage_db
  assume w3: "holds w3 d3"
  let ?c = "ver_ContentID x"
  let ?rest = "\<lambda>cleanup. bindM (if ver_IsCurrent x then repointObjectAwayFromVersion (ver_ObjectID x) (ver_VersionID x) else ret ()) (\<lambda>_.
     bindM (delete_versions (\<lambda>v. ver_VersionID v = ver_VersionID x)) (\<lambda>rows.
     if rows = 0 then fail ErrNotFound
     else bindM (if ver_IsCurrent x then deleteObjectIdentityIfEmpty (ver_ObjectID x) else ret ()) (\<lambda>_.
       ret \<lparr>dovr_DeletionID = i, dovr_ContentID = ?c, dovr_StorageCleanup = cleanup\<rparr>)))"
  have rest: "post (?rest cleanup) (\<lambda>r w'. \<exists>d'. holds w' d' \<and> cleanup_due d' r) w4"
    if w4: "holds w4 d4" and due: "\<And>w' d'. holds w' d' \<Longrightarrow> storage_copies d' = storage_copies d4 \<Longrightarrow>
        storage_cleanup_copies d' = storage_cleanup_copies d4 \<Longrightarrow>
        object_versions d' = filter (\<lambda>v. \<not> ver_VersionID v = ver_VersionID x) (object_versions d4) \<Longrightarrow>
        cleanup_due d' \<lparr>dovr_DeletionID = i, dovr_ContentID = ?c, dovr_StorageCleanup = cleanup\<rparr>" for w4 d4 cleanup
    unfolding delete_versions_def
    by (rule repoint_rest [OF w4], rule step_write, assumption, unfold fst_conv snd_conv, rule post_if [OF post_fail],
        rule identity_rest, assumption, unfold wp_ret) (intro exI conjI, assumption, rule due, assumption, simp_all)
  show "post (bindM (case ?c of None \<Rightarrow> ret None | Some cid \<Rightarrow> reserveStorageCleanupForDeletedVersions cid [ver_VersionID x]) ?rest)
    (\<lambda>r w'. \<exists>d'. holds w' d' \<and> cleanup_due d' r) w3"
  proof (cases ?c)
    case None
    show ?thesis unfolding None option.case bindM_ret
      by (rule rest [OF w3, of None, unfolded None]) (simp add: cleanup_due_def)
  next
    case (Some cid)
    show ?thesis unfolding Some option.case
    proof (rule reserve_ok [OF w3], rule rest [unfolded Some], assumption)
      fix r :: "StorageCleanupReservation option" and w5 d5 w' d'
      assume d5: "object_versions d5 = object_versions d3" "(r = None) = named_beyond d3 cid [ver_VersionID x]" "r \<noteq> None \<Longrightarrow> recorded cid d5"
        and d': "holds w' d'" "storage_copies d' = storage_copies d5" "storage_cleanup_copies d' = storage_cleanup_copies d5"
          "object_versions d' = filter (\<lambda>v. \<not> ver_VersionID v = ver_VersionID x) (object_versions d5)"
      have "(r = None) = (\<exists>v \<in> set (object_versions d'). ver_ContentID v = Some cid)"
        using d5(2) named_after [OF d'(1), of "ver_VersionID x" d3 cid] d'(4) d5(1) by simp
      moreover have "r \<noteq> None \<Longrightarrow> recorded cid d'" using d5(3) d'(2,3) by (simp add: recorded_def)
      ultimately show "cleanup_due d' \<lparr>dovr_DeletionID = i, dovr_ContentID = Some cid, dovr_StorageCleanup = r\<rparr>"
        by (simp only: cleanup_due_def DeleteObjectVersionResult.simps option.case) blast
    qed
  qed
qed

lemma delete_permanently_cleanup:
  assumes "holds w d"
  shows "post (deleteObjectVersionPermanently l inp) (\<lambda>r w'. \<exists>d'. holds w' d' \<and> cleanup_due d' r) w"
  unfolding deleteObjectVersionPermanently_def Let_def
  by (rule step_read [OF assms], rule post_option [OF post_fail],
    rule step_frame [OF frame_authoritative], assumption, rule step_frame [OF frame_lock_uploads], assumption,
    rule step_frame [OF frame_lock_object], assumption, rule step_frame [OF frame_lock_versions], assumption,
    rule step_read, assumption, rule post_option [OF post_fail], rule post_if [OF post_fail], rule step_conditions,
    rule post_option [rotated, OF post_fail], rule step_frame [OF frame_authoritative], assumption, rule post_if [OF post_fail],
    rule step_frame [OF frame_prepare_delete], assumption, erule remove_version_cleanup)

text \<open>C7: a permanent deletion reserves cleanup of the stored content exactly when it removed the last
  version that names the content: a reservation means no version of any object names it any more
  and every committed copy is recorded for removal from its provider, and no reservation means
  some other version still needs it.\<close>

theorem cleanup_reserved_for_last_version:
  assumes "objects_ok w" "DeleteObjectVersionPermanently False l inp w = (Inr r, w')"
  shows "case dovr_ContentID r of None \<Rightarrow> dovr_StorageCleanup r = None
    | Some cid \<Rightarrow> (dovr_StorageCleanup r \<noteq> None) = (\<forall>v \<in> set (object_versions (domain (db w'))). ver_ContentID v \<noteq> Some cid) \<and>
        (dovr_StorageCleanup r \<noteq> None \<longrightarrow> recorded cid (domain (db w')))"
proof -
  have "holds w (domain (db w))" using objects_ok_holds [OF assms(1)] by blast
  from delete_permanently_cleanup [OF this, of l inp] assms(2) have "cleanup_due (domain (db w')) r"
    by (auto simp: DeleteObjectVersionPermanently_def obj_tx_def transact_def wpM_def fail_def holds_def split: if_splits prod.splits sum.splits)
  then show ?thesis by (simp only: cleanup_due_def)
qed

theorem cleanup_reserved_for_last_version_witness:
  "let inp = \<lparr>dov_BucketID = 1, dov_Key = ''k'', dov_VersionID = ''v1'', dov_Condition = None\<rparr>;
       (r, w') = DeleteObjectVersionPermanently False [] inp (storage_world example_db) in
   map_sum (\<lambda>_. ()) (\<lambda>r. (dovr_ContentID r, map_option rsv_Generation (dovr_StorageCleanup r))) r = Inr (Some 1, Some 1) \<and>
   (\<forall>v \<in> set (object_versions (domain (db w'))). ver_ContentID v \<noteq> Some 1) \<and> recorded 1 (domain (db w'))"
proof -
  let ?inp = "\<lparr>dov_BucketID = 1, dov_Key = ''k'', dov_VersionID = ''v1'', dov_Condition = None\<rparr>" and ?w = "storage_world example_db"
  let ?run = "DeleteObjectVersionPermanently False [] ?inp ?w"
  have ok: "objects_ok ?w" by code_simp
  have res: "map_sum (\<lambda>_. ()) (\<lambda>r. (dovr_ContentID r, map_option rsv_Generation (dovr_StorageCleanup r))) (fst ?run) = Inr (Some 1, Some 1)"
    by code_simp
  then obtain r where r: "fst ?run = Inr r" "dovr_ContentID r = Some 1" "dovr_StorageCleanup r \<noteq> None" by (cases "fst ?run") auto
  then have "?run = (Inr r, snd ?run)" by (metis prod.collapse)
  from cleanup_reserved_for_last_version [OF ok this] r(2,3) show ?thesis using res by (auto simp: Let_def split: prod.splits)
qed

end
