(* ===== verification/S3_Listing.thy ===== *)
theory S3_Listing
  imports Object_Store
begin

text \<open>
  \<open>backend/listing.go\<close>: listing a bucket with a prefix and a delimiter. The repository returns rows
  in batches; keys that share a common prefix are reported once and skipped with one range seek.

  A listing is a loop over batches. \<open>fuel\<close> bounds their number, and \<open>None\<close> is the value of a
  listing that ran out of it: every batch moves the cursor past a row, so one batch more than
  there are rows is enough.
\<close>

section \<open>Common prefixes\<close>

text \<open>\<open>strings.Cut\<close> at the first occurrence of a separator that is not empty.\<close>

fun Cut :: "string \<Rightarrow> string \<Rightarrow> (string \<times> string) option" where
  "Cut [] sep = None"
| "Cut (c # s) sep = (if HasPrefix (c # s) sep then Some ([], drop (length sep) (c # s))
     else map_option (\<lambda>(before, after). (c # before, after)) (Cut s sep))"

definition TrimPrefix :: "string \<Rightarrow> string \<Rightarrow> string" where
  "TrimPrefix s p = (if HasPrefix s p then drop (length p) s else s)"

definition listingCommonPrefix :: "string \<Rightarrow> string \<Rightarrow> string \<Rightarrow> string option" where
  "listingCommonPrefix key prefix delimiter =
     (if delimiter = '''' then None
      else case Cut (TrimPrefix key prefix) delimiter of
          None \<Rightarrow> None
        | Some (before, _) \<Rightarrow> Some (prefix @ before @ delimiter))"

section \<open>Listing current objects\<close>

definition listingBatchSize :: int where
  "listingBatchSize = 1000"

record listing_state =
  lst_objects :: "VersionView list"
  lst_prefixes :: "string list"
  lst_seenPrefixes :: "string list"
  lst_cursor :: string
  lst_inclusive :: bool
  lst_lastMarker :: string

type_synonym listing = "VersionView list \<times> string list \<times> bool \<times> string"

definition listed :: "listing_state \<Rightarrow> nat" where
  "listed st = length (lst_objects st) + length (lst_prefixes st)"

text \<open>The rows of one batch: \<open>Inl\<close> is a return from within the loop.\<close>

fun list_rows :: "string \<Rightarrow> string \<Rightarrow> string \<Rightarrow> int \<Rightarrow> string \<Rightarrow> VersionView list \<Rightarrow> listing_state \<Rightarrow> listing + listing_state" where
  "list_rows prefix delimiter afterKey maxKeys skipUntil [] st = Inr st"
| "list_rows prefix delimiter afterKey maxKeys skipUntil (obj # rows) st =
     (if skipUntil \<noteq> '''' \<and> ver_Key obj < skipUntil then list_rows prefix delimiter afterKey maxKeys skipUntil rows st
      else let st = st\<lparr>lst_cursor := ver_Key obj, lst_inclusive := False\<rparr> in
        case listingCommonPrefix (ver_Key obj) prefix delimiter of
          Some commonPrefix \<Rightarrow>
            (let new = (commonPrefix \<notin> set (lst_seenPrefixes st) \<and> (afterKey = '''' \<or> afterKey < commonPrefix)) in
             if new \<and> maxKeys \<le> int (listed st) then Inl (lst_objects st, lst_prefixes st, True, lst_lastMarker st)
             else let st = (if new then st\<lparr>lst_seenPrefixes := commonPrefix # lst_seenPrefixes st,
                        lst_prefixes := lst_prefixes st @ [commonPrefix]\<rparr> else st)\<lparr>lst_lastMarker := ver_Key obj\<rparr> in
               case PrefixUpperBound commonPrefix of
                 None \<Rightarrow> Inl (lst_objects st, lst_prefixes st, False, '''')
               | Some upper \<Rightarrow> list_rows prefix delimiter afterKey maxKeys upper rows (st\<lparr>lst_cursor := upper, lst_inclusive := True\<rparr>))
        | None \<Rightarrow>
            if maxKeys \<le> int (listed st) then Inl (lst_objects st, lst_prefixes st, True, lst_lastMarker st)
            else list_rows prefix delimiter afterKey maxKeys skipUntil rows
              (st\<lparr>lst_objects := lst_objects st @ [obj], lst_lastMarker := ver_Key obj\<rparr>))"

fun list_batches :: "nat \<Rightarrow> int \<Rightarrow> string \<Rightarrow> string \<Rightarrow> string \<Rightarrow> int \<Rightarrow> listing_state \<Rightarrow> listing option SDB" where
  "list_batches 0 bucketID prefix delimiter afterKey maxKeys st = ret None"
| "list_batches (Suc fuel) bucketID prefix delimiter afterKey maxKeys st =
     bindM (if lst_inclusive st
         then ListCurrentVersionsByBucketAtOrAfter bucketID prefix (lst_cursor st) listingBatchSize
         else ListCurrentVersionsByBucket bucketID prefix (lst_cursor st) listingBatchSize) (\<lambda>rows.
     if rows = [] then ret (Some (lst_objects st, lst_prefixes st, False, ''''))
     else case list_rows prefix delimiter afterKey maxKeys '''' rows (st\<lparr>lst_inclusive := False\<rparr>) of
         Inl result \<Rightarrow> ret (Some result)
       | Inr st \<Rightarrow> if int (length rows) < listingBatchSize then ret (Some (lst_objects st, lst_prefixes st, False, ''''))
           else list_batches fuel bucketID prefix delimiter afterKey maxKeys st)"

definition listCurrentObjects :: "nat \<Rightarrow> int \<Rightarrow> string \<Rightarrow> string \<Rightarrow> string \<Rightarrow> int \<Rightarrow> listing option SDB" where
  "listCurrentObjects fuel bucketID prefix delimiter afterKey maxKeys =
     (if maxKeys \<le> 0 then ret (Some ([], [], False, ''''))
      else list_batches fuel bucketID prefix delimiter afterKey maxKeys
        \<lparr>lst_objects = [], lst_prefixes = [], lst_seenPrefixes = [], lst_cursor = afterKey, lst_inclusive = False,
         lst_lastMarker = afterKey\<rparr>)"

section \<open>Listing versions\<close>

record version_listing_state =
  vls_versions :: "VersionView list"
  vls_prefixes :: "string list"
  vls_seenPrefixes :: "string list"
  vls_cursorKey :: string
  vls_cursorVersion :: string
  vls_inclusive :: bool
  vls_lastKeyMarker :: string
  vls_lastVersionMarker :: string

type_synonym version_listing = "VersionView list \<times> string list \<times> bool \<times> string \<times> string"

definition listed_versions :: "version_listing_state \<Rightarrow> nat" where
  "listed_versions st = length (vls_versions st) + length (vls_prefixes st)"

fun list_version_rows :: "string \<Rightarrow> string \<Rightarrow> string \<Rightarrow> int \<Rightarrow> string \<Rightarrow> VersionView list \<Rightarrow> version_listing_state \<Rightarrow> version_listing + version_listing_state" where
  "list_version_rows prefix delimiter keyMarker maxKeys skipUntil [] st = Inr st"
| "list_version_rows prefix delimiter keyMarker maxKeys skipUntil (row # rows) st =
     (if skipUntil \<noteq> '''' \<and> ver_Key row < skipUntil then list_version_rows prefix delimiter keyMarker maxKeys skipUntil rows st
      else let st = st\<lparr>vls_cursorKey := ver_Key row, vls_inclusive := False, vls_cursorVersion := ver_VersionID row\<rparr> in
        case listingCommonPrefix (ver_Key row) prefix delimiter of
          Some commonPrefix \<Rightarrow>
            (let new = (commonPrefix \<notin> set (vls_seenPrefixes st) \<and> (keyMarker = '''' \<or> keyMarker < commonPrefix)) in
             if new \<and> maxKeys \<le> int (listed_versions st)
             then Inl (vls_versions st, vls_prefixes st, True, vls_lastKeyMarker st, vls_lastVersionMarker st)
             else let st = (if new then st\<lparr>vls_seenPrefixes := commonPrefix # vls_seenPrefixes st,
                        vls_prefixes := vls_prefixes st @ [commonPrefix]\<rparr> else st)
                      \<lparr>vls_lastKeyMarker := ver_Key row, vls_lastVersionMarker := ver_VersionID row\<rparr> in
               case PrefixUpperBound commonPrefix of
                 None \<Rightarrow> Inl (vls_versions st, vls_prefixes st, False, '''', '''')
               | Some upper \<Rightarrow> list_version_rows prefix delimiter keyMarker maxKeys upper rows
                   (st\<lparr>vls_cursorKey := upper, vls_cursorVersion := '''', vls_inclusive := True\<rparr>))
        | None \<Rightarrow>
            if maxKeys \<le> int (listed_versions st)
            then Inl (vls_versions st, vls_prefixes st, True, vls_lastKeyMarker st, vls_lastVersionMarker st)
            else list_version_rows prefix delimiter keyMarker maxKeys skipUntil rows
              (st\<lparr>vls_versions := vls_versions st @ [row], vls_lastKeyMarker := ver_Key row, vls_lastVersionMarker := ver_VersionID row\<rparr>))"

fun list_version_batches :: "nat \<Rightarrow> int \<Rightarrow> string \<Rightarrow> string \<Rightarrow> string \<Rightarrow> int \<Rightarrow> version_listing_state \<Rightarrow> version_listing option SDB" where
  "list_version_batches 0 bucketID prefix delimiter keyMarker maxKeys st = ret None"
| "list_version_batches (Suc fuel) bucketID prefix delimiter keyMarker maxKeys st =
     bindM (if vls_inclusive st
         then ListVersionsByBucketAtOrAfter bucketID prefix (vls_cursorKey st) listingBatchSize
         else ListVersionsByBucket bucketID prefix (vls_cursorKey st) (vls_cursorVersion st) listingBatchSize) (\<lambda>rows.
     if rows = [] then ret (Some (vls_versions st, vls_prefixes st, False, '''', ''''))
     else case list_version_rows prefix delimiter keyMarker maxKeys '''' rows (st\<lparr>vls_inclusive := False\<rparr>) of
         Inl result \<Rightarrow> ret (Some result)
       | Inr st \<Rightarrow> if int (length rows) < listingBatchSize then ret (Some (vls_versions st, vls_prefixes st, False, '''', ''''))
           else list_version_batches fuel bucketID prefix delimiter keyMarker maxKeys st)"

definition listVersions :: "nat \<Rightarrow> int \<Rightarrow> string \<Rightarrow> string \<Rightarrow> string \<Rightarrow> string \<Rightarrow> int \<Rightarrow> version_listing option SDB" where
  "listVersions fuel bucketID prefix delimiter keyMarker versionIDMarker maxKeys =
     (if maxKeys \<le> 0 then ret (Some ([], [], False, '''', ''''))
      else list_version_batches fuel bucketID prefix delimiter keyMarker maxKeys
        \<lparr>vls_versions = [], vls_prefixes = [], vls_seenPrefixes = [], vls_cursorKey = keyMarker, vls_cursorVersion = versionIDMarker,
         vls_inclusive = False, vls_lastKeyMarker = keyMarker, vls_lastVersionMarker = versionIDMarker\<rparr>)"

section \<open>Prefix ranges\<close>

lemma prefix_between: "p \<le> k \<Longrightarrow> k \<le> p @ t \<Longrightarrow> \<exists>u. k = (p :: 'a::linorder list) @ u"
proof (induction p arbitrary: k)
  case (Cons c p)
  then show ?case by (cases k) auto
qed simp

lemma HasPrefix_between: "HasPrefix k' p \<Longrightarrow> p \<le> k \<Longrightarrow> k \<le> k' \<Longrightarrow> HasPrefix k p"
  using prefix_between unfolding HasPrefix_iff by blast

lemma HasPrefix_le: "HasPrefix k p \<Longrightarrow> p \<le> k"
  unfolding HasPrefix_iff by (metis append_Nil2 append_less Nil_less linorder_not_less not_less_iff_gr_or_eq order.order_iff_strict)

lemma utf8_runes: "utf8_text s \<Longrightarrow> \<exists>rs. list_all valid_rune rs \<and> s = string_of_runes rs \<and> runes s = rs"
  by (metis utf8_text_def)

lemma utf8_string: "list_all valid_rune rs \<Longrightarrow> utf8_text (string_of_runes rs)"
  by (simp add: utf8_text_def runes_string)

lemma upper_loop_None: "upper_loop (rev ps) = None \<Longrightarrow> ps = replicate (length ps) MaxRune"
proof (induction ps rule: rev_induct)
  case (snoc p ps)
  then have "p = MaxRune" "ps = replicate (length ps) MaxRune" by (auto split: if_splits)
  then show ?case by (metis append_Cons append_Nil length_append_singleton replicate_Suc replicate_append_same)
qed simp

text \<open>Beyond a key with the prefix, the keys with the prefix are those below its upper bound.\<close>

lemma upper_bound:
  assumes "utf8_text p" "utf8_text k" "utf8_text k'" "HasPrefix k p" "k \<le> k'"
  shows "case PrefixUpperBound p of None \<Rightarrow> HasPrefix k' p | Some u \<Rightarrow> u \<noteq> [] \<and> (k' < u) = HasPrefix k' p"
proof -
  obtain ps where ps: "list_all valid_rune ps" "p = string_of_runes ps" "runes p = ps" using utf8_runes [OF assms(1)] by blast
  obtain ks where ks: "list_all valid_rune ks" "k' = string_of_runes ks" using utf8_runes [OF assms(3)] by blast
  have le: "ps \<le> ks" using HasPrefix_le [OF assms(4)] assms(5) ps(1,2) ks by (metis order_trans string_of_runes_le)
  show ?thesis
  proof (cases "upper_loop (rev ps)")
    case None
    from upper_loop_None [OF None] le ks(1) have "\<exists>zs. ks = ps @ zs" using max_runes_le by metis
    then show ?thesis using None ps ks by (auto simp: PrefixUpperBound_def HasPrefix_runes)
  next
    case (Some u)
    from upper_loop_Some [OF Some] obtain qs r n where q: "ps = qs @ r # replicate n MaxRune" "r \<noteq> MaxRune" "u = qs @ [next_rune r]" by blast
    have u: "list_all valid_rune u" using ps(1) q next_rune_valid by simp
    have "(ks < u) = (\<exists>zs. ks = ps @ zs)" using range_is_prefix [OF ks(1), of qs r n] le q by simp
    then have "(k' < string_of_runes u) = HasPrefix k' p" using ps(1,2) ks u by (simp add: HasPrefix_runes string_of_runes_less)
    moreover have "string_of_runes u \<noteq> []" by (simp add: q(3) string_of_runes_def)
    ultimately show ?thesis using Some ps(3) by (simp add: PrefixUpperBound_def)
  qed
qed

section \<open>Common prefixes group keys\<close>

lemma Cut_Some:
  "Cut s sep = Some (b, a) \<Longrightarrow> sep \<noteq> [] \<Longrightarrow> s = b @ sep @ a \<and> (\<forall>j < length b. \<not> HasPrefix (drop j s) sep)"
proof (induction s arbitrary: b)
  case (Cons c s)
  show ?case
  proof (cases "HasPrefix (c # s) sep")
    case True
    with Cons.prems have "b = []" "a = drop (length sep) (c # s)" by auto
    with True show ?thesis unfolding HasPrefix_def by (metis append_Nil append_take_drop_id less_nat_zero_code list.size(3))
  next
    case False
    with Cons.prems obtain b' where b': "b = c # b'" "Cut s sep = Some (b', a)" by auto
    from Cons.IH [OF b'(2) Cons.prems(2)] have i: "s = b' @ sep @ a" "\<forall>j < length b'. \<not> HasPrefix (drop j s) sep" by auto
    have "\<not> HasPrefix (drop j (c # s)) sep" if "j < length b" for j using that False i(2) b'(1) by (cases j) auto
    with i(1) b'(1) show ?thesis by simp
  qed
qed simp

lemma Cut_first:
  assumes "sep \<noteq> []" "\<forall>j < length b. \<not> HasPrefix (drop j (b @ sep @ a)) sep"
  shows "Cut (b @ sep @ a) sep = Some (b, a)"
  using assms(2)
proof (induction b)
  case Nil
  then show ?case using assms(1) by (cases sep) (simp_all add: HasPrefix_def)
next
  case (Cons c b)
  have "\<not> HasPrefix ((c # b) @ sep @ a) sep" using Cons.prems by (metis drop0 length_greater_0_conv list.distinct(1))
  moreover have "\<forall>j < length b. \<not> HasPrefix (drop j (b @ sep @ a)) sep" using Cons.prems by fastforce
  ultimately show ?case using Cons.IH by simp
qed

lemma HasPrefix_shorter:
  assumes "length sep \<le> length x"
  shows "HasPrefix (x @ y) sep = HasPrefix (x @ z) sep"
  using assms by (simp add: HasPrefix_def)

lemma common_prefix:
  assumes "listingCommonPrefix k pre d = Some p" "HasPrefix k pre"
  shows "HasPrefix k p" "HasPrefix k' p \<Longrightarrow> listingCommonPrefix k' pre d = Some p" "HasPrefix p pre" "p \<noteq> []"
proof -
  have d: "d \<noteq> []" using assms(1) by (auto simp: listingCommonPrefix_def split: if_splits)
  obtain s where s: "k = pre @ s" using assms(2) by (auto simp: HasPrefix_iff)
  obtain b a where c: "Cut s d = Some (b, a)" "p = pre @ b @ d"
    using assms s d by (auto simp: listingCommonPrefix_def TrimPrefix_def split: option.splits)
  note cut = Cut_Some [OF c(1) d]
  show "HasPrefix k p" "HasPrefix p pre" "p \<noteq> []" using cut c s d by (auto simp: HasPrefix_iff)
  assume "HasPrefix k' p"
  then obtain t where t: "k' = pre @ b @ d @ t" using c(2) by (auto simp: HasPrefix_iff)
  have "\<not> HasPrefix (drop j (b @ d @ t)) d" if j: "j < length b" for j
  proof -
    have "\<not> HasPrefix (drop j (b @ d) @ a) d" using cut j by (auto simp: drop_append)
    then show ?thesis using HasPrefix_shorter [of d "drop j (b @ d)" a t] j by (simp add: drop_append)
  qed
  then have "Cut (b @ d @ t) d = Some (b, t)" using Cut_first [OF d] by blast
  then show "listingCommonPrefix k' pre d = Some p" using t d c(2)
    by (simp add: listingCommonPrefix_def TrimPrefix_def HasPrefix_def)
qed

text \<open>Bytes of one encoded rune: a leading byte, then continuation bytes.\<close>

lemma enc_rune_shape:
  assumes "valid_rune r"
  shows "\<exists>b bs. enc_rune r = b # bs \<and> \<not> cont b \<and> (\<forall>c \<in> set bs. cont c)"
proof -
  have "r div 64 mod 64 < 64" "r mod 64 < 64" "r div 4096 mod 64 < 64" by simp_all
  then show ?thesis using assms by (auto simp: enc_rune_def cont_def)
qed

lemma boundary:
  assumes "list_all valid_rune rs" "concat (map enc_rune rs) = b @ c # t" "\<not> cont c"
  shows "\<exists>j. b = concat (map enc_rune (take j rs))"
  using assms(1,2)
proof (induction rs arbitrary: b)
  case (Cons r rs)
  then obtain x xs where e: "enc_rune r = x # xs" "\<not> cont x" "\<forall>c \<in> set xs. cont c" using enc_rune_shape [of r] by auto
  show ?case
  proof (cases b)
    case Nil
    then show ?thesis by (intro exI [of _ 0]) simp
  next
    case (Cons y ys)
    have eq: "xs @ concat (map enc_rune rs) = ys @ c # t" "y = x" using Cons.prems(2) e(1) Cons by simp_all
    have "length xs \<le> length ys"
    proof (rule ccontr)
      assume "\<not> length xs \<le> length ys"
      then have "length ys < length xs" "xs ! length ys = c"
        using arg_cong [OF eq(1), of "\<lambda>l. l ! length ys"] by (simp_all add: nth_append)
      then have "c \<in> set xs" by (metis nth_mem)
      then show False using e(3) assms(3) by blast
    qed
    then obtain zs where zs: "ys = xs @ zs" "concat (map enc_rune rs) = zs @ c # t"
      using eq(1) by (auto simp: append_eq_append_conv2)
    from Cons.IH [OF _ zs(2)] Cons.prems(1) obtain j where "zs = concat (map enc_rune (take j rs))" by auto
    then show ?thesis using Cons eq(2) zs(1) e(1) by (intro exI [of _ "Suc j"]) simp
  qed
qed simp

lemma utf8_split:
  assumes "utf8_text (a @ b)" "utf8_text a"
  shows "utf8_text b"
proof -
  obtain as where as: "list_all valid_rune as" "a = string_of_runes as" using utf8_runes [OF assms(2)] by blast
  obtain rs where rs: "list_all valid_rune rs" "a @ b = string_of_runes rs" using utf8_runes [OF assms(1)] by blast
  have "HasPrefix (string_of_runes rs) (string_of_runes as)" using as(2) rs(2) by (metis HasPrefix_iff)
  then obtain zs where "rs = as @ zs" using as(1) rs(1) HasPrefix_runes by blast
  then show ?thesis using rs as by (auto intro: utf8_string)
qed

lemma string_bytes: "list_all valid_rune rs \<Longrightarrow> map of_char (string_of_runes rs) = concat (map enc_rune rs)"
  unfolding string_of_runes_def by (rule of_char_char_of_bytes [OF enc_bytes])

lemma of_char_inj: "map of_char s = (map of_char t :: nat list) \<Longrightarrow> s = (t :: string)"
  by (metis inj_map_eq_map inj_on_def of_char_eq_iff)

lemma utf8_upto:
  assumes "utf8_text (b @ d @ t)" "utf8_text d" "d \<noteq> []"
  shows "utf8_text (b @ d)"
proof -
  obtain ds where ds: "list_all valid_rune ds" "d = string_of_runes ds" using utf8_runes [OF assms(2)] by blast
  obtain rs where rs: "list_all valid_rune rs" "b @ d @ t = string_of_runes rs" using utf8_runes [OF assms(1)] by blast
  from ds assms(3) obtain e es where e: "ds = e # es" "valid_rune e" by (cases ds) (auto simp: string_of_runes_def)
  then obtain x xs where x: "map of_char d = x # (xs :: nat list)" "\<not> cont x"
    using enc_rune_shape [OF e(2)] string_bytes [OF ds(1)] ds(2) by auto
  have "concat (map enc_rune rs) = map of_char b @ x # (xs @ map of_char t)"
    using string_bytes [OF rs(1)] rs(2) x(1) by (metis append.assoc append_Cons map_append)
  from boundary [OF rs(1) this x(2)] obtain j where j: "map of_char b = concat (map enc_rune (take j rs))" by blast
  have v: "list_all valid_rune (take j rs)" using rs(1) by (metis append_take_drop_id list_all_append)
  have "b = string_of_runes (take j rs)" by (rule of_char_inj) (simp only: j string_bytes [OF v])
  then have "b @ d = string_of_runes (take j rs @ ds)" using ds(2) by simp
  then show ?thesis using v ds(1) utf8_string [of "take j rs @ ds"] by simp
qed

lemma utf8_common_prefix:
  assumes "listingCommonPrefix k pre d = Some p" "HasPrefix k pre" "utf8_text k" "utf8_text pre" "utf8_text d"
  shows "utf8_text p"
proof -
  have d: "d \<noteq> []" using assms(1) by (auto simp: listingCommonPrefix_def split: if_splits)
  obtain s where s: "k = pre @ s" using assms(2) by (auto simp: HasPrefix_iff)
  obtain b a where c: "Cut s d = Some (b, a)" "p = pre @ b @ d"
    using assms(1,2) s d by (auto simp: listingCommonPrefix_def TrimPrefix_def split: option.splits)
  have "k = (pre @ b) @ d @ a" using Cut_Some [OF c(1) d] s by simp
  then show ?thesis using utf8_upto [of "pre @ b" d a] assms(3,5) d c(2) by simp
qed

section \<open>The rows of a listing\<close>

text \<open>Rows as the repository returns them: keys ascend, are text and start with the prefix.\<close>

definition rows_ok :: "string \<Rightarrow> VersionView list \<Rightarrow> bool" where
  "rows_ok pre rows = (sorted_wrt (\<lambda>r s. ver_Key r < ver_Key s) rows \<and>
     (\<forall>r \<in> set rows. utf8_text (ver_Key r) \<and> HasPrefix (ver_Key r) pre \<and> ver_Key r \<noteq> ''''))"

definition finish :: "listing + listing_state \<Rightarrow> listing" where
  "finish x = (case x of Inl r \<Rightarrow> r | Inr st \<Rightarrow> (lst_objects st, lst_prefixes st, False, ''''))"

text \<open>The rows a listing reports: those without a common prefix and the first of each group.\<close>

fun firsts :: "string \<Rightarrow> string \<Rightarrow> string set \<Rightarrow> VersionView list \<Rightarrow> VersionView list" where
  "firsts pre d S [] = []"
| "firsts pre d S (r # rs) = (case listingCommonPrefix (ver_Key r) pre d of
       None \<Rightarrow> r # firsts pre d S rs
     | Some p \<Rightarrow> if p \<in> S then firsts pre d S rs else r # firsts pre d (insert p S) rs)"

definition visible :: "string \<Rightarrow> string \<Rightarrow> string \<Rightarrow> VersionView \<Rightarrow> bool" where
  "visible pre d a r = (case listingCommonPrefix (ver_Key r) pre d of None \<Rightarrow> True | Some p \<Rightarrow> a = '''' \<or> a < p)"

definition entries :: "string \<Rightarrow> string \<Rightarrow> string \<Rightarrow> string set \<Rightarrow> VersionView list \<Rightarrow> VersionView list" where
  "entries pre d a S rows = filter (visible pre d a) (firsts pre d S rows)"

definition objects_in :: "string \<Rightarrow> string \<Rightarrow> VersionView list \<Rightarrow> VersionView list" where
  "objects_in pre d rows = filter (\<lambda>r. listingCommonPrefix (ver_Key r) pre d = None) rows"

definition prefixes_in :: "string \<Rightarrow> string \<Rightarrow> VersionView list \<Rightarrow> string list" where
  "prefixes_in pre d rows = List.map_filter (\<lambda>r. listingCommonPrefix (ver_Key r) pre d) rows"

fun stop :: "string \<Rightarrow> string \<Rightarrow> string \<Rightarrow> string \<Rightarrow> nat \<Rightarrow> VersionView list \<Rightarrow> string" where
  "stop pre d a m n [] = m"
| "stop pre d a m n (r # fs) = (if visible pre d a r then (case n of 0 \<Rightarrow> m | Suc n \<Rightarrow> stop pre d a (ver_Key r) n fs)
     else stop pre d a (ver_Key r) n fs)"

text \<open>Skipped rows are those of a group already reported.\<close>

definition skips :: "string \<Rightarrow> string \<Rightarrow> string \<Rightarrow> string set \<Rightarrow> VersionView list \<Rightarrow> bool" where
  "skips pre d skip S rows = (\<forall>r \<in> set rows. (skip \<noteq> '''' \<and> ver_Key r < skip) = (\<exists>p \<in> S. listingCommonPrefix (ver_Key r) pre d = Some p))"

definition current_rows :: "storage_db \<Rightarrow> int \<Rightarrow> string \<Rightarrow> VersionView list" where
  "current_rows d b prefix = sort_key ver_Key (filter (\<lambda>v. ver_BucketID v = b \<and> ver_IsCurrent v \<and> \<not> ver_IsDeleteMarker v \<and>
     caseSensitivePrefix prefix (ver_Key v)) (views d))"

definition beyond :: "string \<Rightarrow> bool \<Rightarrow> VersionView \<Rightarrow> bool" where
  "beyond c i r = (c = '''' \<or> (if i then c \<le> ver_Key r else c < ver_Key r))"

lemma skips_next:
  assumes "rows_ok pre (r # rows)" "utf8_text pre" "utf8_text d" "skips pre d skip S (r # rows)" "\<not> (skip \<noteq> '''' \<and> ver_Key r < skip)"
    "listingCommonPrefix (ver_Key r) pre d = Some p"
  shows "case PrefixUpperBound p of None \<Rightarrow> \<forall>s \<in> set rows. listingCommonPrefix (ver_Key s) pre d = Some p
    | Some u \<Rightarrow> skips pre d u (insert p S) rows" "p \<notin> S"
proof -
  have r: "utf8_text (ver_Key r)" "HasPrefix (ver_Key r) pre" using assms(1) by (auto simp: rows_ok_def)
  have p: "utf8_text p" by (rule utf8_common_prefix [OF assms(6) r(2,1) assms(2,3)])
  note cp = common_prefix [OF assms(6) r(2)]
  show "p \<notin> S" using assms(4,5,6) by (auto simp: skips_def)
  have s: "ver_Key r < ver_Key s" "utf8_text (ver_Key s)" "HasPrefix (ver_Key s) pre" if "s \<in> set rows" for s
    using that assms(1) by (auto simp: rows_ok_def)
  have ub: "case PrefixUpperBound p of None \<Rightarrow> HasPrefix (ver_Key s) p | Some u \<Rightarrow> u \<noteq> [] \<and> (ver_Key s < u) = HasPrefix (ver_Key s) p"
    if "s \<in> set rows" for s by (rule upper_bound [OF p r(1) s(2) [OF that] cp(1) order.strict_implies_order [OF s(1) [OF that]]])
  have group: "HasPrefix (ver_Key s) p = (listingCommonPrefix (ver_Key s) pre d = Some p)" if "s \<in> set rows" for s
    using cp(2) common_prefix(1) s(3) [OF that] by blast
  have old: "\<not> (\<exists>q \<in> S. listingCommonPrefix (ver_Key s) pre d = Some q)" if "s \<in> set rows" for s
    using assms(4,5) s(1) [OF that] that unfolding skips_def by (meson less_trans list.set_intros(2) not_less order_le_less_trans)
  show "case PrefixUpperBound p of None \<Rightarrow> \<forall>s \<in> set rows. listingCommonPrefix (ver_Key s) pre d = Some p
    | Some u \<Rightarrow> skips pre d u (insert p S) rows"
  proof (cases "PrefixUpperBound p")
    case None
    then show ?thesis using ub group by simp
  next
    case (Some u)
    have "(u \<noteq> [] \<and> ver_Key s < u) = (\<exists>q \<in> insert p S. listingCommonPrefix (ver_Key s) pre d = Some q)" if "s \<in> set rows" for s
      using ub [OF that] group [OF that] old [OF that] Some by auto
    then show ?thesis using Some by (simp add: skips_def)
  qed
qed

lemma rows_ok_tail: "rows_ok pre (r # rows) \<Longrightarrow> rows_ok pre rows"
  by (simp add: rows_ok_def)

lemma skips_tail: "skips pre d skip S (r # rows) \<Longrightarrow> skips pre d skip S rows"
  by (simp add: skips_def)

lemma firsts_all: "\<forall>s \<in> set rows. listingCommonPrefix (ver_Key s) pre d = Some p \<Longrightarrow> p \<in> S \<Longrightarrow> firsts pre d S rows = []"
  by (induction rows) auto

lemma entries_Cons:
  "entries pre d a S (r # rows) = (case listingCommonPrefix (ver_Key r) pre d of
       None \<Rightarrow> r # entries pre d a S rows
     | Some p \<Rightarrow> if p \<in> S then entries pre d a S rows
         else (if a = '''' \<or> a < p then [r] else []) @ entries pre d a (insert p S) rows)"
  by (auto simp: entries_def visible_def split: option.splits)

lemma in_Cons [simp]:
  "objects_in pre d [] = []" "prefixes_in pre d [] = []"
  "objects_in pre d (r # rs) = (case listingCommonPrefix (ver_Key r) pre d of None \<Rightarrow> r # objects_in pre d rs | Some p \<Rightarrow> objects_in pre d rs)"
  "prefixes_in pre d (r # rs) = (case listingCommonPrefix (ver_Key r) pre d of None \<Rightarrow> prefixes_in pre d rs | Some p \<Rightarrow> p # prefixes_in pre d rs)"
  by (auto simp: objects_in_def prefixes_in_def List.map_filter_def split: option.splits)

definition page_of :: "string \<Rightarrow> string \<Rightarrow> string \<Rightarrow> nat \<Rightarrow> string set \<Rightarrow> VersionView list \<Rightarrow> listing_state \<Rightarrow> listing" where
  "page_of pre d a k S rows st =
     (let es = entries pre d a S rows; room = k - listed st; es' = take room es in
      (lst_objects st @ objects_in pre d es', lst_prefixes st @ prefixes_in pre d es', room < length es,
       if room < length es then stop pre d a (lst_lastMarker st) room (firsts pre d S rows) else ''''))"

lemma list_rows_page:
  assumes "rows_ok pre rows" "utf8_text pre" "utf8_text d" "skips pre d skip S rows" "set (lst_seenPrefixes st) \<subseteq> S"
    "listed st \<le> k"
  shows "finish (list_rows pre d a (int k) skip rows st) = page_of pre d a k S rows st"
  using assms(1,4-6)
proof (induction rows arbitrary: skip S st)
  case Nil
  then show ?case by (simp add: finish_def page_of_def entries_def Let_def)
next
  case (Cons r rows)
  note tl = rows_ok_tail [OF Cons.prems(1)]
  show ?case
  proof (cases "skip \<noteq> '''' \<and> ver_Key r < skip")
    case True
    then obtain p where "p \<in> S" "listingCommonPrefix (ver_Key r) pre d = Some p" using Cons.prems(2) by (auto simp: skips_def)
    then have "page_of pre d a k S (r # rows) st = page_of pre d a k S rows st" by (simp add: page_of_def entries_Cons Let_def)
    then show ?thesis using True Cons.IH [OF tl skips_tail [OF Cons.prems(2)] Cons.prems(3,4)] by simp
  next
    case False
    show ?thesis
    proof (cases "listingCommonPrefix (ver_Key r) pre d")
      case None
      let ?st = "st\<lparr>lst_cursor := ver_Key r, lst_inclusive := False, lst_objects := lst_objects st @ [r], lst_lastMarker := ver_Key r\<rparr>"
      show ?thesis
      proof (cases "k \<le> listed st")
        case True
        then show ?thesis using None False Cons.prems(4)
          by (auto simp: finish_def page_of_def entries_Cons Let_def listed_def visible_def)
      next
        case room: False
        then obtain n where n: "k - listed st = Suc n" by (metis Suc_diff_Suc not_le)
        have l: "listed ?st = Suc (listed st)" by (simp add: listed_def)
        have "finish (list_rows pre d a (int k) skip rows ?st) = page_of pre d a k S rows ?st"
          by (rule Cons.IH [OF tl skips_tail [OF Cons.prems(2)]]) (use Cons.prems(3) room l in simp_all)
        moreover have "page_of pre d a k S rows ?st = page_of pre d a k S (r # rows) st"
        proof -
          have "k - Suc (listed st) = n" using n by simp
          then show ?thesis using None n l by (auto simp: page_of_def entries_Cons Let_def visible_def)
        qed
        ultimately show ?thesis using None False room by (auto simp: listed_def)
      qed
    next
      case (Some p)
      note nx = skips_next [OF Cons.prems(1) assms(2,3) Cons.prems(2) False Some]
      have unseen: "p \<notin> set (lst_seenPrefixes st)" using nx(2) Cons.prems(3) by blast
      let ?v = "a = '''' \<or> a < p"
      let ?st = "(if ?v then st\<lparr>lst_seenPrefixes := p # lst_seenPrefixes st, lst_prefixes := lst_prefixes st @ [p]\<rparr> else st)"
      have vis: "visible pre d a r = ?v" using Some by (simp add: visible_def)
      show ?thesis
      proof (cases "?v \<and> k \<le> listed st")
        case True
        then show ?thesis using Some False Cons.prems(4) unseen nx(2) vis
          by (auto simp: finish_def page_of_def entries_Cons Let_def listed_def)
      next
        case room: False
        have l: "listed ?st = (if ?v then Suc (listed st) else listed st)" by (simp add: listed_def)
        show ?thesis
        proof (cases "PrefixUpperBound p")
          case None
          have "firsts pre d (insert p S) rows = []" using nx(1) None firsts_all [of rows pre d p "insert p S"] by simp
          moreover have "entries pre d a (insert p S) rows = []" using calculation by (simp add: entries_def)
          ultimately have "page_of pre d a k S (r # rows) st = (lst_objects st, lst_prefixes ?st, False, '''')"
            using Some nx(2) room by (auto simp: page_of_def entries_Cons Let_def)
          then show ?thesis using Some False room unseen None by (auto simp: finish_def listed_def Let_def)
        next
          case up: (Some u)
          let ?su = "?st\<lparr>lst_lastMarker := ver_Key r, lst_cursor := u, lst_inclusive := True\<rparr>"
          have "skips pre d u (insert p S) rows" using nx(1) up by simp
          then have "finish (list_rows pre d a (int k) u rows ?su) = page_of pre d a k (insert p S) rows ?su"
            by (rule Cons.IH [OF tl]) (use Cons.prems(3,4) room l in \<open>auto simp: listed_def\<close>)
          moreover have "page_of pre d a k (insert p S) rows ?su = page_of pre d a k S (r # rows) st"
          proof (cases ?v)
            case True
            then obtain n where n: "k - listed st = Suc n" using room by (metis Suc_diff_Suc not_le)
            then have "k - listed ?su = n" using True by (simp add: listed_def)
            with n show ?thesis using Some nx(2) True vis by (auto simp: page_of_def entries_Cons Let_def)
          next
            case False
            then show ?thesis using Some nx(2) vis by (auto simp: page_of_def entries_Cons Let_def listed_def)
          qed
          ultimately show ?thesis using Some False room unseen up by (auto simp: listed_def Let_def)
        qed
      qed
    qed
  qed
qed

section \<open>Batches\<close>

definition skipped :: "string \<Rightarrow> VersionView \<Rightarrow> bool" where
  "skipped skip r = (skip \<noteq> '''' \<and> ver_Key r < skip)"

text \<open>What visiting a row does: return, or go on with a state and, after a group, with the group's bound.\<close>

definition visit :: "string \<Rightarrow> string \<Rightarrow> string \<Rightarrow> int \<Rightarrow> VersionView \<Rightarrow> listing_state \<Rightarrow> listing + listing_state \<times> string option" where
  "visit pre d a k r st = (case listingCommonPrefix (ver_Key r) pre d of
      None \<Rightarrow> if k \<le> int (listed st) then Inl (lst_objects st, lst_prefixes st, True, lst_lastMarker st)
        else Inr (st\<lparr>lst_cursor := ver_Key r, lst_inclusive := False, lst_objects := lst_objects st @ [r], lst_lastMarker := ver_Key r\<rparr>, None)
    | Some p \<Rightarrow> let new = (p \<notin> set (lst_seenPrefixes st) \<and> (a = '''' \<or> a < p)) in
        if new \<and> k \<le> int (listed st) then Inl (lst_objects st, lst_prefixes st, True, lst_lastMarker st)
        else case PrefixUpperBound p of
            None \<Rightarrow> Inl (lst_objects st, if new then lst_prefixes st @ [p] else lst_prefixes st, False, '''')
          | Some u \<Rightarrow> Inr ((if new then st\<lparr>lst_seenPrefixes := p # lst_seenPrefixes st, lst_prefixes := lst_prefixes st @ [p]\<rparr> else st)
              \<lparr>lst_lastMarker := ver_Key r, lst_cursor := u, lst_inclusive := True\<rparr>, Some u))"

lemma list_rows_visit:
  "list_rows pre d a k skip (r # rows) st = (if skipped skip r then list_rows pre d a k skip rows st
     else case visit pre d a k r st of Inl x \<Rightarrow> Inl x
       | Inr (st', None) \<Rightarrow> list_rows pre d a k skip rows st'
       | Inr (st', Some u) \<Rightarrow> list_rows pre d a k u rows st')"
proof (cases "listingCommonPrefix (ver_Key r) pre d")
  case (Some p)
  then show ?thesis
    by (cases "p \<in> set (lst_seenPrefixes st)"; cases "a = '''' \<or> a < p"; cases "PrefixUpperBound p"; simp add: visit_def Let_def listed_def skipped_def)
qed (simp add: visit_def Let_def listed_def skipped_def)

lemma visit_None: "visit pre d a k r st = Inr (st', None) \<Longrightarrow> \<not> lst_inclusive st' \<and> lst_cursor st' = ver_Key r"
  by (auto simp: visit_def Let_def split: option.splits if_splits)

lemma visit_Some: "visit pre d a k r st = Inr (st', Some u) \<Longrightarrow> lst_inclusive st' \<and> lst_cursor st' = u \<and>
    (\<exists>p. listingCommonPrefix (ver_Key r) pre d = Some p \<and> PrefixUpperBound p = Some u)"
  by (auto simp: visit_def Let_def split: option.splits if_splits)

lemma visit_reset: "visit pre d a k r (st\<lparr>lst_cursor := c, lst_inclusive := i\<rparr>) = visit pre d a k r st"
proof (cases "listingCommonPrefix (ver_Key r) pre d")
  case (Some p)
  then show ?thesis
    by (cases "p \<in> set (lst_seenPrefixes st)"; cases "a = '''' \<or> a < p"; cases "PrefixUpperBound p"; simp add: visit_def Let_def listed_def)
qed (simp add: visit_def listed_def)

declare list_rows.simps(2) [simp del]

lemma skip_irrelevant: "\<forall>r \<in> set rows. \<not> skipped skip r \<Longrightarrow> list_rows pre d a k skip rows st = list_rows pre d a k '''' rows st"
proof (induction rows arbitrary: st)
  case (Cons r rows)
  then have "\<not> skipped skip r" by auto
  moreover have "list_rows pre d a k skip rows = list_rows pre d a k '''' rows" using Cons by auto
  ultimately show ?case by (simp only: list_rows_visit skipped_def if_False simp_thms)
qed simp

lemma list_rows_filter:
  assumes "sorted_wrt (\<lambda>r s. ver_Key r < ver_Key s) rows"
  shows "list_rows pre d a k skip rows st = list_rows pre d a k '''' (filter (\<lambda>r. \<not> skipped skip r) rows) st"
  using assms
proof (induction rows arbitrary: st)
  case (Cons r rows)
  show ?case
  proof (cases "skipped skip r")
    case False
    then have all: "\<forall>s \<in> set (r # rows). \<not> skipped skip s" using Cons.prems by (auto simp: skipped_def dest: less_trans)
    then have "filter (\<lambda>r. \<not> skipped skip r) (r # rows) = r # rows" by (simp only: filter_id_conv)
    with skip_irrelevant [OF all] show ?thesis by simp
  qed (use Cons in \<open>simp add: list_rows_visit\<close>)
qed simp

lemma list_rows_reset:
  "finish (list_rows pre d a k skip rows (st\<lparr>lst_cursor := c, lst_inclusive := i\<rparr>)) = finish (list_rows pre d a k skip rows st)"
  by (induction rows) (simp_all add: finish_def list_rows_visit visit_reset split: sum.split)

text \<open>While rows of a reported group are skipped, the cursor is the group's upper bound.\<close>

definition at_cursor :: "string \<Rightarrow> listing_state \<Rightarrow> VersionView list \<Rightarrow> bool" where
  "at_cursor skip st rows = (if lst_inclusive st then skip = lst_cursor st else \<forall>r \<in> set rows. \<not> skipped skip r)"

definition resume_at :: "listing_state \<Rightarrow> string" where
  "resume_at st = (if lst_inclusive st then lst_cursor st else '''')"

lemma at_cursor_visited:
  assumes "sorted_wrt (\<lambda>r s. ver_Key r < ver_Key s) (r # rows)" "\<not> skipped skip r" "\<not> lst_inclusive st"
  shows "at_cursor skip st rows"
  using assms by (auto simp: at_cursor_def skipped_def dest: less_trans)

lemma list_rows_append:
  assumes "sorted_wrt (\<lambda>r s. ver_Key r < ver_Key s) (B @ C)" "at_cursor skip st (B @ C)"
  shows "finish (list_rows pre d a k skip (B @ C) st) = (case list_rows pre d a k skip B st of Inl r \<Rightarrow> r
    | Inr st' \<Rightarrow> finish (list_rows pre d a k (resume_at st') C st'))"
  using assms
proof (induction B arbitrary: skip st)
  case Nil
  then show ?case by (cases "lst_inclusive st") (simp_all add: at_cursor_def resume_at_def skip_irrelevant [of C skip])
next
  case (Cons r B)
  have tl: "sorted_wrt (\<lambda>r s. ver_Key r < ver_Key s) (B @ C)" using Cons.prems(1) by simp
  show ?case
  proof (cases "skipped skip r")
    case True
    then have "at_cursor skip st (B @ C)" using Cons.prems(2) by (auto simp: at_cursor_def split: if_splits)
    from Cons.IH [OF tl this] True show ?thesis by (simp add: list_rows_visit)
  next
    case False
    have v: "at_cursor skip st' (B @ C)" if "\<not> lst_inclusive st'" for st'
      by (rule at_cursor_visited [OF _ False that]) (use Cons.prems(1) in simp)
    have u: "at_cursor u st' (B @ C)" if "lst_inclusive st' \<and> lst_cursor st' = u" for u st' using that by (simp add: at_cursor_def)
    note ih = Cons.IH [OF tl]
    show ?thesis
    proof (cases "visit pre d a k r st")
      case (Inr x)
      obtain st' o' where x: "x = (st', o')" by fastforce
      show ?thesis
      proof (cases o')
        case None
        with Inr x have vis: "visit pre d a k r st = Inr (st', None)" by simp
        with visit_None have "\<not> lst_inclusive st'" by blast
        from ih [OF v [OF this]] vis False show ?thesis by (simp add: list_rows_visit)
      next
        case (Some u')
        have "lst_inclusive st' \<and> lst_cursor st' = u'" using visit_Some Inr x Some by blast
        from ih [OF u [OF this]] Inr x False Some show ?thesis by (simp add: list_rows_visit)
      qed
    qed (use False in \<open>simp add: list_rows_visit finish_def\<close>)
  qed
qed

lemma sread_run: "faults w = [] \<Longrightarrow> sread f w = (Inr (f (domain (db w))), w)"
  by (simp add: sread_def query_def stmt_def)

lemma batch_run:
  assumes "faults w = []"
  shows "(if i then ListCurrentVersionsByBucketAtOrAfter b pre c listingBatchSize else ListCurrentVersionsByBucket b pre c listingBatchSize) w =
    (Inr (take 1000 (filter (beyond c i) (current_rows (domain (db w)) b pre))), w)"
  by (cases i) (simp_all add: ListCurrentVersionsByBucketAtOrAfter_def ListCurrentVersionsByBucket_def listCurrentVersionsByBucket_def
    sread_run [OF assms] limit_def listingBatchSize_def current_rows_def filter_sort beyond_def [abs_def] conj_ac)

text \<open>Where a batch leaves the cursor: at its last key, or at the bound of the group it ends in.\<close>

lemma batch_cursor:
  assumes "rows_ok pre rows" "utf8_text pre" "utf8_text d" "at_cursor skip st rows" "list_rows pre d a k skip rows st = Inr st'" "rows \<noteq> []"
  shows "if lst_inclusive st' then ver_Key (last rows) < lst_cursor st' else lst_cursor st' = ver_Key (last rows)"
  using assms(1,4-6)
proof (induction rows arbitrary: skip st)
  case (Cons r rows)
  note tl = rows_ok_tail [OF Cons.prems(1)]
  have srt: "sorted_wrt (\<lambda>r s. ver_Key r < ver_Key s) (r # rows)" using Cons.prems(1) by (simp add: rows_ok_def)
  show ?case
  proof (cases "skipped skip r")
    case True
    then have i: "lst_inclusive st" "skip = lst_cursor st" using Cons.prems(2) by (auto simp: at_cursor_def split: if_splits)
    have run: "list_rows pre d a k skip rows st = Inr st'" using Cons.prems(3) True by (simp add: list_rows_visit)
    have "at_cursor skip st rows" using i by (simp add: at_cursor_def)
    from Cons.IH [OF tl this run] run i True show ?thesis by (cases rows) (auto simp: skipped_def)
  next
    case False
    then obtain st1 o' where v: "visit pre d a k r st = Inr (st1, o')"
      using Cons.prems(3) by (auto simp: list_rows_visit split: sum.splits)
    show ?thesis
    proof (cases o')
      case None
      then have run: "list_rows pre d a k skip rows st1 = Inr st'" using Cons.prems(3) v False by (simp add: list_rows_visit)
      have c: "\<not> lst_inclusive st1" "lst_cursor st1 = ver_Key r" using visit_None v None by blast+
      from Cons.IH [OF tl at_cursor_visited [OF srt False c(1)] run] run c show ?thesis by (cases rows) auto
    next
      case (Some u)
      then have run: "list_rows pre d a k u rows st1 = Inr st'" using Cons.prems(3) v False by (simp add: list_rows_visit)
      obtain p where c: "lst_inclusive st1" "lst_cursor st1 = u"
        and p: "listingCommonPrefix (ver_Key r) pre d = Some p" "PrefixUpperBound p = Some u" using visit_Some v Some by blast
      have r: "utf8_text (ver_Key r)" "HasPrefix (ver_Key r) pre" using Cons.prems(1) by (auto simp: rows_ok_def)
      from upper_bound [OF utf8_common_prefix [OF p(1) r(2,1) assms(2,3)] r(1,1) common_prefix(1) [OF p(1) r(2)] order_refl] p(2)
        common_prefix(1) [OF p(1) r(2)] have "ver_Key r < u" by simp
      moreover have "at_cursor u st1 rows" using c by (simp add: at_cursor_def)
      ultimately show ?thesis using Cons.IH [OF tl _ run] run c by (cases rows) auto
    qed
  qed
qed simp

lemma beyond_mono: "beyond c i r \<Longrightarrow> ver_Key r \<le> ver_Key s \<Longrightarrow> beyond c i s"
  by (auto simp: beyond_def split: if_splits)

lemma rows_ok_filter: "rows_ok pre rows \<Longrightarrow> rows_ok pre (filter P rows)"
  by (simp add: rows_ok_def sorted_wrt_filter)

lemma rows_le_last: "rows_ok pre (B @ C) \<Longrightarrow> r \<in> set B \<Longrightarrow> ver_Key r \<le> ver_Key (last B)"
  by (induction B) (auto simp: rows_ok_def less_imp_le)

text \<open>The rows of the next batch are those of the same listing that the last batch left.\<close>

lemma next_batch:
  assumes "rows_ok pre L" "filter (beyond c i) L = B @ C" "B \<noteq> []"
    "if lst_inclusive st then ver_Key (last B) < lst_cursor st else lst_cursor st = ver_Key (last B)"
  shows "filter (beyond (lst_cursor st) (lst_inclusive st)) L = filter (\<lambda>r. \<not> skipped (resume_at st) r) C"
proof -
  let ?n = "beyond (lst_cursor st) (lst_inclusive st)"
  have ok: "rows_ok pre (B @ C)" using rows_ok_filter [OF assms(1)] assms(2) by metis
  have inT: "r \<in> set L \<and> beyond c i r" if "r \<in> set B \<union> set C" for r
  proof -
    have "r \<in> set (filter (beyond c i) L)" using that unfolding assms(2) by simp
    then show ?thesis by simp
  qed
  have lastB: "last B \<in> set B" using assms(3) by simp
  have ne: "lst_cursor st \<noteq> ''''" using assms(4) ok lastB by (auto simp: rows_ok_def split: if_splits)
  have gt: "ver_Key (last B) < ver_Key r" if "r \<in> set C" for r using that ok lastB by (auto simp: rows_ok_def sorted_wrt_append)
  have "?n r \<Longrightarrow> beyond c i r" for r
    by (rule beyond_mono [of _ _ "last B"]) (use assms(4) ne inT lastB in \<open>auto simp: beyond_def split: if_splits\<close>)
  then have "filter ?n L = filter ?n (filter (beyond c i) L)" by (auto intro: filter_cong)
  also have "\<not> ?n r" if "r \<in> set B" for r
    using rows_le_last [OF ok that] assms(4) ne by (auto simp: beyond_def split: if_splits)
  then have "filter ?n (filter (beyond c i) L) = filter ?n C" unfolding assms(2) by simp
  also have "\<dots> = filter (\<lambda>r. \<not> skipped (resume_at st) r) C"
    by (rule filter_cong [OF refl]) (use gt assms(4) ne in \<open>auto simp: beyond_def skipped_def resume_at_def not_less split: if_splits\<close>)
  finally show ?thesis .
qed

lemma list_batches_run:
  assumes "faults w = []" "rows_ok pre L" "L = current_rows (domain (db w)) b pre" "utf8_text pre" "utf8_text d"
    "length (filter (beyond (lst_cursor st) (lst_inclusive st)) L) < fuel"
  shows "list_batches fuel b pre d a k st w =
    (Inr (Some (finish (list_rows pre d a k '''' (filter (beyond (lst_cursor st) (lst_inclusive st)) L) st))), w)"
  using assms(6)
proof (induction fuel arbitrary: st)
  case (Suc fuel)
  define T where "T = filter (beyond (lst_cursor st) (lst_inclusive st)) L"
  define B where "B = take 1000 T"
  define C where "C = drop 1000 T"
  let ?st = "st\<lparr>lst_inclusive := False\<rparr>"
  have T: "T = B @ C" by (simp add: B_def C_def)
  have ok: "rows_ok pre (B @ C)" using rows_ok_filter [OF assms(2)] T T_def by metis
  have reset: "finish (list_rows pre d a k '''' rows ?st) = finish (list_rows pre d a k '''' rows st)" for rows
    using list_rows_reset [where st = st and c = "lst_cursor st" and i = False and skip = "''''"] by simp
  have at: "at_cursor '''' ?st rows" for rows by (simp add: at_cursor_def skipped_def)
  have srt: "sorted_wrt (\<lambda>r s. ver_Key r < ver_Key s) (B @ C)" "sorted_wrt (\<lambda>r s. ver_Key r < ver_Key s) C"
    using ok by (auto simp: rows_ok_def sorted_wrt_append)
  have run: "finish (list_rows pre d a k '''' T st) = (case list_rows pre d a k '''' B ?st of Inl r \<Rightarrow> r
    | Inr st' \<Rightarrow> finish (list_rows pre d a k (resume_at st') C st'))"
    unfolding reset [symmetric] T by (rule list_rows_append [OF srt(1) at])
  have batch: "(if lst_inclusive st then ListCurrentVersionsByBucketAtOrAfter b pre (lst_cursor st) listingBatchSize
      else ListCurrentVersionsByBucket b pre (lst_cursor st) listingBatchSize) w = (Inr B, w)"
    unfolding batch_run [OF assms(1)] B_def T_def assms(3) ..
  note unf = list_batches.simps(2) bindM_def batch ret_def listingBatchSize_def
  show ?case
  proof (cases "list_rows pre d a k '''' B ?st")
    case (Inl x)
    then show ?thesis unfolding T_def [symmetric] run by (cases "B = []") (simp_all add: unf)
  next
    case (Inr st')
    show ?thesis
    proof (cases "length B < 1000")
      case True
      then have "C = []" by (simp add: B_def C_def)
      with True Inr show ?thesis unfolding T_def [symmetric] run by (cases "B = []") (auto simp: unf finish_def)
    next
      case False
      then have ne: "B \<noteq> []" by auto
      have okB: "rows_ok pre B" using ok by (simp add: rows_ok_def sorted_wrt_append)
      note cur = batch_cursor [OF okB assms(4,5) at Inr ne]
      note nxt = next_batch [OF assms(2) T [unfolded T_def] ne cur]
      have "length (filter (\<lambda>r. \<not> skipped (resume_at st') r) C) \<le> length C" by simp
      also have "\<dots> < fuel" using Suc.prems ne unfolding T_def [symmetric] T by (cases B) auto
      finally have "length (filter (beyond (lst_cursor st') (lst_inclusive st')) L) < fuel" unfolding nxt .
      from Suc.IH [OF this] show ?thesis unfolding T_def [symmetric] run
        by (simp add: unf Inr False ne nxt list_rows_filter [OF srt(2)])
    qed
  qed
qed simp

section \<open>Pages\<close>

abbreviation cprefix :: "string \<Rightarrow> string \<Rightarrow> VersionView \<Rightarrow> string option" where
  "cprefix pre d r \<equiv> listingCommonPrefix (ver_Key r) pre d"

definition first_in :: "string \<Rightarrow> string \<Rightarrow> string set \<Rightarrow> VersionView list \<Rightarrow> VersionView \<Rightarrow> bool" where
  "first_in pre d S rows r = (case cprefix pre d r of None \<Rightarrow> True
     | Some p \<Rightarrow> p \<notin> S \<and> (\<forall>s \<in> set rows. ver_Key s < ver_Key r \<longrightarrow> cprefix pre d s \<noteq> Some p))"

lemma firsts_filter:
  assumes "sorted_wrt (\<lambda>r s. ver_Key r < ver_Key s) rows"
  shows "firsts pre d S rows = filter (first_in pre d S rows) rows"
  using assms
proof (induction rows arbitrary: S)
  case (Cons r rows)
  have hd: "first_in pre d S (r # rows) r = (case cprefix pre d r of None \<Rightarrow> True | Some p \<Rightarrow> p \<notin> S)"
    using Cons.prems by (auto simp: first_in_def split: option.splits dest: less_asym)
  have tl: "first_in pre d S (r # rows) s = first_in pre d (case cprefix pre d r of None \<Rightarrow> S | Some p \<Rightarrow> insert p S) rows s"
    if "s \<in> set rows" for s using that Cons.prems by (auto simp: first_in_def split: option.splits)
  from Cons.prems have "sorted_wrt (\<lambda>r s. ver_Key r < ver_Key s) rows" by simp
  from Cons.IH [OF this] show ?case
    by (auto simp: hd tl insert_absorb split: option.splits cong: filter_cong)
qed simp

lemma entries_filter:
  "sorted_wrt (\<lambda>r s. ver_Key r < ver_Key s) rows \<Longrightarrow>
    entries pre d a S rows = filter (\<lambda>r. first_in pre d S rows r \<and> visible pre d a r) rows"
  by (simp add: entries_def firsts_filter conj_commute)

text \<open>Where a page stops: before the first entry that has no room.\<close>

lemma stop_splits:
  assumes "sorted_wrt (\<lambda>r s. ver_Key r < ver_Key s) fs" "\<forall>r \<in> set fs. m < ver_Key r" "n < length (filter (visible pre d a) fs)"
  shows "filter (\<lambda>r. stop pre d a m n fs < ver_Key r) (filter (visible pre d a) fs) = drop n (filter (visible pre d a) fs)"
    "stop pre d a m n fs \<in> insert m (ver_Key ` set fs)" "0 < n \<Longrightarrow> stop pre d a m n fs \<in> ver_Key ` set fs"
proof -
  have "filter (\<lambda>r. stop pre d a m n fs < ver_Key r) (filter (visible pre d a) fs) = drop n (filter (visible pre d a) fs) \<and>
    stop pre d a m n fs \<in> insert m (ver_Key ` set fs) \<and> (0 < n \<longrightarrow> stop pre d a m n fs \<in> ver_Key ` set fs)"
    using assms
  proof (induction fs arbitrary: m n)
    case (Cons r fs)
    have tl: "sorted_wrt (\<lambda>r s. ver_Key r < ver_Key s) fs" "\<forall>s \<in> set fs. ver_Key r < ver_Key s" using Cons.prems(1) by auto
    show ?case
    proof (cases "visible pre d a r \<and> n = 0")
      case True
      have "filter (\<lambda>s. m < ver_Key s) (filter (visible pre d a) (r # fs)) = filter (visible pre d a) (r # fs)"
        by (rule filter_True) (use Cons.prems(2) in auto)
      with True show ?thesis by simp
    next
      case False
      define n' where "n' = (if visible pre d a r then n - 1 else n)"
      have s: "stop pre d a m n (r # fs) = stop pre d a (ver_Key r) n' fs" using False by (auto simp: n'_def split: nat.split)
      have "n' < length (filter (visible pre d a) fs)" using Cons.prems(3) False by (auto simp: n'_def)
      from Cons.IH [OF tl this] have ih: "filter (\<lambda>s. stop pre d a (ver_Key r) n' fs < ver_Key s) (filter (visible pre d a) fs) = drop n' (filter (visible pre d a) fs)"
        "stop pre d a (ver_Key r) n' fs \<in> insert (ver_Key r) (ver_Key ` set fs)" by blast+
      have "\<not> stop pre d a (ver_Key r) n' fs < ver_Key r" using ih(2) tl(2) by (auto dest: less_asym)
      then show ?thesis unfolding s using ih False by (cases n) (auto simp: n'_def)
    qed
  qed simp
  then show "filter (\<lambda>r. stop pre d a m n fs < ver_Key r) (filter (visible pre d a) fs) = drop n (filter (visible pre d a) fs)"
    "stop pre d a m n fs \<in> insert m (ver_Key ` set fs)" "0 < n \<Longrightarrow> stop pre d a m n fs \<in> ver_Key ` set fs" by blast+
qed

text \<open>The entries after a marker that is a key of the listing are the entries of the rows after it.\<close>

lemma entries_after:
  assumes "rows_ok pre rows" "r0 \<in> set rows" "m = ver_Key r0" "\<forall>r \<in> set rows. a = '''' \<or> a < ver_Key r"
  shows "entries pre d m {} (filter (\<lambda>r. m < ver_Key r) rows) = filter (\<lambda>r. m < ver_Key r) (entries pre d a {} rows)"
proof -
  have srt: "sorted_wrt (\<lambda>r s. ver_Key r < ver_Key s) rows" using assms(1) by (simp add: rows_ok_def)
  have pre: "HasPrefix (ver_Key r) pre" if "r \<in> set rows" for r using that assms(1) by (simp add: rows_ok_def)
  have iff: "(first_in pre d {} (filter (\<lambda>r. m < ver_Key r) rows) r \<and> visible pre d m r) = (first_in pre d {} rows r \<and> visible pre d a r)"
    if r: "r \<in> set rows" and gt: "m < ver_Key r" for r
  proof (cases "cprefix pre d r")
    case (Some p)
    note cp = common_prefix [OF Some pre [OF r]]
    have m: "m \<noteq> ''''" using assms(1-3) by (auto simp: rows_ok_def)
    have le: "p \<le> ver_Key s" if "s \<in> set rows" "cprefix pre d s = Some p" for s
      using HasPrefix_le [OF common_prefix(1) [OF that(2) pre [OF that(1)]]] .
    show ?thesis
    proof (cases "m < p")
      case True
      have "a = '''' \<or> a < p" using assms(2-4) True by (auto dest: less_trans)
      moreover have "m < ver_Key s" if "s \<in> set rows" "cprefix pre d s = Some p" for s using le [OF that] True by simp
      ultimately show ?thesis using Some True by (auto simp: first_in_def visible_def)
    next
      case False
      then have "HasPrefix m p" using HasPrefix_between [OF cp(1), of m] gt by simp
      then have "cprefix pre d r0 = Some p" using cp(2) pre [OF assms(2)] assms(3) by blast
      then have "\<not> first_in pre d {} rows r" using assms(2,3) gt Some by (auto simp: first_in_def)
      then show ?thesis using False Some m by (simp add: visible_def)
    qed
  qed (simp add: first_in_def visible_def)
  have "entries pre d m {} (filter (\<lambda>r. m < ver_Key r) rows) =
      filter (\<lambda>r. m < ver_Key r \<and> first_in pre d {} (filter (\<lambda>r. m < ver_Key r) rows) r \<and> visible pre d m r) rows"
    by (simp add: entries_filter sorted_wrt_filter [OF srt] conj_commute conj_left_commute)
  also have "\<dots> = filter (\<lambda>r. m < ver_Key r) (entries pre d a {} rows)"
    unfolding entries_filter [OF srt] filter_filter by (rule filter_cong [OF refl]) (use iff in auto)
  finally show ?thesis .
qed

section \<open>The rows of a listing\<close>

lemma map_filter_distinct:
  assumes "distinct (map f xs)" "\<And>x y. g x = Some y \<Longrightarrow> h y = f x"
  shows "distinct (map h (List.map_filter g xs))"
  using assms(1)
proof (induction xs)
  case (Cons x xs)
  have "h y \<in> f ` set xs" if "y \<in> set (List.map_filter g xs)" for y
    using that assms(2) by (force simp: List.map_filter_def)
  with Cons show ?case by (cases "g x") (auto simp: List.map_filter_def assms(2))
qed (simp add: List.map_filter_def)

lemma views_distinct: "obj_wf d \<Longrightarrow> distinct (map ver_VersionID (views d))"
  unfolding views_def
  by (rule map_filter_distinct [OF obj_wfD(3)]) (auto dest: project_Some(1))

lemma current_key_unique:
  assumes "obj_wf d" "x \<in> set (views d)" "y \<in> set (views d)" "ver_IsCurrent x" "ver_IsCurrent y"
    "ver_BucketID x = ver_BucketID y" "ver_Key x = ver_Key y"
  shows "ver_VersionID x = ver_VersionID y"
  using view_object [OF assms(1,2)] view_object [OF assms(1,3)] assms(4-7) by auto

definition text_keys :: "storage_db \<Rightarrow> bool" where
  "text_keys d = list_all (\<lambda>v. utf8_text (ver_Key v) \<and> ver_Key v \<noteq> '''') (object_versions d)"

lemma current_rows_ok:
  assumes "obj_wf d" "text_keys d" "utf8_text pre"
  shows "rows_ok pre (current_rows d b pre)"
proof -
  let ?P = "\<lambda>v. ver_BucketID v = b \<and> ver_IsCurrent v \<and> \<not> ver_IsDeleteMarker v \<and> caseSensitivePrefix pre (ver_Key v)"
  have tx: "utf8_text (ver_Key x) \<and> ver_Key x \<noteq> ''''" if "x \<in> set (views d)" for x
    using viewD(1) [OF that] assms(2) by (auto simp: text_keys_def list_all_iff dest: bspec)
  have ids: "distinct (map ver_VersionID (filter ?P (views d)))" using views_distinct [OF assms(1)] by (rule distinct_map_filter)
  have "inj_on ver_Key (set (filter ?P (views d)))"
  proof (rule inj_onI)
    fix x y assume xy: "x \<in> set (filter ?P (views d))" "y \<in> set (filter ?P (views d))" and key: "ver_Key x = ver_Key y"
    have "ver_VersionID x = ver_VersionID y" by (rule current_key_unique [OF assms(1)]) (use xy key in auto)
    then show "x = y" by (rule distinct_map_inj [OF ids xy])
  qed
  then have "distinct (map ver_Key (current_rows d b pre))"
    using ids by (simp add: distinct_map current_rows_def)
  then have "sorted_wrt (<) (map ver_Key (current_rows d b pre))"
    by (simp add: strict_sorted_iff current_rows_def)
  then show ?thesis using tx prefix_filter_text [OF assms(3)] by (auto simp: rows_ok_def sorted_wrt_map current_rows_def)
qed

lemma current_rows_length: "length (current_rows d b pre) \<le> length (object_versions d)"
proof -
  have "length (views d) \<le> length (object_versions d)" by (simp add: views_def List.map_filter_def)
  then show ?thesis unfolding current_rows_def length_sort by (rule order_trans [OF length_filter_le])
qed

section \<open>Following the markers\<close>

lemma beyond_marker: "filter (beyond a False) rows = filter (\<lambda>r. a = '''' \<or> a < ver_Key r) rows"
  by (simp add: beyond_def [abs_def])

definition page_entries :: "string \<Rightarrow> string \<Rightarrow> VersionView list \<Rightarrow> string \<Rightarrow> VersionView list" where
  "page_entries pre d rows a = entries pre d a {} (filter (beyond a False) rows)"

lemma listing_page:
  assumes "faults w = []" "rows_ok pre L" "L = current_rows (domain (db w)) b pre" "utf8_text pre" "utf8_text d" "length L < fuel" "0 < k"
  shows "\<exists>m. listCurrentObjects fuel b pre d a (int k) w =
      (Inr (Some (objects_in pre d (take k (page_entries pre d L a)), prefixes_in pre d (take k (page_entries pre d L a)),
        k < length (page_entries pre d L a), m)), w) \<and>
    (k < length (page_entries pre d L a) \<longrightarrow> page_entries pre d L m = drop k (page_entries pre d L a))"
proof -
  define rows where "rows = filter (beyond a False) L"
  let ?st = "\<lparr>lst_objects = [], lst_prefixes = [], lst_seenPrefixes = [], lst_cursor = a, lst_inclusive = False, lst_lastMarker = a\<rparr>"
  define m where "m = (if k < length (page_entries pre d L a) then stop pre d a a k (firsts pre d {} rows) else '''')"
  have ok: "rows_ok pre rows" unfolding rows_def by (rule rows_ok_filter [OF assms(2)])
  have srt: "sorted_wrt (\<lambda>r s. ver_Key r < ver_Key s) rows" using ok by (simp add: rows_ok_def)
  have gt: "a = '''' \<or> a < ver_Key r" if "r \<in> set rows" for r using that unfolding rows_def beyond_marker by simp
  have gt': "a < ver_Key r" if "r \<in> set rows" for r using gt [OF that] that ok by (cases "ver_Key r") (auto simp: rows_ok_def)
  have "length (filter (beyond a False) L) < fuel" using assms(6) length_filter_le le_less_trans by blast
  from list_batches_run [OF assms(1-5), of ?st fuel a "int k"] this
  have run: "listCurrentObjects fuel b pre d a (int k) w = (Inr (Some (finish (list_rows pre d a (int k) '''' rows ?st))), w)"
    using assms(7) by (simp add: listCurrentObjects_def rows_def)
  have "finish (list_rows pre d a (int k) '''' rows ?st) = page_of pre d a k {} rows ?st"
    by (rule list_rows_page [OF ok assms(4,5)]) (simp_all add: skips_def listed_def)
  then have page: "listCurrentObjects fuel b pre d a (int k) w =
      (Inr (Some (objects_in pre d (take k (page_entries pre d L a)), prefixes_in pre d (take k (page_entries pre d L a)),
        k < length (page_entries pre d L a), m)), w)"
    unfolding run m_def page_entries_def rows_def [symmetric] by (simp add: page_of_def Let_def listed_def)
  have "page_entries pre d L m = drop k (page_entries pre d L a)" if lt: "k < length (page_entries pre d L a)"
  proof -
    let ?fs = "firsts pre d {} rows"
    have e: "page_entries pre d L a = filter (visible pre d a) ?fs" by (simp add: page_entries_def rows_def entries_def)
    have sub: "set ?fs \<subseteq> set rows" unfolding firsts_filter [OF srt] by auto
    have s: "sorted_wrt (\<lambda>r s. ver_Key r < ver_Key s) ?fs" unfolding firsts_filter [OF srt] by (rule sorted_wrt_filter [OF srt])
    have "\<forall>r \<in> set ?fs. a < ver_Key r" using sub gt' by blast
    note st = stop_splits [OF s this lt [unfolded e]]
    obtain r0 where r0: "r0 \<in> set rows" "m = ver_Key r0" using st(3) [OF assms(7)] lt sub by (auto simp: m_def)
    have m: "m \<noteq> ''''" using r0 ok by (auto simp: rows_ok_def)
    have "filter (beyond m False) L = filter (\<lambda>r. m < ver_Key r) rows"
      unfolding beyond_marker rows_def filter_filter using gt [OF r0(1)] r0(2) m by (auto intro!: filter_cong dest: less_trans)
    then have "page_entries pre d L m = filter (\<lambda>r. m < ver_Key r) (page_entries pre d L a)"
      using entries_after [OF ok r0, of a d] gt unfolding page_entries_def rows_def [symmetric] by simp
    also have "\<dots> = drop k (page_entries pre d L a)" using st(1) lt unfolding e m_def by simp
    finally show ?thesis .
  qed
  with page show ?thesis by blast
qed

text \<open>A client that asks for page after page, each from the marker the last one returned.\<close>

fun list_pages :: "nat \<Rightarrow> nat \<Rightarrow> int \<Rightarrow> string \<Rightarrow> string \<Rightarrow> string \<Rightarrow> int \<Rightarrow> (VersionView list \<times> string list) option SDB" where
  "list_pages 0 fuel bucketID prefix delimiter afterKey maxKeys = ret None"
| "list_pages (Suc pages) fuel bucketID prefix delimiter afterKey maxKeys =
     bindM (listCurrentObjects fuel bucketID prefix delimiter afterKey maxKeys) (\<lambda>page. case page of
         None \<Rightarrow> ret None
       | Some (os, ps, truncated, next) \<Rightarrow> if \<not> truncated then ret (Some (os, ps))
           else bindM (list_pages pages fuel bucketID prefix delimiter next maxKeys) (\<lambda>rest. ret
             (map_option (\<lambda>(os', ps'). (os @ os', ps @ ps')) rest)))"

lemma in_append: "objects_in pre d (xs @ ys) = objects_in pre d xs @ objects_in pre d ys"
  "prefixes_in pre d (xs @ ys) = prefixes_in pre d xs @ prefixes_in pre d ys"
  by (simp_all add: objects_in_def prefixes_in_def List.map_filter_def)

lemma pages_run:
  assumes "faults w = []" "rows_ok pre L" "L = current_rows (domain (db w)) b pre" "utf8_text pre" "utf8_text d" "length L < fuel" "0 < k"
    "length (page_entries pre d L a) < pages"
  shows "list_pages pages fuel b pre d a (int k) w =
    (Inr (Some (objects_in pre d (page_entries pre d L a), prefixes_in pre d (page_entries pre d L a))), w)"
  using assms(8)
proof (induction pages arbitrary: a)
  case (Suc pages)
  let ?e = "page_entries pre d L a"
  obtain m where m: "listCurrentObjects fuel b pre d a (int k) w =
      (Inr (Some (objects_in pre d (take k ?e), prefixes_in pre d (take k ?e), k < length ?e, m)), w)"
    "k < length ?e \<Longrightarrow> page_entries pre d L m = drop k ?e" using listing_page [OF assms(1-7)] by blast
  show ?case
  proof (cases "k < length ?e")
    case True
    then have "length (page_entries pre d L m) < pages" using Suc.prems assms(7) m(2) by simp
    from Suc.IH [OF this] m True show ?thesis
      by (simp add: bindM_def ret_def in_append [symmetric])
  qed (simp add: m(1) bindM_def ret_def)
qed simp

lemma entries_all:
  assumes "rows_ok pre L"
  shows "objects_in pre d (page_entries pre d L '''') = filter (\<lambda>r. cprefix pre d r = None) L"
    "distinct (prefixes_in pre d (page_entries pre d L ''''))"
    "set (prefixes_in pre d (page_entries pre d L '''')) = {p. \<exists>r \<in> set L. cprefix pre d r = Some p}"
proof -
  have vis: "visible pre d '''' = (\<lambda>_. True)" by (auto simp: visible_def split: option.split)
  have e: "page_entries pre d L '''' = firsts pre d {} L" by (simp add: page_entries_def entries_def vis beyond_def [abs_def])
  have "objects_in pre d (firsts pre d S rows) = filter (\<lambda>r. cprefix pre d r = None) rows \<and>
    distinct (prefixes_in pre d (firsts pre d S rows)) \<and>
    set (prefixes_in pre d (firsts pre d S rows)) = {p. p \<notin> S \<and> (\<exists>r \<in> set rows. cprefix pre d r = Some p)}" for S rows
    by (induction rows arbitrary: S) (auto split: option.split)
  from this [of "{}" L] show "objects_in pre d (page_entries pre d L '''') = filter (\<lambda>r. cprefix pre d r = None) L"
    "distinct (prefixes_in pre d (page_entries pre d L ''''))"
    "set (prefixes_in pre d (page_entries pre d L '''')) = {p. \<exists>r \<in> set L. cprefix pre d r = Some p}" unfolding e by simp_all
qed

text \<open>C5: following the markers of a listing, page after page, reports every current object of
  the bucket whose key starts with the prefix: the objects without a common prefix exactly once, in
  key order, and each common prefix exactly once, for every page size and however the rows fall into
  pages and batches. One batch and one page more than there are versions are enough.\<close>

theorem listing_pages_complete:
  assumes "schema_ok w" "faults w = []" "text_keys (domain (db w))" "utf8_text pre" "utf8_text d" "0 < maxKeys"
    "length (object_versions (domain (db w))) < fuel" "length (object_versions (domain (db w))) < pages"
    "rows = sort_key ver_Key (filter (\<lambda>v. ver_BucketID v = b \<and> ver_IsCurrent v \<and> \<not> ver_IsDeleteMarker v \<and>
       HasPrefix (ver_Key v) pre) (views (domain (db w))))"
  shows "\<exists>ps. list_pages pages fuel b pre d '''' maxKeys w =
      (Inr (Some (filter (\<lambda>r. listingCommonPrefix (ver_Key r) pre d = None) rows, ps)), w) \<and>
    distinct ps \<and> set ps = {p. \<exists>r \<in> set rows. listingCommonPrefix (ver_Key r) pre d = Some p}"
proof -
  let ?d = "domain (db w)"
  have tx: "utf8_text (ver_Key x)" if "x \<in> set (views ?d)" for x
    using viewD(1) [OF that] assms(3) by (auto simp: text_keys_def list_all_iff dest: bspec)
  have rows: "rows = current_rows ?d b pre" unfolding assms(9) current_rows_def
    by (rule arg_cong [of _ _ "sort_key ver_Key"], rule filter_cong [OF refl]) (simp add: prefix_filter_text [OF assms(4) tx])
  have ok: "rows_ok pre rows" unfolding rows by (rule current_rows_ok [OF schema_ok_wf [OF assms(1)] assms(3,4)])
  have len: "length rows \<le> length (object_versions ?d)" unfolding rows by (rule current_rows_length)
  have "length (page_entries pre d rows '''') \<le> length rows"
    using ok by (simp add: page_entries_def entries_filter rows_ok_def beyond_def [abs_def])
  then have n: "length rows < fuel" "length (page_entries pre d rows '''') < pages" "0 < nat maxKeys" using len assms(6-8) by simp_all
  from pages_run [OF assms(2) ok rows assms(4,5) n(1,3,2)] assms(6) entries_all [OF ok, of d] show ?thesis by simp
qed

definition listing_db :: storage_db where
  "listing_db = example_db\<lparr>
     objects := map (\<lambda>(i, k). \<lparr>obj_ID = i, obj_BucketID = 1, obj_Key = k, obj_CurrentVersionID = Some (''v-'' @ k), obj_CreatedAt = 1, obj_UpdatedAt = 1\<rparr>)
       [(1, ''p/2''), (2, ''k''), (3, ''p/1''), (4, ''z'')],
     object_versions := map (\<lambda>(i, k). (example_version (''v-'' @ k))\<lparr>ver_ObjectID := i, ver_Key := k\<rparr>)
       [(1, ''p/2''), (2, ''k''), (3, ''p/1''), (4, ''z'')]\<rparr>"

lemma ascii_text: "list_all (\<lambda>c. of_char c < (128 :: nat)) s \<Longrightarrow> utf8_text s"
proof -
  assume a: "list_all (\<lambda>c. of_char c < (128 :: nat)) s"
  have v: "list_all valid_rune (map of_char s)" using a by (induction s) (auto simp: valid_rune_def MaxRune_def)
  have "string_of_runes (map of_char s) = s" using a by (induction s) (auto simp: string_of_runes_def enc_rune_def)
  with utf8_string [OF v] show ?thesis by simp
qed

theorem listing_pages_complete_witness:
  "schema_ok (storage_world listing_db) \<and> text_keys listing_db \<and>
   (\<exists>os. list_pages 5 5 1 '''' ''/'' '''' 1 (storage_world listing_db) = (Inr (Some (os, [''p/''])), storage_world listing_db) \<and>
      map ver_Key os = [''k'', ''z''])"
proof -
  let ?w = "storage_world listing_db"
  let ?rows = "sort_key ver_Key (filter (\<lambda>v. ver_BucketID v = 1 \<and> ver_IsCurrent v \<and> \<not> ver_IsDeleteMarker v \<and>
       HasPrefix (ver_Key v) '''') (views (domain (db ?w))))"
  have ok: "schema_ok ?w" by code_simp
  have f: "faults ?w = []" "domain (db ?w) = listing_db" by (simp_all add: storage_world_def)
  have t: "text_keys (domain (db ?w))" "utf8_text ''''" "utf8_text ''/''" "length (object_versions (domain (db ?w))) < 5"
    unfolding f(2) by (simp_all add: text_keys_def listing_db_def ascii_text)
  obtain ps where ps: "list_pages 5 5 1 '''' ''/'' '''' 1 ?w =
      (Inr (Some (filter (\<lambda>r. listingCommonPrefix (ver_Key r) '''' ''/'' = None) ?rows, ps)), ?w)"
    "distinct ps" "set ps = {p. \<exists>r \<in> set ?rows. listingCommonPrefix (ver_Key r) '''' ''/'' = Some p}"
    using listing_pages_complete [OF ok f(1) t(1-3), of 1 5 5 ?rows 1] t(4) by auto
  have "{p. \<exists>r \<in> set ?rows. listingCommonPrefix (ver_Key r) '''' ''/'' = Some p} =
      {p. Some p \<in> set (map (\<lambda>r. listingCommonPrefix (ver_Key r) '''' ''/'') ?rows)}" by (simp only: set_map image_iff eq_commute [of "Some _"])
  also have "map (\<lambda>r. listingCommonPrefix (ver_Key r) '''' ''/'') ?rows = [None, Some ''p/'', Some ''p/'', None]" by code_simp
  finally have "set ps = {''p/''}" unfolding ps(3) by auto
  with ps(2) have "ps = [''p/'']" by (cases ps; cases "tl ps") auto
  moreover have "map ver_Key (filter (\<lambda>r. listingCommonPrefix (ver_Key r) '''' ''/'' = None) ?rows) = [''k'', ''z'']" by code_simp
  ultimately show ?thesis using ok t(1) f(2) ps(1) by auto
qed

end
