(* ===== verification/S3_Page_Size.thy ===== *)
theory S3_Page_Size
  imports S3_Listing
begin

text \<open>The size of a page of a listing, of current objects and of versions.\<close>

section \<open>Page sizes\<close>

definition page_fits :: "int \<Rightarrow> nat \<Rightarrow> bool \<Rightarrow> bool" where
  "page_fits maxKeys n truncated = (int n \<le> max 0 maxKeys \<and> (truncated \<longrightarrow> int n = maxKeys))"

definition rows_fit :: "int \<Rightarrow> listing + listing_state \<Rightarrow> bool" where
  "rows_fit k x = (case x of Inl (os, ps, truncated, m) \<Rightarrow> page_fits k (length os + length ps) truncated | Inr st \<Rightarrow> int (listed st) \<le> k)"

definition version_rows_fit :: "int \<Rightarrow> version_listing + version_listing_state \<Rightarrow> bool" where
  "version_rows_fit k x = (case x of Inl (vs, ps, truncated, m, n) \<Rightarrow> page_fits k (length vs + length ps) truncated
     | Inr st \<Rightarrow> int (listed_versions st) \<le> k)"

lemma list_rows_fit: "int (listed st) \<le> k \<Longrightarrow> rows_fit k (list_rows pre d a k skip rows st)"
proof (induction rows arbitrary: skip st)
  case (Cons r rows)
  have v: "case visit pre d a k r st of Inl x \<Rightarrow> rows_fit k (Inl x) | Inr (st', _) \<Rightarrow> int (listed st') \<le> k"
    using Cons.prems by (auto simp: visit_def Let_def rows_fit_def page_fits_def listed_def split: option.split)
  show ?case using v Cons
    by (cases "visit pre d a k r st") (auto simp: list_rows_visit split: option.split)
qed (simp add: rows_fit_def)

lemma list_version_rows_fit: "int (listed_versions st) \<le> k \<Longrightarrow> version_rows_fit k (list_version_rows pre d a k skip rows st)"
proof (induction rows arbitrary: skip st)
  case (Cons r rows)
  show ?case
  proof (cases "listingCommonPrefix (ver_Key r) pre d")
    case None
    with Cons show ?thesis by (simp add: Let_def version_rows_fit_def page_fits_def listed_versions_def)
  next
    case (Some p)
    show ?thesis
      by (cases "p \<in> set (vls_seenPrefixes st)"; cases "a = '''' \<or> a < p"; cases "PrefixUpperBound p")
        (use Cons Some in \<open>simp_all add: Let_def version_rows_fit_def page_fits_def listed_versions_def\<close>)
  qed
qed (simp add: version_rows_fit_def)

lemma list_batches_fit:
  "int (listed st) \<le> k \<Longrightarrow> 0 < k \<Longrightarrow> fst (list_batches fuel b pre d a k st w) = Inr (Some (os, ps, truncated, m)) \<Longrightarrow>
    page_fits k (length os + length ps) truncated"
proof (induction fuel arbitrary: st w)
  case (Suc fuel)
  obtain r w' where q: "(if lst_inclusive st then ListCurrentVersionsByBucketAtOrAfter b pre (lst_cursor st) listingBatchSize
      else ListCurrentVersionsByBucket b pre (lst_cursor st) listingBatchSize) w = (r, w')" by fastforce
  have fit: "rows_fit k (list_rows pre d a k '''' rows (st\<lparr>lst_inclusive := False\<rparr>))" for rows
    by (rule list_rows_fit) (use Suc.prems(1) in \<open>simp add: listed_def\<close>)
  obtain rows where r: "r = Inr rows" using Suc.prems(3) q by (cases r) (auto simp: bindM_def)
  have now: "page_fits k (length (lst_objects st') + length (lst_prefixes st')) False" if "int (listed st') \<le> k" for st'
    using that Suc.prems(2) by (auto simp: page_fits_def listed_def)
  show ?case using Suc.prems now [of st] now fit [of rows] Suc.IH q r
    by (cases "list_rows pre d a k '''' rows (st\<lparr>lst_inclusive := False\<rparr>)")
      (auto simp: bindM_def ret_def rows_fit_def split: if_splits)
qed (simp add: ret_def)

lemma list_version_batches_fit:
  "int (listed_versions st) \<le> k \<Longrightarrow> 0 < k \<Longrightarrow> fst (list_version_batches fuel b pre d a k st w) = Inr (Some (vs, ps, truncated, m, n)) \<Longrightarrow>
    page_fits k (length vs + length ps) truncated"
proof (induction fuel arbitrary: st w)
  case (Suc fuel)
  obtain r w' where q: "(if vls_inclusive st then ListVersionsByBucketAtOrAfter b pre (vls_cursorKey st) listingBatchSize
      else ListVersionsByBucket b pre (vls_cursorKey st) (vls_cursorVersion st) listingBatchSize) w = (r, w')" by fastforce
  have fit: "version_rows_fit k (list_version_rows pre d a k '''' rows (st\<lparr>vls_inclusive := False\<rparr>))" for rows
    by (rule list_version_rows_fit) (use Suc.prems(1) in \<open>simp add: listed_versions_def\<close>)
  obtain rows where r: "r = Inr rows" using Suc.prems(3) q by (cases r) (auto simp: bindM_def)
  have now: "page_fits k (length (vls_versions st') + length (vls_prefixes st')) False" if "int (listed_versions st') \<le> k" for st'
    using that Suc.prems(2) by (auto simp: page_fits_def listed_versions_def)
  show ?case using Suc.prems now [of st] now fit [of rows] Suc.IH q r
    by (cases "list_version_rows pre d a k '''' rows (st\<lparr>vls_inclusive := False\<rparr>)")
      (auto simp: bindM_def ret_def version_rows_fit_def split: if_splits)
qed (simp add: ret_def)



end
