(* ===== verification/Commit_Repo.thy ===== *)
theory Commit_Repo
  imports Object_Store
begin

text \<open>
  \<open>storage_commit_repo.go\<close> and \<open>storage_commit_controls.go\<close>: the lifecycle of a commit request, the
  signed add-pieces request that registers copies of one data set on chain.

  A request collects transferred copies, is sealed into a signed list of pieces, is submitted
  (perhaps several times) and ends confirmed or abandoned. Every operation names the request and,
  once it is sealed, the task that drives it.

  \<open>redact\<close> stands for \<open>errtext.Redact\<close>, whose rules depend on the configured secrets, and
  \<open>big_ok\<close> for the range check of the SDK's \<open>BigIntFromBig\<close>. An on-chain id is a number; its column holds
  its decimal digits. \<open>locked\<close> are the tasks whose rows other transactions hold.
\<close>

section \<open>Times, rows and locks\<close>

definition commitInputTime :: "time \<Rightarrow> time SDB" where
  "commitInputTime t = (if t = 0 then now else ret t)"

definition nullableTime :: "time \<Rightarrow> time option" where
  "nullableTime t = (if t = 0 then None else Some t)"

definition requireCommitRowCount :: "nat \<Rightarrow> nat \<Rightarrow> unit SDB" where
  "requireCommitRowCount rows expected = (if rows \<noteq> expected then fail ErrConflict else ret ())"

definition Terminal :: "RequestStatus \<Rightarrow> bool" where
  "Terminal s = (s = RequestStatusConfirmed \<or> s = RequestStatusAbandoned)"

definition Sent :: "CommitRequest \<Rightarrow> bool" where
  "Sent r = (req_FirstSentAt r \<noteq> None)"

definition MaxSubmittedRequestsPerDataSet :: int where
  "MaxSubmittedRequestsPerDataSet = 4"

definition CommitQueueWaitReason :: string where
  "CommitQueueWaitReason = ''commit_queue''"

definition lockCommitMemberContents :: "string \<Rightarrow> unit SDB" where
  "lockCommitMemberContents q =
     bindM (sread (\<lambda>d. map cpy_ContentID (filter (\<lambda>c. cpy_CommitRequestID c = Some q) (storage_copies d)))) (\<lambda>contentIDs.
     bindM (lockStorageContentsByID contentIDs) (\<lambda>_. ret ()))"

definition lockCommitDataSet :: "int \<Rightarrow> StorageDataSet SDB" where
  "lockCommitDataSet i = bindM (sread (\<lambda>d. find (\<lambda>s. sds_ID s = i) (storage_data_sets d)))
     (\<lambda>s. case s of None \<Rightarrow> fail ErrNotFound | Some s \<Rightarrow> ret s)"

definition find_request :: "storage_db \<Rightarrow> string \<Rightarrow> CommitRequest option" where
  "find_request d q = find (\<lambda>r. req_RequestID r = q) (storage_commit_requests d)"

definition lockCommitRequestDataSet :: "string \<Rightarrow> unit SDB" where
  "lockCommitRequestDataSet q = bindM (sread (\<lambda>d. find_request d q)) (\<lambda>r. case r of
       None \<Rightarrow> fail ErrConflict
     | Some r \<Rightarrow> bindM (lockCommitDataSet (req_StorageDataSetID r)) (\<lambda>_. ret ()))"

definition lockOwnedCommitRequest :: "string \<Rightarrow> int \<Rightarrow> RequestStatus option \<Rightarrow> CommitRequest SDB" where
  "lockOwnedCommitRequest q taskID status = bindM (lockCommitRequest q status)
     (\<lambda>r. if req_TaskID r \<noteq> Some taskID then fail ErrConflict else ret r)"

text \<open>The rows a mutation of an owned request may change.\<close>

definition owned :: "string \<Rightarrow> int \<Rightarrow> RequestStatus \<Rightarrow> CommitRequest \<Rightarrow> bool" where
  "owned q taskID s r = (req_RequestID r = q \<and> req_TaskID r = Some taskID \<and> req_Status r = s)"

section \<open>The submission queue\<close>

definition countSubmittedCommitRequests :: "int \<Rightarrow> int SDB" where
  "countSubmittedCommitRequests i = sread (\<lambda>d. int (length (filter
     (\<lambda>r. req_StorageDataSetID r = i \<and> req_Status r = RequestStatusSubmitted) (storage_commit_requests d))))"

definition countOpenCommitRequests :: "int \<Rightarrow> int SDB" where
  "countOpenCommitRequests i = sread (\<lambda>d. int (length (filter
     (\<lambda>r. req_StorageDataSetID r = i \<and> req_Status r \<noteq> RequestStatusConfirmed \<and> req_Status r \<noteq> RequestStatusAbandoned)
     (storage_commit_requests d))))"

definition task_runs :: "storage_db tables \<Rightarrow> int option \<Rightarrow> bool" where
  "task_runs t i = list_ex (\<lambda>r. Some (task_ID r) = i \<and> (task_Status r = TaskStatusPending \<or> task_Status r = TaskStatusRunning)) (tasks t)"

definition transferred_members :: "storage_db \<Rightarrow> string \<Rightarrow> int" where
  "transferred_members d q = int (length (filter
     (\<lambda>c. cpy_CommitRequestID c = Some q \<and> cpy_Status c = StorageCopyStatusCommitting) (storage_copies d)))"

definition eligible_ready :: "storage_db tables \<Rightarrow> int \<Rightarrow> time \<Rightarrow> CommitRequest \<Rightarrow> bool" where
  "eligible_ready t i n r = (req_StorageDataSetID r = i \<and> req_Status r = RequestStatusReady \<and>
     (case req_RetryAt r of None \<Rightarrow> True | Some a \<Rightarrow> a \<le> n) \<and> task_runs t (req_TaskID r) \<and>
     req_PieceCount r = transferred_members (domain t) (req_RequestID r))"

definition eligibleReadyCommitRequest :: "int \<Rightarrow> time \<Rightarrow> string SDB" where
  "eligibleReadyCommitRequest i n = query (\<lambda>t. case min_row (\<lambda>r. (the (req_SealedAt r), req_RequestID r))
     (filter (eligible_ready t i n) (storage_commit_requests (domain t))) of None \<Rightarrow> '''' | Some r \<Rightarrow> req_RequestID r)"

record CommitQueueState =
  cqs_Submitted :: int
  cqs_ReadyHead :: string

definition CommitQueueState :: "int \<Rightarrow> time \<Rightarrow> CommitQueueState SDB" where
  "CommitQueueState i n = bindM (countSubmittedCommitRequests i) (\<lambda>submitted.
     bindM (eligibleReadyCommitRequest i n) (\<lambda>head. ret \<lparr>cqs_Submitted = submitted, cqs_ReadyHead = head\<rparr>))"

definition waits_in_queue :: "storage_db tables \<Rightarrow> CommitRequest \<Rightarrow> bool" where
  "waits_in_queue t r = (req_Status r = RequestStatusCollecting \<and>
     list_ex (\<lambda>k. Some (task_ID k) = req_TaskID r \<and> task_Status k = TaskStatusPending \<and>
       task_WaitReason k = Some CommitQueueWaitReason) (tasks t) \<and>
     list_ex (\<lambda>c. cpy_CommitRequestID c = Some (req_RequestID r)) (storage_copies (domain t)))"

definition queue_tasks :: "storage_db tables \<Rightarrow> int \<Rightarrow> string \<Rightarrow> int list" where
  "queue_tasks t i head = (let rows = filter (\<lambda>r. req_StorageDataSetID r = i \<and> req_TaskID r \<noteq> None) (storage_commit_requests (domain t)) in
     List.map_filter req_TaskID
       (if head \<noteq> '''' then filter (\<lambda>r. req_RequestID r = head) rows
        else case min_row (\<lambda>r. (req_CreatedAt r, req_RequestID r)) (filter (waits_in_queue t) rows) of None \<Rightarrow> [] | Some r \<Rightarrow> [r]))"

definition wakeCommitQueue :: "int list \<Rightarrow> int \<Rightarrow> time \<Rightarrow> unit SDB" where
  "wakeCommitQueue locked i n = bindM (countSubmittedCommitRequests i) (\<lambda>submitted.
     if submitted \<ge> MaxSubmittedRequestsPerDataSet then ret ()
     else bindM (eligibleReadyCommitRequest i n) (\<lambda>head.
       bindM (query (\<lambda>t. queue_tasks t i head)) (\<lambda>taskIDs. wakeCommitTasks locked taskIDs [])))"

definition wakeCommitRequestTask :: "int list \<Rightarrow> string \<Rightarrow> string list \<Rightarrow> unit SDB" where
  "wakeCommitRequestTask locked q excludedWaitReasons = bindM (sread (\<lambda>d. Option.bind (find_request d q) req_TaskID)) (\<lambda>taskID.
     case taskID of None \<Rightarrow> ret () | Some i \<Rightarrow> wakeCommitTasks locked [i] excludedWaitReasons)"

definition WakeCommitRequestTask :: "int list \<Rightarrow> string \<Rightarrow> unit SDB" where
  "WakeCommitRequestTask locked q = wakeCommitRequestTask locked q []"

definition WakeCollectingCommitTask :: "int list \<Rightarrow> string \<Rightarrow> unit SDB" where
  "WakeCollectingCommitTask locked q = wakeCommitRequestTask locked q [CommitQueueWaitReason]"

section \<open>Collecting\<close>

definition new_request :: "string \<Rightarrow> int \<Rightarrow> int \<Rightarrow> time \<Rightarrow> CommitRequest" where
  "new_request q i taskID n = \<lparr>req_RequestID = q, req_StorageDataSetID = i, req_Status = RequestStatusCollecting, req_TaskID = Some taskID,
     req_PieceCount = 0, req_ExtraDataHex = None, req_SealedAt = None, req_FirstSentAt = None, req_Sends = 0, req_SubmittedAt = None,
     req_LastSentAt = None, req_TxHash = None, req_StatusURL = None, req_SubmitError = None, req_Refusals = 0, req_RetryAt = None,
     req_FirstPieceID = None, req_ConfirmedTxHash = None, req_ConfirmedAt = None, req_LastError = None, req_AttentionCode = None,
     req_AttentionAt = None, req_CreatedAt = n, req_UpdatedAt = n, req_SealRequestedAt = None\<rparr>"

definition joins :: "(int \<Rightarrow> bool) \<Rightarrow> int \<Rightarrow> StorageCopy \<Rightarrow> bool" where
  "joins ids i c = (ids (cpy_ID c) \<and> cpy_StorageDataSetID c = i \<and> cpy_Status c = StorageCopyStatusPieceReady \<and>
     cpy_CommitRequestID c = None \<and> cpy_CommitPosition c = None)"

definition joined :: "string \<Rightarrow> time \<Rightarrow> StorageCopy \<Rightarrow> StorageCopy" where
  "joined q n c = c\<lparr>cpy_CommitRequestID := Some q,
     cpy_CommitReadyAt := (case cpy_CommitReadyAt c of None \<Rightarrow> Some n | Some a \<Rightarrow> Some a), cpy_UpdatedAt := n\<rparr>"

definition attachCopyToCommitRequest :: "int \<Rightarrow> int \<Rightarrow> string \<Rightarrow> time \<Rightarrow> unit SDB" where
  "attachCopyToCommitRequest copyID i q n = bindM (update_copies (\<lambda>_. joins (\<lambda>c. c = copyID) i) (joined q n)) requireCommitRows"

definition collecting_candidates :: "storage_db tables \<Rightarrow> int \<Rightarrow> string list" where
  "collecting_candidates t i = map req_RequestID (sort_key (\<lambda>r. (req_CreatedAt r, req_RequestID r)) (filter
     (\<lambda>r. req_StorageDataSetID r = i \<and> req_Status r = RequestStatusCollecting \<and> task_runs t (req_TaskID r))
     (storage_commit_requests (domain t))))"

fun join_candidates :: "int \<Rightarrow> int \<Rightarrow> time \<Rightarrow> string list \<Rightarrow> (string \<times> int) SDB" where
  "join_candidates copyID i n [] = fail ErrNotFound"
| "join_candidates copyID i n (q # qs) =
     bindM (catchM (bindM (lockCommitRequest q (Some RequestStatusCollecting)) (\<lambda>_. ret True))
       (\<lambda>e. if errors_is e ErrConflict then ret False else fail e)) (\<lambda>taken.
     if \<not> taken then join_candidates copyID i n qs
     else bindM (countCommitMembers q) (\<lambda>count.
       bindM (attachCopyToCommitRequest copyID i q n) (\<lambda>_. ret (q, count + 1))))"

record JoinCommitRequestInput =
  jcr_CopyID :: int
  jcr_StorageDataSetID :: int
  jcr_Now :: time

definition JoinCollectingCommitRequest :: "bool \<Rightarrow> JoinCommitRequestInput \<Rightarrow> (string \<times> int) SDB" where
  "JoinCollectingCommitRequest intx inp =
     (if jcr_CopyID inp \<le> 0 \<or> jcr_StorageDataSetID inp \<le> 0 then fail ErrInvalidInput
      else bindM (commitInputTime (jcr_Now inp)) (\<lambda>n. runMaybeTx intx (
        bindM (lockCommitDataSet (jcr_StorageDataSetID inp)) (\<lambda>_.
        bindM (query (\<lambda>t. collecting_candidates t (jcr_StorageDataSetID inp))) (\<lambda>candidates.
        join_candidates (jcr_CopyID inp) (jcr_StorageDataSetID inp) n candidates)))))"

definition insert_request :: "CommitRequest \<Rightarrow> unit SDB" where
  "insert_request r = swrite (\<lambda>d. ((), d\<lparr>storage_commit_requests := storage_commit_requests d @ [r]\<rparr>))"

record CreateCommitRequestInput =
  ccr_RequestID :: string
  ccr_TaskID :: int
  ccr_StorageDataSetID :: int
  ccr_CopyIDs :: "int list"
  ccr_Now :: time

definition CreateCollectingCommitRequest :: "bool \<Rightarrow> CreateCommitRequestInput \<Rightarrow> unit SDB" where
  "CreateCollectingCommitRequest intx inp =
     (if ccr_RequestID inp = '''' \<or> ccr_TaskID inp \<le> 0 \<or> ccr_StorageDataSetID inp \<le> 0 \<or> ccr_CopyIDs inp = [] then fail ErrInvalidInput
      else bindM (commitInputTime (ccr_Now inp)) (\<lambda>n. runMaybeTx intx (
        bindM (catchM (insert_request (new_request (ccr_RequestID inp) (ccr_StorageDataSetID inp) (ccr_TaskID inp) n))
          (\<lambda>e. fail (if isUniqueViolation e then ErrConflict else e))) (\<lambda>_.
        bindM (update_copies (\<lambda>_. joins (\<lambda>c. c \<in> set (ccr_CopyIDs inp)) (ccr_StorageDataSetID inp)) (joined (ccr_RequestID inp) n)) (\<lambda>rows.
        requireCommitRowCount rows (length (ccr_CopyIDs inp)))))))"

definition RequestCommitSeal :: "int list \<Rightarrow> bool \<Rightarrow> string \<Rightarrow> CommitRequest SDB" where
  "RequestCommitSeal locked intx q =
     (if TrimSpace q = '''' then fail ErrInvalidInput
      else runMaybeTx intx (bindM (sread (\<lambda>d. find_request d q)) (\<lambda>r. case r of
          None \<Rightarrow> fail ErrNotFound
        | Some r \<Rightarrow> bindM (lockCommitDataSet (req_StorageDataSetID r)) (\<lambda>_.
            bindM (sread (\<lambda>d. find_request d q)) (\<lambda>r. case r of
              None \<Rightarrow> fail ErrNotFound
            | Some request \<Rightarrow>
                if req_Status request \<in> {RequestStatusReady, RequestStatusSubmitted, RequestStatusConfirmed} then ret request
                else if req_Status request \<noteq> RequestStatusCollecting then fail ErrConflict
                else bindM (lockCommitRequest q (Some RequestStatusCollecting)) (\<lambda>request. case req_TaskID request of
                    None \<Rightarrow> fail ErrConflict
                  | Some i \<Rightarrow>
                      if req_SealRequestedAt request \<noteq> None then bindM (wakeCommitTasks locked [i] []) (\<lambda>_. ret request)
                      else bindM (query (\<lambda>t. task_runs t (Some i))) (\<lambda>active. if \<not> active then fail ErrConflict
                        else bindM (countCommitMembers q) (\<lambda>count. if count = 0 then fail ErrConflict
                          else bindM now (\<lambda>n.
                            bindM (update_requests (\<lambda>r. req_RequestID r = q \<and> req_Status r = RequestStatusCollecting \<and>
                                req_TaskID r = req_TaskID request)
                              (\<lambda>r. r\<lparr>req_SealRequestedAt := Some n, req_UpdatedAt := n\<rparr>)) (\<lambda>rows.
                            bindM (requireCommitRows rows) (\<lambda>_.
                            bindM (wakeCommitTasks locked [i] []) (\<lambda>_. ret (request\<lparr>req_SealRequestedAt := Some n\<rparr>)))))))))))))"

section \<open>Sealing\<close>

record SealMember =
  sm_CopyID :: int
  sm_ContentID :: int
  sm_PieceCID :: string

record SealCommitRequestInput =
  scr_RequestID :: string
  scr_TaskID :: int
  scr_Members :: "SealMember list"
  scr_ExtraDataHex :: string
  scr_Now :: time

text \<open>The loop over the signed members: \<open>None\<close> is the conflict it returns.\<close>

fun seal_pieces :: "StorageCopy list \<Rightarrow> string \<Rightarrow> int \<Rightarrow> time \<Rightarrow> int list \<Rightarrow> int \<Rightarrow> SealMember list \<Rightarrow> CommitPiece list option" where
  "seal_pieces current q i n signed position [] = Some []"
| "seal_pieces current q i n signed position (m # ms) = (case find (\<lambda>c. cpy_ID c = sm_CopyID m) current of
       None \<Rightarrow> None
     | Some c \<Rightarrow>
         if cpy_ContentID c \<noteq> sm_ContentID m \<or> cpy_Status c \<noteq> StorageCopyStatusPieceReady \<or> cpy_CommitPosition c \<noteq> None \<or>
            sm_CopyID m \<in> set signed \<or> sm_PieceCID m = '''' then None
         else map_option ((#) \<lparr>piece_RequestID = q, piece_Position = position, piece_ContentID = sm_ContentID m,
             piece_StorageDataSetID = i, piece_PieceCID = sm_PieceCID m, piece_CreatedAt = n\<rparr>)
           (seal_pieces current q i n (sm_CopyID m # signed) (position + 1) ms))"

definition insert_pieces :: "CommitPiece list \<Rightarrow> unit SDB" where
  "insert_pieces ps = swrite (\<lambda>d. ((), d\<lparr>storage_commit_request_pieces := storage_commit_request_pieces d @ ps\<rparr>))"

definition ordinal :: "int list \<Rightarrow> int \<Rightarrow> int" where
  "ordinal ids i = int (length (takeWhile (\<lambda>j. j \<noteq> i) ids))"

definition position_members :: "string \<Rightarrow> int list \<Rightarrow> time \<Rightarrow> nat SDB" where
  "position_members q ids n = update_copies
     (\<lambda>_ c. cpy_ID c \<in> set ids \<and> cpy_CommitRequestID c = Some q \<and> cpy_Status c = StorageCopyStatusPieceReady \<and> cpy_CommitPosition c = None)
     (\<lambda>c. c\<lparr>cpy_CommitPosition := Some (ordinal ids (cpy_ID c)), cpy_Status := StorageCopyStatusCommitting, cpy_UpdatedAt := n\<rparr>)"

definition sealed :: "SealCommitRequestInput \<Rightarrow> time \<Rightarrow> CommitRequest \<Rightarrow> CommitRequest" where
  "sealed inp n r = r\<lparr>req_Status := RequestStatusReady, req_PieceCount := int (length (scr_Members inp)),
     req_ExtraDataHex := Some (scr_ExtraDataHex inp), req_SealedAt := Some n, req_SealRequestedAt := None, req_UpdatedAt := n\<rparr>"

definition spill :: "string \<Rightarrow> int list \<Rightarrow> time \<Rightarrow> unit SDB" where
  "spill q spilled n = (if spilled = [] then ret ()
     else bindM (update_copies (\<lambda>_ c. cpy_ID c \<in> set spilled \<and> cpy_CommitRequestID c = Some q \<and> cpy_CommitPosition c = None)
         (\<lambda>c. c\<lparr>cpy_CommitRequestID := None, cpy_UpdatedAt := n\<rparr>)) (\<lambda>rows. requireCommitRowCount rows (length spilled)))"

text \<open>One run of the transaction's body, up to the point where the copies that joined too late are
  collected and from there on.\<close>

definition seal_members :: "SealCommitRequestInput \<Rightarrow> time \<Rightarrow> int list SDB" where
  "seal_members inp n = (let q = scr_RequestID inp; ids = map sm_CopyID (scr_Members inp) in
     bindM (lockCommitMemberContents q) (\<lambda>_.
     bindM (lockCommitRequestDataSet q) (\<lambda>_.
     bindM (lockOwnedCommitRequest q (scr_TaskID inp) (Some RequestStatusCollecting)) (\<lambda>request.
     bindM (sread (\<lambda>d. filter (\<lambda>c. cpy_CommitRequestID c = Some q) (storage_copies d))) (\<lambda>current.
     case seal_pieces current q (req_StorageDataSetID request) n [] 0 (scr_Members inp) of
       None \<Rightarrow> fail ErrConflict
     | Some pieces \<Rightarrow> bindM (insert_pieces pieces) (\<lambda>_.
         bindM (position_members q ids n) (\<lambda>rows.
         bindM (requireCommitRowCount rows (length ids)) (\<lambda>_.
         ret (filter (\<lambda>c. c \<notin> set ids) (map cpy_ID current))))))))))"

definition seal_request :: "SealCommitRequestInput \<Rightarrow> time \<Rightarrow> int list \<Rightarrow> unit SDB" where
  "seal_request inp n spilled = bindM (spill (scr_RequestID inp) spilled n) (\<lambda>_.
     bindM (update_requests (owned (scr_RequestID inp) (scr_TaskID inp) RequestStatusCollecting) (sealed inp n)) requireCommitRows)"

text \<open>\<open>spilled\<close> is a variable of the method that the transaction's function appends to: when the method
  runs its own transaction and the transaction is tried again, it starts from what the failed
  attempt had collected.\<close>

definition seal_attempt :: "SealCommitRequestInput \<Rightarrow> time \<Rightarrow> int list \<Rightarrow> (int list \<times> (error + unit)) SDB" where
  "seal_attempt inp n spilled = (\<lambda>w. case seal_members inp n w of
       (Inl e, w') \<Rightarrow> (Inr (spilled, Inl e), w'\<lparr>db := db w\<rparr>)
     | (Inr late, w') \<Rightarrow> (case seal_request inp n (spilled @ late) w' of
           (Inl e, w'') \<Rightarrow> (Inr (spilled @ late, Inl e), w''\<lparr>db := db w\<rparr>)
         | (Inr u, w'') \<Rightarrow> (Inr (spilled @ late, Inr u), w'')))"

fun seal_loop :: "nat \<Rightarrow> SealCommitRequestInput \<Rightarrow> time \<Rightarrow> int list \<Rightarrow> int list SDB" where
  "seal_loop attempts inp n spilled = bindM (seal_attempt inp n spilled) (\<lambda>(spilled, r). case r of
       Inr _ \<Rightarrow> ret spilled
     | Inl e \<Rightarrow> if \<not> shouldRetryRepositoryTx e then fail e
         else (case attempts of
             0 \<Rightarrow> fail (ErrWrap ErrRepositoryContended e)
           | Suc k \<Rightarrow> bindM ctx_done (\<lambda>d. if d then fail ErrContext else seal_loop k inp n spilled)))"

definition SealCommitRequest :: "bool \<Rightarrow> SealCommitRequestInput \<Rightarrow> int list SDB" where
  "SealCommitRequest intx inp =
     (if scr_RequestID inp = '''' \<or> scr_TaskID inp \<le> 0 \<or> scr_Members inp = [] \<or> scr_ExtraDataHex inp = '''' then fail ErrInvalidInput
      else bindM (commitInputTime (scr_Now inp)) (\<lambda>n.
        bindM (if intx then bindM (seal_members inp n) (\<lambda>spilled. bindM (seal_request inp n spilled) (\<lambda>_. ret spilled))
          else seal_loop 19 inp n []) (\<lambda>spilled. ret (sort spilled))))"

section \<open>Submitting\<close>

record BeginCommitSubmissionInput =
  bcs_RequestID :: string
  bcs_TaskID :: int
  bcs_Now :: time

definition submitted :: "time \<Rightarrow> CommitRequest \<Rightarrow> CommitRequest" where
  "submitted n r = r\<lparr>req_Status := RequestStatusSubmitted, req_Sends := 1,
     req_FirstSentAt := (case req_FirstSentAt r of None \<Rightarrow> Some n | Some a \<Rightarrow> Some a),
     req_SubmittedAt := Some n, req_LastSentAt := Some n, req_RetryAt := None, req_TxHash := None, req_StatusURL := None, req_UpdatedAt := n\<rparr>"

definition submit_head :: "int list \<Rightarrow> string \<Rightarrow> int \<Rightarrow> int \<Rightarrow> time \<Rightarrow> unit SDB" where
  "submit_head locked q taskID i n = bindM (countSubmittedCommitRequests i) (\<lambda>count.
     if count \<ge> MaxSubmittedRequestsPerDataSet then fail ErrNotEligible
     else bindM (eligibleReadyCommitRequest i n) (\<lambda>head.
       if head \<noteq> q then fail ErrNotEligible
       else bindM (update_requests (owned q taskID RequestStatusReady) (submitted n)) (\<lambda>rows.
         bindM (requireCommitRows rows) (\<lambda>_. wakeCommitQueue locked i n))))"

definition BeginCommitSubmission :: "int list \<Rightarrow> bool \<Rightarrow> BeginCommitSubmissionInput \<Rightarrow> unit SDB" where
  "BeginCommitSubmission locked intx inp = (let q = bcs_RequestID inp; taskID = bcs_TaskID inp in
     if q = '''' \<or> taskID \<le> 0 then fail ErrInvalidInput
     else bindM (commitInputTime (bcs_Now inp)) (\<lambda>n. runMaybeTx intx (
       bindM (sread (\<lambda>d. find_request d q)) (\<lambda>r. case r of
         None \<Rightarrow> fail ErrNotFound
       | Some r \<Rightarrow> bindM (lockCommitDataSet (req_StorageDataSetID r)) (\<lambda>dataSet.
           if \<not> (sds_IsCurrent dataSet \<and> sds_Status dataSet = StorageDataSetStatusReady) \<and> sds_Status dataSet \<noteq> StorageDataSetStatusDraining
           then fail ErrNotEligible
           else bindM (lockOwnedCommitRequest q taskID (Some RequestStatusReady)) (\<lambda>_.
             submit_head locked q taskID (req_StorageDataSetID r) n))))))"

record CommitSendInput =
  csi_RequestID :: string
  csi_TaskID :: int
  csi_Sends :: int
  csi_Now :: time

definition RecordCommitResend :: "CommitSendInput \<Rightarrow> unit SDB" where
  "RecordCommitResend inp =
     (if csi_RequestID inp = '''' \<or> csi_TaskID inp \<le> 0 \<or> csi_Sends inp < 2 then fail ErrInvalidInput
      else bindM (commitInputTime (csi_Now inp)) (\<lambda>n.
        bindM (update_requests (\<lambda>r. owned (csi_RequestID inp) (csi_TaskID inp) RequestStatusSubmitted r \<and> req_Sends r = csi_Sends inp - 1)
          (\<lambda>r. r\<lparr>req_Sends := csi_Sends inp, req_LastSentAt := Some n, req_UpdatedAt := n\<rparr>)) requireCommitRows))"

definition RecordCommitSubmission :: "CommitSendInput \<Rightarrow> string \<Rightarrow> string \<Rightarrow> unit SDB" where
  "RecordCommitSubmission inp txHash statusURL =
     (if csi_RequestID inp = '''' \<or> csi_TaskID inp \<le> 0 \<or> csi_Sends inp < 1 \<or> txHash = '''' \<or> statusURL = '''' then fail ErrInvalidInput
      else bindM (commitInputTime (csi_Now inp)) (\<lambda>n.
        bindM (update_requests (\<lambda>r. owned (csi_RequestID inp) (csi_TaskID inp) RequestStatusSubmitted r \<and> req_Sends r = csi_Sends inp)
          (\<lambda>r. r\<lparr>req_AttentionCode := (if req_TxHash r = None then None else req_AttentionCode r),
             req_AttentionAt := (if req_TxHash r = None then None else req_AttentionAt r),
             req_TxHash := Some txHash, req_StatusURL := Some statusURL, req_UpdatedAt := n\<rparr>)) requireCommitRows))"

definition RecordCommitSubmitFailure :: "CommitSendInput \<Rightarrow> string \<Rightarrow> unit SDB" where
  "RecordCommitSubmitFailure inp message =
     (if csi_RequestID inp = '''' \<or> csi_TaskID inp \<le> 0 \<or> TrimSpace message = '''' then fail ErrInvalidInput
      else bindM (commitInputTime (csi_Now inp)) (\<lambda>n.
        bindM (update_requests (\<lambda>r. owned (csi_RequestID inp) (csi_TaskID inp) RequestStatusSubmitted r \<and> req_Sends r = csi_Sends inp)
          (\<lambda>r. r\<lparr>req_SubmitError := Some message, req_UpdatedAt := n\<rparr>)) requireCommitRows))"

record ReturnCommitRequestInput =
  rcr_RequestID :: string
  rcr_TaskID :: int
  rcr_Refused :: bool
  rcr_SubmitError :: string
  rcr_RetryAt :: time
  rcr_Now :: time

definition returned :: "ReturnCommitRequestInput \<Rightarrow> CommitRequest \<Rightarrow> time \<Rightarrow> CommitRequest \<Rightarrow> CommitRequest" where
  "returned inp request n r = r\<lparr>req_Status := RequestStatusReady, req_Sends := 0, req_SubmittedAt := None, req_TxHash := None,
     req_StatusURL := None, req_AttentionCode := None, req_AttentionAt := None, req_RetryAt := nullableTime (rcr_RetryAt inp), req_UpdatedAt := n,
     req_SubmitError := (if rcr_SubmitError inp \<noteq> '''' then Some (rcr_SubmitError inp) else req_SubmitError r),
     req_Refusals := (if rcr_Refused inp then req_Refusals r + 1 else req_Refusals r),
     req_FirstSentAt := (if \<not> rcr_Refused inp \<and> req_FirstSentAt request \<noteq> None \<and> req_SubmittedAt request \<noteq> None \<and>
         req_FirstSentAt request = req_SubmittedAt request then None else req_FirstSentAt r)\<rparr>"

definition ReturnCommitRequestToReady :: "int list \<Rightarrow> bool \<Rightarrow> ReturnCommitRequestInput \<Rightarrow> unit SDB" where
  "ReturnCommitRequestToReady locked intx inp = (let q = rcr_RequestID inp; taskID = rcr_TaskID inp in
     if q = '''' \<or> taskID \<le> 0 then fail ErrInvalidInput
     else bindM (commitInputTime (rcr_Now inp)) (\<lambda>n. runMaybeTx intx (
       bindM (lockOwnedCommitRequest q taskID (Some RequestStatusSubmitted)) (\<lambda>request.
       if req_Sends request \<noteq> 1 \<or> req_TxHash request \<noteq> None then fail ErrConflict
       else bindM (update_requests (owned q taskID RequestStatusSubmitted) (returned inp request n)) (\<lambda>rows.
         bindM (requireCommitRows rows) (\<lambda>_. wakeCommitQueue locked (req_StorageDataSetID request) n))))))"

definition DropCommitEvidence :: "(string \<Rightarrow> string) \<Rightarrow> string \<Rightarrow> int \<Rightarrow> string \<Rightarrow> time \<Rightarrow> unit SDB" where
  "DropCommitEvidence redact q taskID lastError t =
     (if q = '''' \<or> taskID \<le> 0 \<or> lastError = '''' then fail ErrInvalidInput
      else bindM (commitInputTime t) (\<lambda>n.
        bindM (update_requests (owned q taskID RequestStatusSubmitted)
          (\<lambda>r. r\<lparr>req_TxHash := None, req_StatusURL := None, req_LastError := Some (redact lastError), req_UpdatedAt := n\<rparr>)) requireCommitRows))"

datatype AttentionCode = AttentionSubmissionMismatch | AttentionDataSetUnavailable | AttentionConfirmationTimeout

fun attention_text :: "AttentionCode \<Rightarrow> string" where
  "attention_text AttentionSubmissionMismatch = ''submission_mismatch''"
| "attention_text AttentionDataSetUnavailable = ''data_set_unavailable''"
| "attention_text AttentionConfirmationTimeout = ''confirmation_timeout''"

definition ParseAttentionCode :: "string \<Rightarrow> AttentionCode option" where
  "ParseAttentionCode value = find (\<lambda>c. attention_text c = value)
     [AttentionSubmissionMismatch, AttentionDataSetUnavailable, AttentionConfirmationTimeout]"

definition AttentionCode_Valid :: "string \<Rightarrow> bool" where
  "AttentionCode_Valid code = (ParseAttentionCode code \<noteq> None)"

definition MarkCommitRequestAttention :: "string \<Rightarrow> int \<Rightarrow> string \<Rightarrow> time \<Rightarrow> unit SDB" where
  "MarkCommitRequestAttention q taskID code t =
     (if q = '''' \<or> taskID \<le> 0 \<or> \<not> AttentionCode_Valid code then fail ErrInvalidInput
      else bindM (commitInputTime t) (\<lambda>n.
        bindM (update_requests (owned q taskID RequestStatusSubmitted)
          (\<lambda>r. r\<lparr>req_AttentionCode := (case req_AttentionCode r of None \<Rightarrow> Some code | Some c \<Rightarrow> Some c),
             req_AttentionAt := (case req_AttentionAt r of None \<Rightarrow> Some n | Some a \<Rightarrow> Some a), req_UpdatedAt := n\<rparr>)) requireCommitRows))"

section \<open>Settling\<close>

record ConfirmCommitRequestInput =
  cfr_RequestID :: string
  cfr_TaskID :: int
  cfr_ConfirmedTxHash :: string
  cfr_FirstPieceID :: nat
  cfr_RetrievalURLs :: "string list"
  cfr_Now :: time

definition commitPieceID :: "(nat \<Rightarrow> bool) \<Rightarrow> nat \<Rightarrow> int \<Rightarrow> string option" where
  "commitPieceID big_ok first position = (let i = int first + position in
     if 0 \<le> i \<and> big_ok (nat i) then Some (FormatInt i) else None)"

definition nulls_last :: "int option \<Rightarrow> nat \<times> int" where
  "nulls_last p = (case p of None \<Rightarrow> (1, 0) | Some i \<Rightarrow> (0, i))"

definition members_by_position :: "storage_db \<Rightarrow> string \<Rightarrow> StorageCopy list" where
  "members_by_position d q = sort_key (\<lambda>c. nulls_last (cpy_CommitPosition c))
     (filter (\<lambda>c. cpy_CommitRequestID c = Some q) (storage_copies d))"

definition pieces_of :: "storage_db \<Rightarrow> string \<Rightarrow> CommitPiece list" where
  "pieces_of d q = sort_key piece_Position (filter (\<lambda>p. piece_RequestID p = q) (storage_commit_request_pieces d))"

definition confirmed :: "ConfirmCommitRequestInput \<Rightarrow> time \<Rightarrow> CommitRequest \<Rightarrow> CommitRequest" where
  "confirmed inp n r = r\<lparr>req_Status := RequestStatusConfirmed, req_TaskID := None,
     req_FirstSentAt := (case req_FirstSentAt r of None \<Rightarrow> Some n | Some a \<Rightarrow> Some a),
     req_FirstPieceID := Some (FormatInt (int (cfr_FirstPieceID inp))), req_ConfirmedAt := Some n,
     req_AttentionCode := None, req_AttentionAt := None, req_UpdatedAt := n,
     req_ConfirmedTxHash := (if cfr_ConfirmedTxHash inp \<noteq> '''' then Some (cfr_ConfirmedTxHash inp) else req_ConfirmedTxHash r)\<rparr>"

text \<open>What the confirmation says of each piece: its position, content, on-chain id, URL and CID. An index
  out of range panics in the code; here it is an error like any other, and the transaction is rolled
  back either way.\<close>

definition piece_evidence :: "(nat \<Rightarrow> bool) \<Rightarrow> ConfirmCommitRequestInput \<Rightarrow> CommitPiece \<Rightarrow> error + (int \<times> int \<times> string \<times> string \<times> string)" where
  "piece_evidence big_ok inp p = (case commitPieceID big_ok (cfr_FirstPieceID inp) (piece_Position p) of
       None \<Rightarrow> Inl (ErrText ''deriving storage commit piece ID'')
     | Some i \<Rightarrow> if 0 \<le> piece_Position p \<and> nat (piece_Position p) < length (cfr_RetrievalURLs inp)
         then Inr (piece_Position p, piece_ContentID p, i, cfr_RetrievalURLs inp ! nat (piece_Position p), piece_PieceCID p)
         else Inl (ErrText ''index out of range''))"

fun all_right :: "('e + 'a) list \<Rightarrow> 'e + 'a list" where
  "all_right [] = Inr []"
| "all_right (x # xs) = (case x of Inl e \<Rightarrow> Inl e | Inr y \<Rightarrow> (case all_right xs of Inl e \<Rightarrow> Inl e | Inr ys \<Rightarrow> Inr (y # ys)))"

definition evidence_for :: "(int \<times> int \<times> string \<times> string \<times> string) list \<Rightarrow> StorageCopy \<Rightarrow> (int \<times> int \<times> string \<times> string \<times> string) option" where
  "evidence_for es c = find (\<lambda>(position, contentID, _). cpy_CommitPosition c = Some position \<and> cpy_ContentID c = contentID) es"

definition committed :: "time \<Rightarrow> (int \<times> int \<times> string \<times> string \<times> string) list \<Rightarrow> StorageCopy \<Rightarrow> StorageCopy" where
  "committed n es c = (case evidence_for es c of None \<Rightarrow> c | Some (_, _, pieceID, url, _) \<Rightarrow>
     c\<lparr>cpy_Status := StorageCopyStatusCommitted, cpy_PieceID := Some pieceID, cpy_RetrievalURL := Some url,
       cpy_CommitRequestStatus := Some RequestStatusConfirmed, cpy_CommitReadyAt := None, cpy_LastError := None, cpy_UpdatedAt := n\<rparr>)"

definition commit_members :: "string \<Rightarrow> time \<Rightarrow> (int \<times> int \<times> string \<times> string \<times> string) list \<Rightarrow> nat SDB" where
  "commit_members q n es = update_copies (\<lambda>_ c. cpy_CommitRequestID c = Some q \<and> evidence_for es c \<noteq> None \<and>
     (cpy_Status c = StorageCopyStatusCommitting \<or> cpy_Status c = StorageCopyStatusPending)) (committed n es)"

definition updateUploadsReadable :: "(int \<times> string) list \<Rightarrow> time \<Rightarrow> unit SDB" where
  "updateUploadsReadable uploads n = bindM (update_contents (\<lambda>c. cnt_ID c \<in> fst ` set uploads)
     (\<lambda>c. c\<lparr>cnt_PieceCID := (case map_of uploads (cnt_ID c) of None \<Rightarrow> cnt_PieceCID c
         | Some cid \<Rightarrow> if cid = '''' then cnt_PieceCID c else Some cid),
       cnt_ErrorMessage := None, cnt_UpdatedAt := n\<rparr>)) (\<lambda>_. ret ())"

definition settle_confirmation :: "(nat \<Rightarrow> bool) \<Rightarrow> int list \<Rightarrow> ConfirmCommitRequestInput \<Rightarrow> CommitRequest \<Rightarrow> time \<Rightarrow> unit SDB" where
  "settle_confirmation big_ok locked inp request n = (let q = cfr_RequestID inp in
     if req_PieceCount request \<noteq> int (length (cfr_RetrievalURLs inp)) then fail ErrInvalidInput
     else bindM (sread (\<lambda>d. pieces_of d q)) (\<lambda>pieces.
       if int (length pieces) \<noteq> req_PieceCount request then fail ErrConflict
       else bindM (update_requests (\<lambda>r. owned q (cfr_TaskID inp) (req_Status request) r \<and>
             (cfr_ConfirmedTxHash inp \<noteq> '''' \<longrightarrow> req_TxHash r \<noteq> None)) (confirmed inp n)) (\<lambda>rows.
         bindM (requireCommitRows rows) (\<lambda>_.
         case all_right (map (piece_evidence big_ok inp) pieces) of
           Inl e \<Rightarrow> fail e
         | Inr es \<Rightarrow> bindM (commit_members q n es) (\<lambda>rows.
             bindM (requireCommitRowCount rows (length pieces)) (\<lambda>_.
             bindM (updateUploadsReadable (map (\<lambda>(_, c, _, _, cid). (c, cid)) es) n) (\<lambda>_.
             wakeCommitQueue locked (req_StorageDataSetID request) n)))))))"

definition ConfirmCommitRequest :: "(nat \<Rightarrow> bool) \<Rightarrow> int list \<Rightarrow> bool \<Rightarrow> ConfirmCommitRequestInput \<Rightarrow> StorageCopy list SDB" where
  "ConfirmCommitRequest big_ok locked intx inp = (let q = cfr_RequestID inp in
     if q = '''' \<or> cfr_TaskID inp \<le> 0 \<or> cfr_RetrievalURLs inp = [] then fail ErrInvalidInput
     else bindM (commitInputTime (cfr_Now inp)) (\<lambda>n. runMaybeTx intx (
       bindM (lockCommitMemberContents q) (\<lambda>_.
       bindM (lockCommitRequest q None) (\<lambda>request.
       bindM (sread (\<lambda>d. members_by_position d q)) (\<lambda>members.
       if req_Status request = RequestStatusConfirmed then
         (if req_FirstPieceID request = Some (FormatInt (int (cfr_FirstPieceID inp))) then ret members else fail ErrConflict)
       else if (req_Status request \<noteq> RequestStatusSubmitted \<and> req_Status request \<noteq> RequestStatusReady) \<or>
           req_TaskID request \<noteq> Some (cfr_TaskID inp) then fail ErrConflict
       else bindM (settle_confirmation big_ok locked inp request n) (\<lambda>_. ret members)))))))"

record AbandonCommitRequestInput =
  acr_RequestID :: string
  acr_TaskID :: int
  acr_Reason :: string
  acr_Now :: time

definition abandoned :: "string \<Rightarrow> time \<Rightarrow> CommitRequest \<Rightarrow> CommitRequest" where
  "abandoned reason n r = r\<lparr>req_Status := RequestStatusAbandoned, req_SealRequestedAt := None, req_TaskID := None,
     req_LastError := Some reason, req_AttentionCode := None, req_AttentionAt := None, req_UpdatedAt := n\<rparr>"

definition released :: "time \<Rightarrow> StorageCopy \<Rightarrow> StorageCopy" where
  "released n c = c\<lparr>cpy_CommitRequestID := None, cpy_CommitPosition := None,
     cpy_Status := (if cpy_Status c = StorageCopyStatusCommitting then StorageCopyStatusPieceReady else cpy_Status c), cpy_UpdatedAt := n\<rparr>"

definition abandonCommitRequest :: "(string \<Rightarrow> string) \<Rightarrow> int list \<Rightarrow> AbandonCommitRequestInput \<Rightarrow> StorageCopy list SDB" where
  "abandonCommitRequest redact locked inp = (let q = acr_RequestID inp in
     bindM (commitInputTime (acr_Now inp)) (\<lambda>n.
     bindM (lockCommitMemberContents q) (\<lambda>_.
     bindM (lockCommitRequestDataSet q) (\<lambda>_.
     bindM (lockCommitRequest q None) (\<lambda>request.
     if Terminal (req_Status request) then fail ErrConflict
     else if acr_TaskID inp > 0 \<and> req_TaskID request \<noteq> Some (acr_TaskID inp) then fail ErrConflict
     else if \<not> acr_TaskID inp > 0 \<and> req_Status request \<noteq> RequestStatusCollecting then fail ErrConflict
     else bindM (sread (\<lambda>d. sort_key (\<lambda>c. (nulls_last (cpy_CommitPosition c), cpy_ID c))
           (filter (\<lambda>c. cpy_CommitRequestID c = Some q) (storage_copies d)))) (\<lambda>members.
       bindM (update_requests (\<lambda>r. req_RequestID r = q \<and> req_Status r = req_Status request \<and> req_TaskID r = req_TaskID request)
         (abandoned (redact (acr_Reason inp)) n)) (\<lambda>rows.
       bindM (requireCommitRows rows) (\<lambda>_.
       bindM (update_copies (\<lambda>_ c. cpy_CommitRequestID c = Some q) (released n)) (\<lambda>_.
       bindM (case req_TaskID request of None \<Rightarrow> ret 0 | Some i \<Rightarrow> if acr_TaskID inp = 0 then WakePending [i] else ret 0) (\<lambda>_.
       bindM (wakeCommitQueue locked (req_StorageDataSetID request) n) (\<lambda>_. ret members)))))))))))"

definition AbandonCommitRequest :: "(string \<Rightarrow> string) \<Rightarrow> int list \<Rightarrow> bool \<Rightarrow> AbandonCommitRequestInput \<Rightarrow> StorageCopy list SDB" where
  "AbandonCommitRequest redact locked intx inp =
     (if acr_RequestID inp = '''' \<or> TrimSpace (acr_Reason inp) = '''' \<or> acr_TaskID inp < 0 then fail ErrInvalidInput
      else runMaybeTx intx (abandonCommitRequest redact locked inp))"

section \<open>Members in transfer\<close>

definition ReturnCommitMembersToTransfer :: "bool \<Rightarrow> string \<Rightarrow> int \<Rightarrow> int list \<Rightarrow> time \<Rightarrow> unit SDB" where
  "ReturnCommitMembersToTransfer intx q taskID copyIDs t =
     (if q = '''' \<or> taskID \<le> 0 \<or> copyIDs = [] then fail ErrInvalidInput
      else bindM (commitInputTime t) (\<lambda>n. runMaybeTx intx (
        bindM (lockCommitMemberContents q) (\<lambda>_.
        bindM (lockCommitRequest q None) (\<lambda>request.
        if req_TaskID request \<noteq> Some taskID \<or>
          (req_Status request \<noteq> RequestStatusReady \<and> req_Status request \<noteq> RequestStatusSubmitted) then fail ErrConflict
        else bindM (update_copies (\<lambda>_ c. cpy_ID c \<in> set copyIDs \<and> cpy_CommitRequestID c = Some q \<and> cpy_CommitPosition c \<noteq> None \<and>
              cpy_Status c = StorageCopyStatusCommitting \<and> cpy_ActiveTaskID c = None)
            (\<lambda>c. c\<lparr>cpy_Status := StorageCopyStatusPending, cpy_RetrievalURL := None, cpy_CommitReadyAt := None, cpy_UpdatedAt := n\<rparr>))
          (\<lambda>rows. requireCommitRowCount rows (length copyIDs)))))))"

definition lockStorageContentForCopyMutation :: "int \<Rightarrow> unit SDB" where
  "lockStorageContentForCopyMutation cid = bindM (lockStorageContentsByID [cid]) (\<lambda>uploads.
     if list_ex (\<lambda>c. cnt_ID c = cid) uploads then ret () else fail ErrConflict)"

definition update_pulls :: "(storage_db \<Rightarrow> PullAttempt \<Rightarrow> bool) \<Rightarrow> (PullAttempt \<Rightarrow> PullAttempt) \<Rightarrow> nat SDB" where
  "update_pulls P f = swrite (\<lambda>d. (rows_affected (P d) (storage_pull_attempts d),
     d\<lparr>storage_pull_attempts := update_where (P d) f (storage_pull_attempts d)\<rparr>))"

definition pull_of_copy :: "string \<Rightarrow> int \<Rightarrow> int \<Rightarrow> storage_db \<Rightarrow> PullAttempt \<Rightarrow> bool" where
  "pull_of_copy attemptID contentID copyID d p = (pull_AttemptID p = attemptID \<and> pull_ContentID p = contentID \<and>
     list_ex (\<lambda>c. cpy_ID c = copyID \<and> cpy_StorageDataSetID c = pull_StorageDataSetID p) (storage_copies d))"

definition abandonCopyPullAttempt :: "(string \<Rightarrow> string) \<Rightarrow> string \<Rightarrow> int \<Rightarrow> int \<Rightarrow> string \<Rightarrow> time \<Rightarrow> unit SDB" where
  "abandonCopyPullAttempt redact attemptID contentID copyID lastError n =
     (if attemptID = '''' then ret ()
      else bindM (update_pulls (\<lambda>d p. pull_of_copy attemptID contentID copyID d p \<and> pull_Status p = PullAttempted \<and> pull_ResolvedAt p = None)
          (\<lambda>p. p\<lparr>pull_Status := PullAbandoned, pull_LastError := Some (redact lastError), pull_ResolvedAt := Some n, pull_UpdatedAt := n\<rparr>)) (\<lambda>rows.
        if rows > 0 then ret ()
        else bindM (sread (\<lambda>d. length (filter (\<lambda>p. pull_of_copy attemptID contentID copyID d p \<and> pull_Status p = PullAbandoned \<and>
              pull_ResolvedAt p \<noteq> None) (storage_pull_attempts d)))) (\<lambda>count.
          if count \<noteq> 1 then fail ErrConflict else ret ())))"

record ReleaseMemberTransferInput =
  rmt_StorageCopyID :: int
  rmt_ContentID :: int
  rmt_Generation :: int
  rmt_TaskID :: int
  rmt_LastError :: string
  rmt_PullAttemptID :: string

definition gives_up :: "ReleaseMemberTransferInput \<Rightarrow> StorageCopy \<Rightarrow> bool" where
  "gives_up inp c = (cpy_ID c = rmt_StorageCopyID inp \<and> cpy_ContentID c = rmt_ContentID inp \<and>
     cpy_WorkGeneration c = rmt_Generation inp \<and> cpy_ActiveTaskID c = Some (rmt_TaskID inp) \<and> cpy_CommitPosition c \<noteq> None)"

definition end_member_transfer :: "(string \<Rightarrow> string) \<Rightarrow> ReleaseMemberTransferInput \<Rightarrow> time \<Rightarrow> string option SDB" where
  "end_member_transfer redact inp n = swrite (\<lambda>d. (Option.bind (find (gives_up inp) (storage_copies d)) cpy_CommitRequestID,
     d\<lparr>storage_copies := update_where (gives_up inp) (\<lambda>c. c\<lparr>cpy_ActiveTaskID := None,
       cpy_LastError := (if cpy_Status c = StorageCopyStatusCommitted then cpy_LastError c else Some (redact (rmt_LastError inp))),
       cpy_UpdatedAt := n\<rparr>) (storage_copies d)\<rparr>))"

definition ReleaseMemberTransfer :: "(string \<Rightarrow> string) \<Rightarrow> int list \<Rightarrow> bool \<Rightarrow> ReleaseMemberTransferInput \<Rightarrow> unit SDB" where
  "ReleaseMemberTransfer redact locked intx inp =
     (if rmt_StorageCopyID inp \<le> 0 \<or> rmt_ContentID inp \<le> 0 \<or> rmt_Generation inp \<le> 0 \<or> rmt_TaskID inp \<le> 0 \<or>
        TrimSpace (rmt_LastError inp) = '''' then fail ErrInvalidInput
      else runMaybeTx intx (
        bindM (lockStorageContentForCopyMutation (rmt_ContentID inp)) (\<lambda>_.
        bindM now (\<lambda>n.
        bindM (abandonCopyPullAttempt redact (rmt_PullAttemptID inp) (rmt_ContentID inp) (rmt_StorageCopyID inp) (rmt_LastError inp) n) (\<lambda>_.
        bindM (end_member_transfer redact inp n) (\<lambda>requestID. case requestID of
            None \<Rightarrow> fail ErrConflict
          | Some q \<Rightarrow> wakeCommitRequestTask locked q []))))))"

section \<open>Reading\<close>

definition GetCommitRequest :: "string \<Rightarrow> CommitRequest SDB" where
  "GetCommitRequest q = bindM (sread (\<lambda>d. find_request d q)) (\<lambda>r. case r of None \<Rightarrow> fail ErrNotFound | Some r \<Rightarrow> ret r)"

definition ListCommitRequestPieces :: "string \<Rightarrow> CommitPiece list SDB" where
  "ListCommitRequestPieces q = sread (\<lambda>d. pieces_of d q)"

record CommitRequestMember = CopyView +
  crm_PieceCID :: string

definition project_member :: "storage_db \<Rightarrow> StorageCopy \<Rightarrow> CommitRequestMember option" where
  "project_member d c = map_option (\<lambda>x. CopyView.extend (project_copy d c) (CommitRequestMember.fields
     (case cnt_PieceCID x of None \<Rightarrow> '''' | Some p \<Rightarrow> p))) (find_content d (cpy_ContentID c))"

definition ready_order :: "('a StorageCopy_scheme) \<Rightarrow> (nat \<times> int) \<times> (nat \<times> int) \<times> int" where
  "ready_order c = (nulls_last (cpy_CommitPosition c), nulls_last (cpy_CommitReadyAt c), cpy_ID c)"

definition ListCommitRequestMembers :: "string \<Rightarrow> CommitRequestMember list SDB" where
  "ListCommitRequestMembers q = sread (\<lambda>d. sort_key ready_order (List.map_filter (project_member d)
     (filter (\<lambda>c. cpy_CommitRequestID c = Some q) (storage_copies d))))"

definition CountCommitBacklog :: "int \<Rightarrow> int SDB" where
  "CountCommitBacklog i = (if i \<le> 0 then fail ErrInvalidInput
     else sread (\<lambda>d. int (length (filter (\<lambda>c. cpy_StorageDataSetID c = i \<and>
       (cpy_Status c = StorageCopyStatusPieceReady \<or> cpy_Status c = StorageCopyStatusCommitting) \<and>
       (case Option.bind (cpy_CommitRequestID c) (find_request d) of None \<Rightarrow> True
        | Some r \<Rightarrow> req_Status r = RequestStatusCollecting \<or> req_Status r = RequestStatusReady)) (storage_copies d)))))"

record AttentionRecord =
  att_RequestID :: string
  att_TaskID :: "int option"
  att_DataSetRowID :: int
  att_ProviderID :: string
  att_DataSetID :: string
  att_PieceCIDs :: "string list"
  att_TxHash :: "string option"
  att_ConfirmedTxHash :: "string option"
  att_SubmitError :: string
  att_Code :: "string option"
  att_SubmittedAt :: "time option"
  att_AttentionAt :: "time option"

definition needs_attention :: "CommitRequest \<Rightarrow> bool" where
  "needs_attention r = (req_Status r = RequestStatusSubmitted \<and> req_AttentionAt r \<noteq> None)"

definition attention_record :: "storage_db \<Rightarrow> CommitRequest \<Rightarrow> AttentionRecord option" where
  "attention_record d r = map_option (\<lambda>s. \<lparr>att_RequestID = req_RequestID r, att_TaskID = req_TaskID r,
     att_DataSetRowID = req_StorageDataSetID r, att_ProviderID = sds_ProviderID s,
     att_DataSetID = (case sds_DataSetID s of None \<Rightarrow> '''' | Some i \<Rightarrow> i),
     att_PieceCIDs = map piece_PieceCID (pieces_of d (req_RequestID r)), att_TxHash = req_TxHash r,
     att_ConfirmedTxHash = req_ConfirmedTxHash r,
     att_SubmitError = (case req_SubmitError r of None \<Rightarrow> '''' | Some e \<Rightarrow> e), att_Code = req_AttentionCode r,
     att_SubmittedAt = req_SubmittedAt r, att_AttentionAt = req_AttentionAt r\<rparr>)
     (find (\<lambda>s. sds_ID s = req_StorageDataSetID r) (storage_data_sets d))"

definition ListCommitAttention :: "int \<Rightarrow> AttentionRecord list SDB" where
  "ListCommitAttention n = (if n \<le> 0 then fail ErrInvalidInput
     else sread (\<lambda>d. List.map_filter (attention_record d) (limit n (sort_key (\<lambda>r. (nulls_last (req_AttentionAt r), req_RequestID r))
       (filter needs_attention (storage_commit_requests d))))))"

definition ListCommitAttentionForTasks :: "int list \<Rightarrow> AttentionRecord list SDB" where
  "ListCommitAttentionForTasks taskIDs = (if taskIDs = [] then ret []
     else sread (\<lambda>d. List.map_filter (attention_record d)
       (filter (\<lambda>r. needs_attention r \<and> (\<exists>i \<in> set taskIDs. req_TaskID r = Some i)) (storage_commit_requests d))))"

definition CountStoppedCommitAttentionByDataSet :: "(int \<rightharpoonup> int) SDB" where
  "CountStoppedCommitAttentionByDataSet = query (\<lambda>t i. let rows = filter (\<lambda>r. req_StorageDataSetID r = i \<and> needs_attention r \<and>
       list_ex (\<lambda>k. Some (task_ID k) = req_TaskID r \<and> task_Status k = TaskStatusFailed) (tasks t)) (storage_commit_requests (domain t)) in
     if rows = [] then None else Some (int (length rows)))"

end
