(* ===== verification/Commit_Lifecycle.thy ===== *)
theory Commit_Lifecycle
  imports Commit_Repo Task_Runs
begin

text \<open>
  What every operation on commit requests keeps, statement by statement: a request moves forward
  only, a sealed request keeps its signature and its pieces, and a settled request never changes
  again. \<open>lives\<close> is the relation between the tables before and after.
\<close>

section \<open>The life of a request\<close>

definition evolves :: "CommitRequest \<Rightarrow> CommitRequest \<Rightarrow> bool" where
  "evolves r r' = (req_RequestID r' = req_RequestID r \<and> req_StorageDataSetID r' = req_StorageDataSetID r \<and>
     req_CreatedAt r' = req_CreatedAt r \<and> req_Refusals r \<le> req_Refusals r' \<and>
     (Terminal (req_Status r) \<longrightarrow> r' = r) \<and>
     (req_Status r \<noteq> RequestStatusCollecting \<longrightarrow> req_Status r' \<noteq> RequestStatusCollecting \<and> req_PieceCount r' = req_PieceCount r \<and>
        req_ExtraDataHex r' = req_ExtraDataHex r \<and> req_SealedAt r' = req_SealedAt r))"

lemma evolves_refl: "evolves r r"
  by (simp add: evolves_def)

lemma evolves_trans: "evolves r s \<Longrightarrow> evolves s t \<Longrightarrow> evolves r t"
  unfolding evolves_def by (auto simp: Terminal_def)

definition signed_list :: "storage_db \<Rightarrow> string \<Rightarrow> CommitPiece list" where
  "signed_list d q = filter (\<lambda>p. piece_RequestID p = q) (storage_commit_request_pieces d)"

definition in_flight :: "storage_db \<Rightarrow> int \<Rightarrow> nat" where
  "in_flight d i = length (filter (\<lambda>r. req_StorageDataSetID r = i \<and> req_Status r = RequestStatusSubmitted) (storage_commit_requests d))"

definition advance :: "storage_db \<Rightarrow> storage_db \<Rightarrow> bool" where
  "advance d d' = (\<forall>r \<in> set (storage_commit_requests d). (\<exists>r' \<in> set (storage_commit_requests d'). evolves r r') \<and>
     (req_Status r \<noteq> RequestStatusCollecting \<longrightarrow> signed_list d' (req_RequestID r) = signed_list d (req_RequestID r)))"

definition progress :: "storage_db \<Rightarrow> storage_db \<Rightarrow> bool" where
  "progress d d' = (advance d d' \<and> (\<forall>i. in_flight d' i \<le> max 4 (in_flight d i)))"

lemma progress_refl: "progress d d"
  unfolding progress_def advance_def using evolves_refl by auto

lemma progress_same:
  "storage_commit_requests d' = storage_commit_requests d \<Longrightarrow> storage_commit_request_pieces d' = storage_commit_request_pieces d \<Longrightarrow> progress d d'"
  unfolding progress_def advance_def signed_list_def in_flight_def using evolves_refl by auto

lemma advance_trans:
  assumes "advance d d'" "advance d' d''"
  shows "advance d d''"
  unfolding advance_def
proof (intro ballI conjI impI)
  fix r assume r: "r \<in> set (storage_commit_requests d)"
  obtain r' where r': "r' \<in> set (storage_commit_requests d')" "evolves r r'" using assms(1) r by (auto simp: advance_def)
  obtain r'' where r'': "r'' \<in> set (storage_commit_requests d'')" "evolves r' r''" using assms(2) r'(1) by (auto simp: advance_def)
  show "\<exists>r'' \<in> set (storage_commit_requests d''). evolves r r''" using r'' evolves_trans [OF r'(2)] by blast
  assume s: "req_Status r \<noteq> RequestStatusCollecting"
  then have "req_Status r' \<noteq> RequestStatusCollecting" "req_RequestID r' = req_RequestID r" using r'(2) by (auto simp: evolves_def)
  with s show "signed_list d'' (req_RequestID r) = signed_list d (req_RequestID r)"
    using assms r r'(1) unfolding advance_def by metis
qed

lemma progress_trans: "progress d d' \<Longrightarrow> progress d' d'' \<Longrightarrow> progress d d''"
  unfolding progress_def using advance_trans by (auto intro: order_trans)

definition lives :: "storage_db tables world \<Rightarrow> storage_db tables world \<Rightarrow> bool" where
  "lives w w' = (schema_ok w \<longrightarrow> schema_ok w' \<and> progress (domain (db w)) (domain (db w')))"

interpretation life: kept_relation lives
proof unfold_locales
  fix u v w :: "storage_db tables world"
  show "lives u v \<Longrightarrow> lives v w \<Longrightarrow> lives u w" unfolding lives_def using progress_trans by blast
  show "db v = db w \<Longrightarrow> seq w \<le> seq v \<Longrightarrow> clock w \<le> clock v \<Longrightarrow> lives w v" by (simp add: lives_def schema_ok_def progress_refl)
  show "lives w v \<Longrightarrow> lives w (v\<lparr>db := db w\<rparr>)" by (simp add: lives_def schema_ok_def progress_refl)
qed

section \<open>Statements\<close>

lemma life_sread [keep]: "keeps lives (sread f)"
  unfolding sread_def by (rule life.keeps_query)

lemma life_twrite:
  assumes "\<And>t. progress (domain t) (snd (f t))"
  shows "keeps lives (twrite f)"
  by (rule keeps_wp, rule wp_twrite) (auto simp: lives_def schema_ok_def assms progress_refl)

lemma life_swrite:
  assumes "\<And>d. progress d (snd (f d))"
  shows "keeps lives (swrite f)"
  unfolding swrite_def by (rule life_twrite) (auto simp: assms)

lemma life_update_tasks:
  assumes "\<And>r. task_ID (f r) = task_ID r"
  shows "keeps lives (update_tasks P f)"
proof -
  have "map task_ID (update_where P f ts) = map task_ID ts" for ts by (simp add: update_where_def assms)
  then show ?thesis unfolding update_tasks_def
    by (intro life.keeps_stmtE) (auto simp: update_result_def lives_def schema_ok_def progress_refl split: if_splits)
qed

lemma life_update_contents [keep]: "keeps lives (update_contents P f)"
  unfolding update_contents_def by (rule life_swrite) (simp add: progress_same)

lemma life_update_copies [keep]: "keeps lives (update_copies P f)"
  unfolding update_copies_def by (rule life_twrite) (simp add: progress_same)

lemma life_update_pulls [keep]: "keeps lives (update_pulls P f)"
  unfolding update_pulls_def by (rule life_swrite) (simp add: progress_same)

lemma advance_update:
  assumes "\<And>r. P r \<Longrightarrow> evolves r (f r)"
  shows "advance d (d\<lparr>storage_commit_requests := update_where P f (storage_commit_requests d)\<rparr>)"
  unfolding advance_def signed_list_def
proof (intro ballI conjI impI)
  fix r assume "r \<in> set (storage_commit_requests d)"
  then show "\<exists>r' \<in> set (storage_commit_requests (d\<lparr>storage_commit_requests := update_where P f (storage_commit_requests d)\<rparr>)). evolves r r'"
    using assms [of r] evolves_refl [of r] by (intro bexI [of _ "if P r then f r else r"]) (auto simp: update_where_def)
qed simp

lemma count_update_le:
  "(\<And>x. x \<in> set xs \<Longrightarrow> P x \<Longrightarrow> Q (f x) \<Longrightarrow> Q x) \<Longrightarrow> length (filter Q (update_where P f xs)) \<le> length (filter Q xs)"
  by (induction xs) (auto simp: update_where_def le_SucI)

lemma count_update_one: "length (filter Q (update_where P f xs)) \<le> length (filter Q xs) + length (filter P xs)"
  by (induction xs) (auto simp: update_where_def)

lemma life_update_requests:
  assumes "\<And>r. P r \<Longrightarrow> evolves r (f r)" "\<And>r. P r \<Longrightarrow> req_Status (f r) = RequestStatusSubmitted \<Longrightarrow> req_Status r = RequestStatusSubmitted"
  shows "keeps lives (update_requests P f)"
  unfolding update_requests_def
proof (rule life_swrite)
  fix d :: storage_db
  have "req_StorageDataSetID (f r) = req_StorageDataSetID r" if "P r" for r using assms(1) [OF that] by (simp add: evolves_def)
  with assms(2) have "in_flight (d\<lparr>storage_commit_requests := update_where P f (storage_commit_requests d)\<rparr>) i \<le> in_flight d i" for i
    unfolding in_flight_def by (simp, intro count_update_le) simp
  then show "progress d (snd (rows_affected P (storage_commit_requests d), d\<lparr>storage_commit_requests := update_where P f (storage_commit_requests d)\<rparr>))"
    using advance_update [OF assms(1)] by (simp add: progress_def le_max_iff_disj)
qed

lemma life_insert_request [keep]: "req_Status r \<noteq> RequestStatusSubmitted \<Longrightarrow> keeps lives (insert_request r)"
  unfolding insert_request_def by (rule life_swrite) (auto simp: progress_def advance_def signed_list_def in_flight_def intro: evolves_refl)

section \<open>Operations\<close>

lemma life_input_time [keep]: "keeps lives (commitInputTime t)"
  unfolding commitInputTime_def by (intro keep life.keeps_now)

lemma life_maybe_tx [keep]: "keeps lives m \<Longrightarrow> keeps lives (runMaybeTx intx m)"
  unfolding runMaybeTx_def by (auto intro: life.keeps_WithTx)

lemma life_rows [keep]: "keeps lives (requireCommitRows n)" "keeps lives (requireCommitRowCount n k)"
  unfolding requireCommitRows_def requireCommitRowCount_def by (intro keep life.keeps_ret life.keeps_fail)+

lemma life_count [keep]: "keeps lives (countCommitMembers q)" "keeps lives (countSubmittedCommitRequests i)"
  unfolding countCommitMembers_def countSubmittedCommitRequests_def by (intro keep)+

lemma life_wake [keep]: "keeps lives (wakeCommitTasks l ids rs)"
  unfolding wakeCommitTasks_def by (intro keep life_update_tasks) simp

lemma life_lock [keep]: "keeps lives (lockStorageContentsByID ids)"
  unfolding lockStorageContentsByID_def by (intro keep)

lemma life_lock_request [keep]: "keeps lives (lockCommitRequest q s)" "keeps lives (lockOwnedCommitRequest q i s)"
  unfolding lockOwnedCommitRequest_def lockCommitRequest_def by (intro keep)+

lemma life_locks [keep]: "keeps lives (lockCommitMemberContents q)" "keeps lives (lockCommitDataSet i)"
    "keeps lives (lockCommitRequestDataSet q)" "keeps lives (lockStorageContentForCopyMutation c)"
  unfolding lockCommitMemberContents_def lockCommitDataSet_def lockCommitRequestDataSet_def lockStorageContentForCopyMutation_def
  by (intro keep)+

lemma life_queue [keep]: "keeps lives (eligibleReadyCommitRequest i n)" "keeps lives (wakeCommitQueue l i n)"
    "keeps lives (wakeCommitRequestTask l q rs)"
  unfolding wakeCommitQueue_def eligibleReadyCommitRequest_def wakeCommitRequestTask_def by (intro keep life.keeps_query)+

lemma life_join [keep]: "keeps lives (join_candidates c i n qs)"
  by (induction qs) (auto intro!: keep simp: attachCopyToCommitRequest_def)

lemma life_Join: "keeps lives (JoinCollectingCommitRequest intx inp)"
  unfolding JoinCollectingCommitRequest_def by (intro keep)

lemma life_Create: "keeps lives (CreateCollectingCommitRequest intx inp)"
  unfolding CreateCollectingCommitRequest_def by (intro keep) (simp add: new_request_def)

lemmas evolving = evolves_def owned_def Terminal_def

lemma life_request_seal [keep]:
  "keeps lives (update_requests (\<lambda>r. req_RequestID r = q \<and> req_Status r = RequestStatusCollecting \<and> req_TaskID r = i)
     (\<lambda>r. r\<lparr>req_SealRequestedAt := Some n, req_UpdatedAt := n\<rparr>))"
  by (rule life_update_requests) (simp_all add: evolving)

lemma life_RequestSeal: "keeps lives (RequestCommitSeal l intx q)"
  unfolding RequestCommitSeal_def by (intro keep)

lemma life_Resend: "keeps lives (RecordCommitResend inp)"
  unfolding RecordCommitResend_def by (intro keep life_update_requests) (auto simp: evolving)

lemma life_Submission: "keeps lives (RecordCommitSubmission inp x u)"
  unfolding RecordCommitSubmission_def by (intro keep life_update_requests) (auto simp: evolving)

lemma life_SubmitFailure: "keeps lives (RecordCommitSubmitFailure inp m)"
  unfolding RecordCommitSubmitFailure_def by (intro keep life_update_requests) (auto simp: evolving)

lemma life_Return: "keeps lives (ReturnCommitRequestToReady l intx inp)"
  unfolding ReturnCommitRequestToReady_def by (intro keep life_update_requests) (auto simp: evolving returned_def)

lemma life_Drop: "keeps lives (DropCommitEvidence redact q i e t)"
  unfolding DropCommitEvidence_def by (intro keep life_update_requests) (auto simp: evolving)

lemma life_Mark: "keeps lives (MarkCommitRequestAttention q i c t)"
  unfolding MarkCommitRequestAttention_def by (intro keep life_update_requests) (auto simp: evolving)

lemma life_readable [keep]: "keeps lives (updateUploadsReadable us n)"
  unfolding updateUploadsReadable_def by (intro keep)

lemma life_settle:
  assumes "req_Status r = RequestStatusSubmitted \<or> req_Status r = RequestStatusReady"
  shows "keeps lives (settle_confirmation big_ok l inp r n)"
  unfolding settle_confirmation_def commit_members_def
  by (intro keep life_update_requests) (use assms in \<open>auto simp: evolving confirmed_def\<close>)

lemma life_Confirm: "keeps lives (ConfirmCommitRequest big_ok l intx inp)"
  unfolding ConfirmCommitRequest_def by (intro keep life_settle) auto

lemma life_wake_pending [keep]: "keeps lives (WakePending ids)"
  unfolding WakePending_def by (intro keep life_update_tasks) simp

lemma life_abandon [keep]: "keeps lives (abandonCommitRequest redact l inp)"
  unfolding abandonCommitRequest_def by (intro keep life_update_requests) (auto simp: evolving abandoned_def)

lemma life_Abandon: "keeps lives (AbandonCommitRequest redact l intx inp)"
  unfolding AbandonCommitRequest_def by (intro keep)

lemma life_ReturnMembers: "keeps lives (ReturnCommitMembersToTransfer intx q i cs t)"
  unfolding ReturnCommitMembersToTransfer_def by (intro keep)

lemma life_end_transfer [keep]: "keeps lives (end_member_transfer redact inp n)"
  unfolding end_member_transfer_def by (rule life_swrite) (simp add: progress_same)

lemma life_abandon_pull [keep]: "keeps lives (abandonCopyPullAttempt redact a c i e n)"
  unfolding abandonCopyPullAttempt_def by (intro keep)

lemma life_ReleaseMember: "keeps lives (ReleaseMemberTransfer redact l intx inp)"
  unfolding ReleaseMemberTransfer_def by (intro keep)

lemma life_release: "keeps lives (releaseCollectingCommitMembership l c n)"
  unfolding releaseCollectingCommitMembership_def by (intro keep life_update_requests) (auto simp: evolving)

section \<open>Sealing\<close>

definition collects :: "string \<Rightarrow> storage_db tables world \<Rightarrow> bool" where
  "collects q w = (\<forall>r \<in> set (storage_commit_requests (domain (db w))). req_RequestID r = q \<longrightarrow> req_Status r = RequestStatusCollecting)"

lemma request_ids: "schema_ok w \<Longrightarrow> distinct (map req_RequestID (storage_commit_requests (domain (db w))))"
  by (auto simp: schema_ok_def schema_violation_def unique_checks_def unique_copy_tables_def unique_key_def split: if_splits)

lemma request_unique:
  "schema_ok w \<Longrightarrow> r \<in> set (storage_commit_requests (domain (db w))) \<Longrightarrow> s \<in> set (storage_commit_requests (domain (db w))) \<Longrightarrow>
    req_RequestID r = req_RequestID s \<Longrightarrow> r = s"
  by (rule distinct_map_inj [OF request_ids])

lemma read_db: "fst (sread f w) = Inr x \<Longrightarrow> x = f (domain (db w))" "db (snd (sread f w)) = db w"
  by (auto simp: sread_def query_def stmt_def split: list.splits option.splits)

lemma lock_request_run:
  assumes "fst (lockCommitRequest q s w) = Inr r"
  shows "r \<in> set (storage_commit_requests (domain (db w)))" "req_RequestID r = q" "\<And>x. s = Some x \<Longrightarrow> req_Status r = x"
proof -
  have "fst (sread (\<lambda>d. find (\<lambda>r. req_RequestID r = q \<and> (case s of None \<Rightarrow> True | Some s \<Rightarrow> req_Status r = s)) (storage_commit_requests d)) w) = Inr (Some r)"
    using assms by (auto simp: lockCommitRequest_def bindM_def ret_def fail_def split: prod.splits sum.splits option.splits)
  from read_db(1) [OF this] have "find (\<lambda>r. req_RequestID r = q \<and> (case s of None \<Rightarrow> True | Some s \<Rightarrow> req_Status r = s))
      (storage_commit_requests (domain (db w))) = Some r" by simp
  from find_SomeD [OF this] show "r \<in> set (storage_commit_requests (domain (db w)))" "req_RequestID r = q" "\<And>x. s = Some x \<Longrightarrow> req_Status r = x"
    by auto
qed

lemma lock_request_db: "db (snd (lockCommitRequest q s w)) = db w" "db (snd (lockOwnedCommitRequest q i s w)) = db w"
proof -
  show a: "db (snd (lockCommitRequest q s w)) = db w" for w
  proof -
    let ?f = "\<lambda>d. find (\<lambda>r. req_RequestID r = q \<and> (case s of None \<Rightarrow> True | Some s \<Rightarrow> req_Status r = s)) (storage_commit_requests d)"
    from read_db(2) [of ?f w] show ?thesis
      by (cases "sread ?f w") (auto simp: lockCommitRequest_def bindM_def ret_def fail_def split: sum.splits option.splits)
  qed
  show "db (snd (lockOwnedCommitRequest q i s w)) = db w"
    unfolding lockOwnedCommitRequest_def using a [of w] by (auto simp: bindM_def ret_def fail_def split: prod.splits sum.splits)
qed

lemma lock_owned_run:
  assumes "fst (lockOwnedCommitRequest q i s w) = Inr r"
  shows "fst (lockCommitRequest q s w) = Inr r" "req_TaskID r = Some i"
  using assms by (auto simp: lockOwnedCommitRequest_def bindM_def ret_def fail_def split: prod.splits sum.splits if_splits)

text \<open>After the lock on a collecting request, every row of that id is collecting.\<close>

lemma life_owned_then:
  assumes "\<And>r w. schema_ok w \<Longrightarrow> collects q w \<Longrightarrow> lives w (snd (f r w))"
  shows "keeps lives (bindM (lockOwnedCommitRequest q i (Some RequestStatusCollecting)) f)"
proof (rule keepsI)
  fix w
  let ?m = "lockOwnedCommitRequest q i (Some RequestStatusCollecting)"
  obtain x w' where m: "?m w = (x, w')" by fastforce
  have db: "db w' = db w" using lock_request_db(2) [of q i "Some RequestStatusCollecting" w] m by simp
  have l: "lives w w'" by (simp add: lives_def schema_ok_def db progress_refl)
  show "lives w (snd (bindM ?m f w))"
  proof (cases "schema_ok w")
    case ok: True
    show ?thesis
    proof (cases x)
      case (Inr r)
      then have "fst (lockCommitRequest q (Some RequestStatusCollecting) w) = Inr r"
        by (intro lock_owned_run(1) [where i = i]) (simp add: m)
      note r = lock_request_run [OF this]
      have "collects q w'" unfolding collects_def db using request_unique [OF ok r(1)] r(2,3) by metis
      moreover have "schema_ok w'" using ok by (simp add: schema_ok_def db)
      ultimately show ?thesis using assms l life.kept_trans m Inr by (fastforce simp: bindM_def)
    qed (use m l in \<open>simp add: bindM_def\<close>)
  qed (simp add: lives_def)
qed

lemma life_read_then:
  assumes "\<And>w'. db w' = db w \<Longrightarrow> lives w' (snd (h (f (domain (db w))) w'))"
  shows "lives w (snd (bindM (sread f) h w))"
proof -
  obtain x w' where m: "sread f w = (x, w')" by fastforce
  have db: "db w' = db w" using read_db(2) [of f w] m by simp
  have l: "lives w w'" by (simp add: lives_def schema_ok_def db progress_refl)
  show ?thesis
  proof (cases x)
    case (Inr y)
    then have "y = f (domain (db w))" using read_db(1) [of f w y] m by simp
    then show ?thesis using assms [OF db] life.kept_trans [OF l] m Inr by (simp add: bindM_def)
  qed (use m l in \<open>simp add: bindM_def\<close>)
qed

lemma life_bind_at: "lives w (snd (m w)) \<Longrightarrow> (\<And>x. keeps lives (f x)) \<Longrightarrow> lives w (snd (bindM m f w))"
  by (cases "m w") (auto simp: bindM_def keeps_def split: sum.splits intro: life.kept_trans)

lemma life_insert_pieces:
  assumes "collects q w" "\<forall>p \<in> set ps. piece_RequestID p = q"
  shows "lives w (snd (insert_pieces ps w))"
proof -
  have "wpM (insert_pieces ps) (\<lambda>_. lives w) (\<lambda>_. lives w) w"
    unfolding insert_pieces_def
  proof (rule wp_swrite)
    fix fs
    let ?d = "domain (db w)"
    assume ok: "schema_violation (map task_ID (tasks (db w))) (snd ((), ?d\<lparr>storage_commit_request_pieces := storage_commit_request_pieces ?d @ ps\<rparr>)) = None"
    have "filter (\<lambda>p. piece_RequestID p = req_RequestID r) ps = []"
      if "r \<in> set (storage_commit_requests ?d)" "req_Status r \<noteq> RequestStatusCollecting" for r
      using that assms by (auto simp: collects_def filter_empty_conv)
    then have "progress ?d (?d\<lparr>storage_commit_request_pieces := storage_commit_request_pieces ?d @ ps\<rparr>)"
      using evolves_refl by (auto simp: progress_def advance_def signed_list_def in_flight_def)
    then show "lives w (w\<lparr>db := db w\<lparr>domain := snd ((), ?d\<lparr>storage_commit_request_pieces := storage_commit_request_pieces ?d @ ps\<rparr>)\<rparr>, faults := fs\<rparr>)"
      using ok by (simp add: lives_def schema_ok_def)
  qed (simp add: lives_def schema_ok_def progress_refl)
  then show ?thesis by (simp add: wpM_same)
qed

lemma seal_pieces_request: "seal_pieces current q i n signed pos ms = Some ps \<Longrightarrow> \<forall>p \<in> set ps. piece_RequestID p = q"
  by (induction current q i n signed pos ms arbitrary: ps rule: seal_pieces.induct) (auto split: option.splits if_splits)

lemma life_seal_members [keep]: "keeps lives (seal_members inp n)"
proof -
  define q where "q = scr_RequestID inp"
  define rest where "rest current ids = (\<lambda>_ :: unit. bindM (position_members q ids n) (\<lambda>rows. bindM (requireCommitRowCount rows (length ids)) (\<lambda>_.
    ret (filter (\<lambda>c. c \<notin> set ids) (map cpy_ID (current :: StorageCopy list))))))" for current ids
  have rest: "keeps lives (rest current ids u)" for current ids u
    unfolding rest_def position_members_def by (intro keep)
  have "lives w (snd ((case seal_pieces current q i n [] 0 ms of None \<Rightarrow> fail ErrConflict
      | Some ps \<Rightarrow> bindM (insert_pieces ps) (rest current ids)) w))" if "collects q w" for w current i ms ids
  proof (cases "seal_pieces current q i n [] 0 ms")
    case (Some ps)
    have "lives w (snd (bindM (insert_pieces ps) (rest current ids) w))"
      by (rule life_bind_at, rule life_insert_pieces [OF that seal_pieces_request [OF Some]], rule rest)
    with Some show ?thesis by simp
  qed (use keepsD [OF life.keeps_fail] in simp)
  then have "keeps lives (bindM (lockOwnedCommitRequest q (scr_TaskID inp) (Some RequestStatusCollecting)) (\<lambda>request.
      bindM (sread (\<lambda>d. filter (\<lambda>c. cpy_CommitRequestID c = Some q) (storage_copies d))) (\<lambda>current.
      case seal_pieces current q (req_StorageDataSetID request) n [] 0 (scr_Members inp) of None \<Rightarrow> fail ErrConflict
      | Some ps \<Rightarrow> bindM (insert_pieces ps) (rest current (map sm_CopyID (scr_Members inp))))))"
    by (intro life_owned_then life_read_then) (simp add: collects_def)
  then show ?thesis unfolding seal_members_def Let_def q_def rest_def by (rule life.keeps_bind [OF life_locks(1) life.keeps_bind [OF life_locks(3)]])
qed

lemma life_seal_request [keep]: "keeps lives (seal_request inp n spilled)"
  unfolding seal_request_def spill_def by (intro keep life_update_requests) (auto simp: evolving sealed_def)

lemma life_seal_attempt [keep]: "keeps lives (seal_attempt inp n spilled)"
proof (rule keepsI)
  fix w
  obtain x w1 where m: "seal_members inp n w = (x, w1)" by fastforce
  have l: "lives w w1" using keepsD [OF life_seal_members, of w] m by (metis snd_conv)
  show "lives w (snd (seal_attempt inp n spilled w))"
  proof (cases x)
    case (Inr late)
    obtain y w2 where r: "seal_request inp n (spilled @ late) w1 = (y, w2)" by fastforce
    have "lives w w2" using life.kept_trans [OF l] keepsD [OF life_seal_request, of w1] r by (metis snd_conv)
    with life.kept_rollback [OF this] show ?thesis by (cases y) (simp_all add: seal_attempt_def m Inr r)
  qed (use life.kept_rollback [OF l] in \<open>simp add: seal_attempt_def m\<close>)
qed

lemma life_seal_loop [keep]: "keeps lives (seal_loop k inp n spilled)"
  by (induction k arbitrary: spilled) (subst seal_loop.simps, intro keep, auto intro: keep)+

lemma life_Seal: "keeps lives (SealCommitRequest intx inp)"
  unfolding SealCommitRequest_def by (intro keep)

section \<open>Submitting\<close>

lemma life_seen:
  assumes "db (snd (m w)) = db w" "\<And>x w'. m w = (Inr x, w') \<Longrightarrow> lives w' (snd (f x w'))"
  shows "lives w (snd (bindM m f w))"
proof -
  obtain x w' where m: "m w = (x, w')" by fastforce
  have l: "lives w w'" using assms(1) m by (simp add: lives_def schema_ok_def progress_refl)
  show ?thesis using assms(2) m life.kept_trans [OF l] l by (cases x) (auto simp: bindM_def)
qed

lemma query_db: "db (snd (query f w)) = db w"
  by (auto simp: query_def stmt_def split: list.splits option.splits)

lemma lock_data_set_db: "db (snd (lockCommitDataSet i w)) = db w"
proof -
  let ?f = "\<lambda>d. find (\<lambda>s. sds_ID s = i) (storage_data_sets d)"
  from read_db(2) [of ?f w] show ?thesis
    by (cases "sread ?f w") (auto simp: lockCommitDataSet_def bindM_def ret_def fail_def split: sum.splits option.splits)
qed

lemma life_submit:
  assumes "schema_ok w" "find_request (domain (db w)) q = Some r" "in_flight (domain (db w)) (req_StorageDataSetID r) < 4"
    "\<And>x. keeps lives (g x)"
  shows "lives w (snd (bindM (update_requests (owned q i RequestStatusReady) (submitted n)) g w))"
proof (rule life_bind_at)
  let ?d = "domain (db w)" and ?P = "owned q i RequestStatusReady"
  let ?d' = "?d\<lparr>storage_commit_requests := update_where ?P (submitted n) (storage_commit_requests ?d)\<rparr>"
  have r: "r \<in> set (storage_commit_requests ?d)" "req_RequestID r = q"
    using find_SomeD [OF assms(2) [unfolded find_request_def]] by auto
  have only: "s = r" if "s \<in> set (storage_commit_requests ?d)" "?P s" for s
    by (rule request_unique [OF assms(1) that(1) r(1)]) (use that(2) r(2) in \<open>simp add: owned_def\<close>)
  have "distinct (storage_commit_requests ?d)" using request_ids [OF assms(1)] by (simp add: distinct_map)
  then have "length (filter ?P (storage_commit_requests ?d)) = card (set (filter ?P (storage_commit_requests ?d)))"
    by (simp add: distinct_card [symmetric])
  also have "\<dots> \<le> card {r}" by (rule card_mono) (use only in auto)
  finally have one: "length (filter ?P (storage_commit_requests ?d)) \<le> 1" by simp
  have "in_flight ?d' j \<le> max 4 (in_flight ?d j)" for j
  proof (cases "j = req_StorageDataSetID r")
    case True
    have "in_flight ?d' j \<le> in_flight ?d j + length (filter ?P (storage_commit_requests ?d))"
      unfolding in_flight_def by (simp add: count_update_one)
    with one assms(3) True show ?thesis by simp
  next
    case False
    have "in_flight ?d' j \<le> in_flight ?d j" unfolding in_flight_def
      by (simp, rule count_update_le) (use only False in \<open>auto simp: submitted_def\<close>)
    then show ?thesis by simp
  qed
  moreover have "advance ?d ?d'" by (rule advance_update) (auto simp: evolving submitted_def)
  ultimately have p: "progress ?d ?d'" by (simp add: progress_def)
  have "wpM (update_requests ?P (submitted n)) (\<lambda>_. lives w) (\<lambda>_. lives w) w"
    unfolding update_requests_def by (rule wp_swrite) (use p in \<open>simp_all add: lives_def schema_ok_def progress_refl\<close>)
  then show "lives w (snd (update_requests ?P (submitted n) w))" by (simp add: wpM_same)
qed (rule assms(4))

lemma life_request_then:
  assumes "\<And>r w'. db w' = db w \<Longrightarrow> find_request (domain (db w')) q = Some r \<Longrightarrow> lives w' (snd (f r w'))"
  shows "lives w (snd (bindM (sread (\<lambda>d. find_request d q)) (\<lambda>r. case r of None \<Rightarrow> fail ErrNotFound | Some r \<Rightarrow> f r) w))"
proof (rule life_read_then)
  fix w' :: "storage_db tables world"
  assume "db w' = db w"
  with assms [OF this] show "lives w' (snd ((case find_request (domain (db w)) q of None \<Rightarrow> fail ErrNotFound | Some r \<Rightarrow> f r) w'))"
    using keepsD [OF life.keeps_fail] by (cases "find_request (domain (db w)) q") auto
qed

lemma life_fail_at: "lives w (snd (fail e w))"
  by (rule keepsD [OF life.keeps_fail])

lemma life_submit_head:
  assumes "schema_ok w" "find_request (domain (db w)) q = Some r"
  shows "lives w (snd (submit_head l q i (req_StorageDataSetID r) n w))"
  unfolding submit_head_def countSubmittedCommitRequests_def
proof (rule life_read_then)
  fix w1 :: "storage_db tables world"
  let ?i = "req_StorageDataSetID r"
  let ?count = "int (length (filter (\<lambda>r. req_StorageDataSetID r = ?i \<and> req_Status r = RequestStatusSubmitted) (storage_commit_requests (domain (db w)))))"
  let ?rest = "\<lambda>head. if head \<noteq> q then fail ErrNotEligible else bindM (update_requests (owned q i RequestStatusReady) (submitted n))
    (\<lambda>rows. bindM (requireCommitRows rows) (\<lambda>_. wakeCommitQueue l ?i n))"
  assume db: "db w1 = db w"
  have "lives w1 (snd (bindM (eligibleReadyCommitRequest ?i n) ?rest w1))" if c: "?count < 4"
  proof (rule life_seen)
    fix head and w2 :: "storage_db tables world"
    show db1: "db (snd (eligibleReadyCommitRequest ?i n w1)) = db w1" by (simp add: eligibleReadyCommitRequest_def query_db)
    assume "eligibleReadyCommitRequest ?i n w1 = (Inr head, w2)"
    then have db2: "db w2 = db w" using db1 db by simp
    have "lives w2 (snd (bindM (update_requests (owned q i RequestStatusReady) (submitted n))
        (\<lambda>rows. bindM (requireCommitRows rows) (\<lambda>_. wakeCommitQueue l ?i n)) w2))"
      by (rule life_submit [where r = r]) (use assms c in \<open>auto simp: db2 schema_ok_def in_flight_def intro!: keep\<close>)
    then show "lives w2 (snd (?rest head w2))" by (simp add: life_fail_at)
  qed
  then show "lives w1 (snd ((if ?count \<ge> MaxSubmittedRequestsPerDataSet then fail ErrNotEligible
      else bindM (eligibleReadyCommitRequest ?i n) ?rest) w1))"
    by (simp add: life_fail_at MaxSubmittedRequestsPerDataSet_def)
qed

lemma life_begin: "keeps lives (bindM (sread (\<lambda>d. find_request d q)) (\<lambda>r. case r of
         None \<Rightarrow> fail ErrNotFound
       | Some r \<Rightarrow> bindM (lockCommitDataSet (req_StorageDataSetID r)) (\<lambda>dataSet.
           if b dataSet then fail ErrNotEligible
           else bindM (lockOwnedCommitRequest q i (Some RequestStatusReady)) (\<lambda>_. submit_head l q i (req_StorageDataSetID r) n))))"
proof (rule keepsI)
  fix w
  show "lives w (snd (bindM (sread (\<lambda>d. find_request d q)) (\<lambda>r. case r of
         None \<Rightarrow> fail ErrNotFound
       | Some r \<Rightarrow> bindM (lockCommitDataSet (req_StorageDataSetID r)) (\<lambda>dataSet.
           if b dataSet then fail ErrNotEligible
           else bindM (lockOwnedCommitRequest q i (Some RequestStatusReady)) (\<lambda>_. submit_head l q i (req_StorageDataSetID r) n))) w))"
  proof (cases "schema_ok w")
    case ok: True
    show ?thesis
    proof (rule life_request_then, rule life_seen)
      fix r and w1 :: "storage_db tables world" and dataSet and w2 :: "storage_db tables world"
      assume r: "find_request (domain (db w1)) q = Some r" and db: "db w1 = db w"
      show db1: "db (snd (lockCommitDataSet (req_StorageDataSetID r) w1)) = db w1" by (rule lock_data_set_db)
      assume "lockCommitDataSet (req_StorageDataSetID r) w1 = (Inr dataSet, w2)"
      then have db2: "db w2 = db w1" using db1 by simp
      have "lives w2 (snd (bindM (lockOwnedCommitRequest q i (Some RequestStatusReady)) (\<lambda>_. submit_head l q i (req_StorageDataSetID r) n) w2))"
      proof (rule life_seen)
        fix x and w3 :: "storage_db tables world"
        show db3: "db (snd (lockOwnedCommitRequest q i (Some RequestStatusReady) w2)) = db w2" by (rule lock_request_db)
        assume "lockOwnedCommitRequest q i (Some RequestStatusReady) w2 = (Inr x, w3)"
        then have "db w3 = db w1" using db3 db2 by simp
        then show "lives w3 (snd (submit_head l q i (req_StorageDataSetID r) n w3))"
          by (intro life_submit_head) (use ok r db in \<open>auto simp: schema_ok_def\<close>)
      qed
      then show "lives w2 (snd ((if b dataSet then fail ErrNotEligible
           else bindM (lockOwnedCommitRequest q i (Some RequestStatusReady)) (\<lambda>_. submit_head l q i (req_StorageDataSetID r) n)) w2))"
        by (simp add: life_fail_at)
    qed
  qed (simp add: lives_def)
qed

lemma life_Begin: "keeps lives (BeginCommitSubmission l intx inp)"
  unfolding BeginCommitSubmission_def Let_def by (intro keep life_begin)

section \<open>Runs\<close>

text \<open>A call of a method of the commit repository, with everything its caller chooses.\<close>

datatype commit_call =
    Join bool JoinCommitRequestInput | Create bool CreateCommitRequestInput | RequestSeal "int list" bool string
  | Seal bool SealCommitRequestInput | Begin "int list" bool BeginCommitSubmissionInput | Resend CommitSendInput
  | Submission CommitSendInput string string | SubmitFailure CommitSendInput string
  | Return "int list" bool ReturnCommitRequestInput | Drop string int string time | Mark string int string time
  | Confirm "int list" bool ConfirmCommitRequestInput | Abandon "int list" bool AbandonCommitRequestInput
  | ReturnMembers bool string int "int list" time | ReleaseMember "int list" bool ReleaseMemberTransferInput
  | Leave "int list" int time

definition unit_of :: "'a SDB \<Rightarrow> unit SDB" where
  "unit_of m = bindM m (\<lambda>_. ret ())"

fun call :: "(string \<Rightarrow> string) \<Rightarrow> (nat \<Rightarrow> bool) \<Rightarrow> commit_call \<Rightarrow> unit SDB" where
  "call redact big_ok (Join intx inp) = unit_of (JoinCollectingCommitRequest intx inp)"
| "call redact big_ok (Create intx inp) = CreateCollectingCommitRequest intx inp"
| "call redact big_ok (RequestSeal l intx q) = unit_of (RequestCommitSeal l intx q)"
| "call redact big_ok (Seal intx inp) = unit_of (SealCommitRequest intx inp)"
| "call redact big_ok (Begin l intx inp) = BeginCommitSubmission l intx inp"
| "call redact big_ok (Resend inp) = RecordCommitResend inp"
| "call redact big_ok (Submission inp x u) = RecordCommitSubmission inp x u"
| "call redact big_ok (SubmitFailure inp m) = RecordCommitSubmitFailure inp m"
| "call redact big_ok (Return l intx inp) = ReturnCommitRequestToReady l intx inp"
| "call redact big_ok (Drop q i e t) = DropCommitEvidence redact q i e t"
| "call redact big_ok (Mark q i c t) = MarkCommitRequestAttention q i c t"
| "call redact big_ok (Confirm l intx inp) = unit_of (ConfirmCommitRequest big_ok l intx inp)"
| "call redact big_ok (Abandon l intx inp) = unit_of (AbandonCommitRequest redact l intx inp)"
| "call redact big_ok (ReturnMembers intx q i cs t) = ReturnCommitMembersToTransfer intx q i cs t"
| "call redact big_ok (ReleaseMember l intx inp) = ReleaseMemberTransfer redact l intx inp"
| "call redact big_ok (Leave l c n) = releaseCollectingCommitMembership l c n"

text \<open>Between two calls anything else may happen to the database, as long as it leaves the commit
  requests and their pieces to the commit repository and obeys the schema.\<close>

definition elsewhere :: "storage_db tables world \<Rightarrow> storage_db tables world \<Rightarrow> bool" where
  "elsewhere w w' = (schema_ok w' \<and> storage_commit_requests (domain (db w')) = storage_commit_requests (domain (db w)) \<and>
     storage_commit_request_pieces (domain (db w')) = storage_commit_request_pieces (domain (db w)))"

inductive commit_run :: "(string \<Rightarrow> string) \<Rightarrow> (nat \<Rightarrow> bool) \<Rightarrow> storage_db tables world \<Rightarrow> storage_db tables world \<Rightarrow> bool"
  for redact big_ok w where
  start: "commit_run redact big_ok w w"
| calls: "commit_run redact big_ok w v \<Longrightarrow> commit_run redact big_ok w (snd (call redact big_ok c v))"
| environment: "commit_run redact big_ok w v \<Longrightarrow> elsewhere v v' \<Longrightarrow> commit_run redact big_ok w v'"

lemma life_call: "keeps lives (call redact big_ok c)"
  by (cases c) (auto simp: unit_of_def intro!: life.keeps_bind life.keeps_ret life_Join life_Create life_RequestSeal life_Seal life_Begin life_Resend
    life_Submission life_SubmitFailure life_Return life_Drop life_Mark life_Confirm life_Abandon life_ReturnMembers life_ReleaseMember life_release)

lemma commit_run_lives: "commit_run redact big_ok w w' \<Longrightarrow> lives w w'"
proof (induction rule: commit_run.induct)
  case start
  show ?case by (rule life.kept_env) simp_all
next
  case (calls v c)
  from life.kept_trans [OF calls.IH keepsD [OF life_call]] show ?case .
next
  case (environment v v')
  have "lives v v'" using environment.hyps(2) progress_same by (simp add: lives_def elsewhere_def)
  from life.kept_trans [OF environment.IH this] show ?case .
qed

section \<open>An example\<close>

text \<open>Two transferred copies of a data set; the first collects in a request of task 1.\<close>

definition commit_example :: storage_db where
  "commit_example = example_db\<lparr>
     bucket_replica_slots := [\<lparr>slot_ID = 1, slot_BucketID = 1, slot_CopyIndex = 0, slot_Status = BucketReplicaSlotStatusActive,
       slot_CreatedAt = 1, slot_UpdatedAt = 1\<rparr>],
     storage_contents := [example_content\<lparr>cnt_PieceCID := Some ''p1''\<rparr>, example_content\<lparr>cnt_ID := 2, cnt_ContentSize := 4, cnt_PieceCID := Some ''p2''\<rparr>],
     storage_data_sets := [\<lparr>sds_ID = 1, sds_BucketID = 1, sds_ProviderID = ''4'', sds_CopyIndex = 0, sds_Generation = 1, sds_IsCurrent = True,
       sds_DataSetID = Some ''9'', sds_ClientDataSetID = Some ''8'', sds_Status = StorageDataSetStatusReady, sds_TxHash = None,
       sds_ConfirmedTxHash = None, sds_CreateStatusURL = None, sds_CreatedByContentID = None, sds_LastError = None, sds_EnsureTaskID = None,
       sds_RetirementGeneration = 0, sds_RetirementTaskID = None, sds_CreatedAt = 1, sds_UpdatedAt = 1, sds_CreationRejection = RawEmpty\<rparr>],
     storage_copies := map (\<lambda>(i, size, q). \<lparr>cpy_ID = i, cpy_ContentID = i, cpy_BucketID = 1, cpy_ContentSize = size, cpy_StorageDataSetID = 1,
       cpy_CopyIndex = 0, cpy_ProviderID = ''4'', cpy_PieceID = None, cpy_TransferMethod = StorageCopyTransferMethodIngress,
       cpy_Status = StorageCopyStatusPieceReady, cpy_RetrievalURL = None, cpy_CommitReadyAt = Some 3, cpy_CommitRequestID = q,
       cpy_CommitPosition = None, cpy_CommitRequestStatus = None, cpy_IngressBytesTransferred = size, cpy_IngressStoreAttempt = 1,
       cpy_ProgressUpdatedAt = None, cpy_WorkGeneration = 1, cpy_ActiveTaskID = None, cpy_LastError = None, cpy_CreatedAt = 1,
       cpy_UpdatedAt = 1\<rparr>) [(1, 3, Some ''q''), (2, 4, None)],
     storage_commit_requests := [new_request ''q'' 1 1 5]\<rparr>"

definition commit_world :: "storage_db tables world" where
  "commit_world = (storage_world commit_example)\<lparr>db := (db (storage_world commit_example))\<lparr>tasks := [example_task]\<rparr>\<rparr>"

definition join_second :: commit_call where
  "join_second = Join False \<lparr>jcr_CopyID = 2, jcr_StorageDataSetID = 1, jcr_Now = 20\<rparr>"

definition seal_both :: commit_call where
  "seal_both = Seal False \<lparr>scr_RequestID = ''q'', scr_TaskID = 1, scr_Members = [\<lparr>sm_CopyID = 2, sm_ContentID = 2, sm_PieceCID = ''p2''\<rparr>,
     \<lparr>sm_CopyID = 1, sm_ContentID = 1, sm_PieceCID = ''p1''\<rparr>], scr_ExtraDataHex = ''0xab'', scr_Now = 30\<rparr>"

definition begin_submission :: commit_call where
  "begin_submission = Begin [] False \<lparr>bcs_RequestID = ''q'', bcs_TaskID = 1, bcs_Now = 40\<rparr>"

definition confirm_both :: commit_call where
  "confirm_both = Confirm [] False \<lparr>cfr_RequestID = ''q'', cfr_TaskID = 1, cfr_ConfirmedTxHash = '''', cfr_FirstPieceID = 7,
     cfr_RetrievalURLs = [''u2'', ''u1''], cfr_Now = 50\<rparr>"

fun after :: "commit_call list \<Rightarrow> storage_db tables world" where
  "after [] = commit_world"
| "after (c # cs) = snd (call (\<lambda>e. e) (\<lambda>_. True) c (after cs))"

lemma commit_world_ok: "schema_ok commit_world"
  by code_simp

lemma run_after: "commit_run (\<lambda>e. e) (\<lambda>_. True) commit_world (after cs)"
  by (induction cs) (auto intro: commit_run.intros)

lemma run_onwards: "commit_run (\<lambda>e. e) (\<lambda>_. True) (after cs) (after (ds @ cs))"
  by (induction ds) (auto intro: commit_run.intros)

section \<open>What callers rely on\<close>

text \<open>C6: in every run of the commit repository, whatever its callers ask for, whatever fails and
  whatever else changes the database, a settled request never changes again, and a request that has
  been sealed stays sealed and keeps its signed authorization, its number of pieces and its signed
  list of pieces.\<close>

theorem signed_request_is_kept:
  assumes "schema_ok w" "commit_run redact big_ok w w'" "r \<in> set (storage_commit_requests (domain (db w)))"
  shows "\<exists>r' \<in> set (storage_commit_requests (domain (db w'))). req_RequestID r' = req_RequestID r \<and>
    (Terminal (req_Status r) \<longrightarrow> r' = r) \<and>
    (req_Status r \<noteq> RequestStatusCollecting \<longrightarrow> req_Status r' \<noteq> RequestStatusCollecting \<and> req_ExtraDataHex r' = req_ExtraDataHex r \<and>
       req_PieceCount r' = req_PieceCount r \<and> pieces_of (domain (db w')) (req_RequestID r) = pieces_of (domain (db w)) (req_RequestID r))"
proof -
  have p: "progress (domain (db w)) (domain (db w'))" using commit_run_lives [OF assms(2)] assms(1) by (simp add: lives_def)
  then obtain r' where "r' \<in> set (storage_commit_requests (domain (db w')))" "evolves r r'" using assms(3) by (auto simp: progress_def advance_def)
  moreover have "req_Status r \<noteq> RequestStatusCollecting \<longrightarrow> pieces_of (domain (db w')) (req_RequestID r) = pieces_of (domain (db w)) (req_RequestID r)"
    using p assms(3) by (auto simp: progress_def advance_def pieces_of_def signed_list_def)
  ultimately show ?thesis unfolding evolves_def by blast
qed

theorem signed_request_is_kept_witness:
  "let w = after [seal_both, join_second]; w' = after [confirm_both, begin_submission, seal_both, join_second] in
   map req_Status (storage_commit_requests (domain (db w))) = [RequestStatusReady] \<and>
   (\<exists>r' \<in> set (storage_commit_requests (domain (db w'))). req_RequestID r' = ''q'' \<and> req_Status r' \<noteq> RequestStatusCollecting \<and>
      req_ExtraDataHex r' = Some ''0xab'' \<and> req_PieceCount r' = 2 \<and>
      pieces_of (domain (db w')) ''q'' = pieces_of (domain (db w)) ''q'')"
proof -
  let ?w = "after [seal_both, join_second]"
  let ?r = "hd (storage_commit_requests (domain (db ?w)))"
  have ok: "schema_ok ?w" by code_simp
  have r: "?r \<in> set (storage_commit_requests (domain (db ?w))) \<and> req_RequestID ?r = ''q'' \<and> req_Status ?r = RequestStatusReady \<and>
    req_ExtraDataHex ?r = Some ''0xab'' \<and> req_PieceCount ?r = 2" by code_simp
  have all: "map req_Status (storage_commit_requests (domain (db ?w))) = [RequestStatusReady]" by code_simp
  have run: "commit_run (\<lambda>e. e) (\<lambda>_. True) ?w (after [confirm_both, begin_submission, seal_both, join_second])"
    using run_onwards [of "[seal_both, join_second]" "[confirm_both, begin_submission]"] by (simp only: append.simps)
  from signed_request_is_kept [OF ok run, of ?r] r have "\<exists>r' \<in> set (storage_commit_requests (domain (db (after [confirm_both, begin_submission, seal_both, join_second])))).
    req_RequestID r' = ''q'' \<and> req_Status r' \<noteq> RequestStatusCollecting \<and> req_ExtraDataHex r' = Some ''0xab'' \<and> req_PieceCount r' = 2 \<and>
      pieces_of (domain (db (after [confirm_both, begin_submission, seal_both, join_second]))) ''q'' = pieces_of (domain (db ?w)) ''q''"
    by (metis RequestStatus.distinct(1))
  with all show ?thesis unfolding Let_def by blast
qed

text \<open>C14: in every run of the commit repository no data set has more than
  \<open>MaxSubmittedRequestsPerDataSet\<close> requests on chain at a time, if it had no more at the start.\<close>

theorem submissions_are_limited:
  assumes "schema_ok w" "commit_run redact big_ok w w'" "int (in_flight (domain (db w)) i) \<le> MaxSubmittedRequestsPerDataSet"
  shows "int (in_flight (domain (db w')) i) \<le> MaxSubmittedRequestsPerDataSet"
proof -
  have "progress (domain (db w)) (domain (db w'))" using commit_run_lives [OF assms(2)] assms(1) by (simp add: lives_def)
  then have "in_flight (domain (db w')) i \<le> max 4 (in_flight (domain (db w)) i)" by (simp add: progress_def)
  with assms(3) show ?thesis by (simp add: MaxSubmittedRequestsPerDataSet_def)
qed

theorem submissions_are_limited_witness:
  "int (in_flight (domain (db (after [begin_submission, seal_both, join_second]))) 1) \<le> MaxSubmittedRequestsPerDataSet \<and>
   in_flight (domain (db (after [begin_submission, seal_both, join_second]))) 1 = 1"
proof -
  have "int (in_flight (domain (db commit_world)) 1) \<le> MaxSubmittedRequestsPerDataSet" by code_simp
  from submissions_are_limited [OF commit_world_ok run_after this, of "[begin_submission, seal_both, join_second]"]
  have "int (in_flight (domain (db (after [begin_submission, seal_both, join_second]))) 1) \<le> MaxSubmittedRequestsPerDataSet" .
  moreover have "in_flight (domain (db (after [begin_submission, seal_both, join_second]))) 1 = 1" by code_simp
  ultimately show ?thesis by blast
qed

end
