(* ===== verification/Spec2Isabelle.thy ===== *)
theory Spec2Isabelle
  imports Worker_Engine S3_Page_Size Commit_Lifecycle
begin

text \<open>
  A verification development of SynapS3, an S3 gateway that keeps objects on Filecoin storage
  providers. All paths are under \<open>src/\<close>.

  \<^bold>\<open>The program.\<close> The gateway records buckets, object versions, contents and their remote copies
  in PostgreSQL (\<open>internal/db/repository\<close>, schema in \<open>internal/db/migrations\<close>). The S3 front end
  (\<open>internal/backend\<close>) reads and writes objects through the repository. Everything that talks to a
  provider or the chain runs as a durable task: a row that a worker process claims under a
  lease, executes and settles (\<open>internal/worker\<close>), with the claim generation as a fencing token.
  The tasks' handlers (\<open>internal/task\<close>) transfer, commit, replace, remove and clean up copies.

  \<^bold>\<open>The model.\<close> \<open>Gateway_Prelude\<close> has the state-error monad the repositories are written in: a world
  holds the tables, the next sequence value, a clock that never runs backwards, and scripts that
  decide which statements fail, when a context is cancelled and when a lease is lost. Errors are
  values; a transaction that fails restores the tables. \<open>wpM\<close>, \<open>post\<close> and \<open>keeps\<close> are its
  weakest-precondition rules, with the locale \<open>kept_relation\<close> for relations that every statement
  keeps. A repository method is one atomic action; row locks that other transactions hold are an
  argument, and any interleaving of methods is a run.

  \<^bold>\<open>Tasks.\<close> \<open>Task_Model\<close> (\<open>model/task.go\<close>, the task tables), \<open>Task_Repo\<close> (\<open>task_repo.go\<close>,
  \<open>task_settlement_repo.go\<close>, \<open>task_round_repo.go\<close>, \<open>task_schedule_repo.go\<close>) and \<open>Task_Lists\<close>
  (\<open>task_storage_repo.go\<close>) model the repository. \<open>Task_Invariants\<close> shows that every operation keeps the
  constraints of the tables; \<open>Task_Runs\<close> that a claim settles at most once, a stale claim changes
  nothing and a finished round stays finished, in every run; \<open>Task_Claims\<close> that claiming takes a free
  round and that the skip-scan query equals the ordered one. \<open>Worker_Policy\<close> (\<open>worker/policy.go\<close>),
  \<open>Worker_Registry\<close> (\<open>contract.go\<close>, \<open>registry.go\<close>, \<open>messenger.go\<close>, \<open>func_handler.go\<close>), \<open>Worker_Service\<close>
  (\<open>service.go\<close>, \<open>retry.go\<close>, \<open>scheduler.go\<close>, \<open>periodic.go\<close>) and \<open>Worker_Engine\<close> (\<open>engine.go\<close>) model the
  worker: retry delays are bounded, a frozen registry is immutable, retries are idempotent, a
  schedule waits for its head, settlement is all or nothing, an execution always gives its claim
  up, and the dispatcher keeps its limits.

  \<^bold>\<open>Objects.\<close> \<open>Storage_Model\<close> has the storage tables with the checks, unique keys and foreign keys of the
  schema. \<open>Object_Reads\<close>, \<open>Object_Repo\<close> and \<open>Object_Delete\<close> model \<open>object_repo.go\<close> with
  \<open>storage_content_reference.go\<close>, \<open>object_condition.go\<close>, \<open>object_aggregate_repo.go\<close> and the parts of
  \<open>storage_commit_repo.go\<close> that deletion uses; \<open>Key_Prefix\<close> models \<open>prefix_filter.go\<close> over Go's UTF-8
  strings. \<open>Object_Spec\<close> is an abstract versioned store; \<open>Object_Refine\<close>, \<open>Object_Removals\<close> and
  \<open>Object_Operations\<close> show that every operation is one of its steps, and \<open>Object_Store\<close> states what
  callers rely on: refinement, current versions, reading back, restoring, and cleanup exactly
  for the last version of a content.

  \<^bold>\<open>Commits.\<close> \<open>Commit_Repo\<close> models \<open>storage_commit_repo.go\<close> and the seal control of
  \<open>storage_commit_controls.go\<close>: copies collect in a request, which is sealed into a signed list of
  pieces, submitted, and confirmed or abandoned. \<open>Commit_Lifecycle\<close> shows of every run of these
  operations, with anything else changing the other tables in between, that a signed request keeps
  its signature and its pieces, a settled one never changes again, and no data set has more than
  four submitted requests.

  \<^bold>\<open>The S3 front end.\<close> \<open>S3_Listing\<close> and \<open>S3_Page_Size\<close> model \<open>backend/listing.go\<close>: following the
  markers of a listing reports every object and every common prefix exactly once, and no page is
  larger than it was asked to be.

  \<^bold>\<open>Bounds and fuel.\<close> Loops over batches and pages carry fuel; the theorems about them assume
  more fuel than there are rows and show that this is enough. The retry loops of transactions
  (twenty attempts) and of settlement have the bounds of the code.

  \<^bold>\<open>Not modelled.\<close> The text of SQL statements (a query is a function of the tables), row locks
  other than \<open>SKIP LOCKED\<close>, rounding of floating-point backoff, logging and metrics; the admin API
  and its commands (request decoding and rendering around repository calls), the Synapse client
  (network calls and contract bindings), configuration, start-up wiring and test utilities.
\<close>

end
